(* ===== verification/Reuseport_Prelude.thy ===== *)
theory Reuseport_Prelude
  imports Main "HOL-Library.Word"
begin

text \<open>
  Shared vocabulary of the development: the machine integer types of the crate, the
  named collections of simplification rules, Rust's \<open>Result\<close> as a sum type with the
  \<open>?\<close> operator, \<open>slice::get\<close>, big-endian byte encodings, decimal printing as
  \<open>format!\<close> does it, and the list and word lemmas that several components use.
\<close>

unbundle bit_operations_syntax

section \<open>Types and collections\<close>

text \<open>
  A \<open>usize\<close> that counts or indexes is a natural number; where the code lets one wrap
  around (the two round-robin counters) the reduction modulo \<open>2 ^ 64\<close> is written out.
\<close>

type_synonym u8 = "8 word"
type_synonym u16 = "16 word"
type_synonym u32 = "32 word"
type_synonym u64 = "64 word"
type_synonym i16 = "16 word"
type_synonym i32 = "32 word"
type_synonym usize = nat

named_theorems result_simps \<open>equations for Result values\<close>
named_theorems byte_simps \<open>bytes, prefixes and big-endian encodings\<close>
named_theorems config_simps \<open>service configurations and their builders\<close>

section \<open>Result\<close>

text \<open>\<open>Inl\<close> is \<open>Err\<close>, \<open>Inr\<close> is \<open>Ok\<close>; \<open>and_then r f\<close> is \<open>f(r?)\<close>.\<close>

definition and_then :: "'e + 'a \<Rightarrow> ('a \<Rightarrow> 'e + 'b) \<Rightarrow> 'e + 'b" where
  "and_then r f = (case r of Inl e \<Rightarrow> Inl e | Inr x \<Rightarrow> f x)"

definition map_ok :: "('a \<Rightarrow> 'b) \<Rightarrow> 'e + 'a \<Rightarrow> 'e + 'b" where
  "map_ok f r = (case r of Inl e \<Rightarrow> Inl e | Inr x \<Rightarrow> Inr (f x))"

definition map_err :: "('e \<Rightarrow> 'f) \<Rightarrow> 'e + 'a \<Rightarrow> 'f + 'a" where
  "map_err f r = (case r of Inl e \<Rightarrow> Inl (f e) | Inr x \<Rightarrow> Inr x)"

definition ok_or :: "'e \<Rightarrow> 'a option \<Rightarrow> 'e + 'a" where
  "ok_or e x = (case x of None \<Rightarrow> Inl e | Some v \<Rightarrow> Inr v)"

definition is_ok :: "'e + 'a \<Rightarrow> bool" where
  "is_ok r = (case r of Inl _ \<Rightarrow> False | Inr _ \<Rightarrow> True)"

definition to_ok :: "'e + 'a \<Rightarrow> 'a option" where
  "to_ok r = (case r of Inl _ \<Rightarrow> None | Inr x \<Rightarrow> Some x)"

lemma and_then_simps [simp]:
  "and_then (Inl e) f = Inl e" "and_then (Inr x) f = f x"
  by (simp_all add: and_then_def)

lemma map_ok_simps [simp]:
  "map_ok f (Inl e) = Inl e" "map_ok f (Inr x) = Inr (f x)"
  by (simp_all add: map_ok_def)

lemma map_err_simps [simp]:
  "map_err f (Inl e) = Inl (f e)" "map_err f (Inr x) = Inr x"
  by (simp_all add: map_err_def)

lemma ok_or_simps [simp]:
  "ok_or e None = Inl e" "ok_or e (Some x) = Inr x"
  by (simp_all add: ok_or_def)

lemma is_ok_simps [simp]: "\<not> is_ok (Inl e)" "is_ok (Inr x)"
  by (simp_all add: is_ok_def)

lemma to_ok_simps [simp]: "to_ok (Inl e) = None" "to_ok (Inr x) = Some x"
  by (simp_all add: to_ok_def)

lemma and_then_eq_Inr [result_simps]:
  "and_then r f = Inr y \<longleftrightarrow> (\<exists>x. r = Inr x \<and> f x = Inr y)"
  by (cases r) auto

lemma and_then_eq_Inl [result_simps]:
  "and_then r f = Inl e \<longleftrightarrow> r = Inl e \<or> (\<exists>x. r = Inr x \<and> f x = Inl e)"
  by (cases r) auto

lemma map_ok_eq_Inr [result_simps]: "map_ok f r = Inr y \<longleftrightarrow> (\<exists>x. r = Inr x \<and> y = f x)"
  by (cases r) auto

lemma map_err_eq_Inr [result_simps]: "map_err f r = Inr y \<longleftrightarrow> r = Inr y"
  by (cases r) auto

lemma map_err_eq_Inl [result_simps]: "map_err f r = Inl e \<longleftrightarrow> (\<exists>x. r = Inl x \<and> e = f x)"
  by (cases r) auto

lemma ok_or_eq_Inr [result_simps]: "ok_or e x = Inr y \<longleftrightarrow> x = Some y"
  by (cases x) auto

lemma is_ok_iff [result_simps]: "is_ok r \<longleftrightarrow> (\<exists>x. r = Inr x)"
  by (cases r) auto

lemma to_ok_eq_Some [result_simps]: "to_ok r = Some x \<longleftrightarrow> r = Inr x"
  by (cases r) auto

section \<open>Slices\<close>

text \<open>\<open>slice_get xs i\<close> is \<open>xs.get(i)\<close>; \<open>copy_prefix dst src\<close> is
  \<open>dst[..n].copy_from_slice(src)\<close> for \<open>n = src.len() \<le> dst.len()\<close>.\<close>

definition slice_get :: "'a list \<Rightarrow> nat \<Rightarrow> 'a option" where
  "slice_get xs i = (if i < length xs then Some (xs ! i) else None)"

definition slice_from :: "'a list \<Rightarrow> nat \<Rightarrow> 'a list option" where
  "slice_from xs i = (if i \<le> length xs then Some (drop i xs) else None)"

definition copy_prefix :: "'a list \<Rightarrow> 'a list \<Rightarrow> 'a list" where
  "copy_prefix dst src = src @ drop (length src) dst"

lemma slice_get_eq_Some [byte_simps]:
  "slice_get xs i = Some x \<longleftrightarrow> i < length xs \<and> xs ! i = x"
  by (auto simp: slice_get_def)

lemma slice_get_eq_None [byte_simps]: "slice_get xs i = None \<longleftrightarrow> length xs \<le> i"
  by (auto simp: slice_get_def)

lemma slice_get_Some [simp]: "i < length xs \<Longrightarrow> slice_get xs i = Some (xs ! i)"
  by (simp add: slice_get_def)

lemma slice_get_map [simp]: "slice_get (map f xs) i = map_option f (slice_get xs i)"
  by (simp add: slice_get_def)

lemma length_copy_prefix [simp]:
  "length src \<le> length dst \<Longrightarrow> length (copy_prefix dst src) = length dst"
  by (simp add: copy_prefix_def)

lemma take_copy_prefix [simp]: "take (length src) (copy_prefix dst src) = src"
  by (simp add: copy_prefix_def)

lemma replicate_numeral:
  "replicate (numeral k) x = x # replicate (pred_numeral k) x"
  by (simp add: numeral_eq_Suc)

section \<open>Bytes\<close>

lemma unat_of_nat_u8 [byte_simps]: "unat (word_of_nat n :: u8) = n mod 256"
  by (simp add: unat_of_nat take_bit_eq_mod)

lemma unat_of_nat_u16 [byte_simps]: "unat (word_of_nat n :: u16) = n mod 65536"
  by (simp add: unat_of_nat take_bit_eq_mod)

lemma unat_u8_lt [simp]: "unat (b :: u8) < 256"
  using unsigned_less [where ?'a = nat, of b] by simp

lemma unat_u16_lt [simp]: "unat (b :: u16) < 65536"
  using unsigned_less [where ?'a = nat, of b] by simp

text \<open>The two-byte prefix \<open>(usize::from(hi) << 8) | usize::from(lo)\<close>: disjoint bits add.\<close>

lemma push_or_eq_add:
  fixes a b :: nat
  assumes "b < 256"
  shows "push_bit 8 a OR b = a * 256 + b"
proof -
  have "push_bit 8 a AND b = 0"
  proof (rule bit_eqI)
    fix n
    show "bit (push_bit 8 a AND b) n = bit (0::nat) n"
    proof (cases "n < 8")
      case True
      then show ?thesis by (simp add: bit_and_iff bit_push_bit_iff)
    next
      case False
      then have "b < 2 ^ n"
        using assms power_increasing [of 8 n "2::nat"] by simp
      then have "\<not> bit b n" by (simp add: bit_iff_odd)
      then show ?thesis by (simp add: bit_and_iff)
    qed
  qed
  then have "push_bit 8 a OR b = push_bit 8 a + b"
    by (simp add: disjunctive_add_eq_or)
  then show ?thesis by (simp add: push_bit_eq_mult)
qed

lemma div_mod_256 [byte_simps]:
  fixes n :: nat
  assumes "n \<le> 65535"
  shows "n div 256 mod 256 * 256 + n mod 256 = n"
proof -
  have "n div 256 < 256" using assms by (simp add: less_mult_imp_div_less)
  then show ?thesis by simp
qed

section \<open>Decimal printing\<close>

fun show_nat :: "nat \<Rightarrow> string" where
  "show_nat n = (if n < 10 then [char_of (48 + n)] else show_nat (n div 10) @ [char_of (48 + n mod 10)])"

declare show_nat.simps [simp del]

end
