(* ===== verification/Errors.thy ===== *)
theory Errors
  imports Reuseport_Prelude
begin

text \<open>
  The crate's error type (\<open>src/core/error.rs\<close>) and the part of \<open>std::io::Error\<close> it
  is built from: an error kind and the text \<open>Display\<close> prints for it.
\<close>

section \<open>std::io::Error\<close>

datatype ErrorKind =
    KindNotFound | KindPermissionDenied | KindWouldBlock | KindUnexpectedEof | KindBrokenPipe
  | KindNotConnected | KindInvalidInput | KindInvalidData | KindTimedOut
  | KindUnsupported | KindAddrInUse | KindOther

record io_error =
  error_kind :: ErrorKind
  error_text :: string

section \<open>Error\<close>

datatype Error =
    InvalidConfig string
  | UnsupportedPlatformOption string
  | PermissionDenied string
  | SocketInitCallback string
  | Socket io_error
  | Runtime string
  | Handler string

definition error_socket :: "io_error \<Rightarrow> Error" where
  "error_socket error =
     (if error_kind error = KindPermissionDenied then PermissionDenied (error_text error)
      else Socket error)"

fun error_display :: "Error \<Rightarrow> string" where
  "error_display (InvalidConfig message) = ''invalid config: '' @ message"
| "error_display (UnsupportedPlatformOption message) = ''unsupported platform option: '' @ message"
| "error_display (PermissionDenied message) = ''permission denied: '' @ message"
| "error_display (SocketInitCallback message) = ''socket init callback error: '' @ message"
| "error_display (Socket error) = ''socket error: '' @ error_text error"
| "error_display (Runtime message) = ''runtime error: '' @ message"
| "error_display (Handler message) = ''handler error: '' @ message"

fun error_source :: "Error \<Rightarrow> io_error option" where
  "error_source (Socket error) = Some error"
| "error_source _ = None"

definition error_from :: "io_error \<Rightarrow> Error" where
  "error_from value = error_socket value"

type_synonym 'a result = "Error + 'a"
type_synonym 'a io_result = "io_error + 'a"

section \<open>Properties\<close>

lemma error_from_cases [result_simps]:
  "error_from e = PermissionDenied m \<longleftrightarrow> error_kind e = KindPermissionDenied \<and> m = error_text e"
  "error_from e = Socket e' \<longleftrightarrow> error_kind e \<noteq> KindPermissionDenied \<and> e' = e"
  by (auto simp: error_from_def error_socket_def)

lemma error_from_not_config [simp]:
  "error_from e \<noteq> InvalidConfig m" "error_from e \<noteq> Runtime m"
  "error_from e \<noteq> UnsupportedPlatformOption m"
  "error_from e \<noteq> SocketInitCallback m" "error_from e \<noteq> Handler m"
  by (auto simp: error_from_def error_socket_def)

text \<open>What \<open>Display\<close> prints tells every two errors apart, up to the kind of a socket error.\<close>

fun same_report :: "Error \<Rightarrow> Error \<Rightarrow> bool" where
  "same_report (Socket e) (Socket e') \<longleftrightarrow> error_text e = error_text e'"
| "same_report e e' \<longleftrightarrow> e = e'"

lemma error_display_eq_iff: "error_display e = error_display e' \<longleftrightarrow> same_report e e'"
  by (cases e; cases e') auto

end
