(* ===== verification/Tokio_Executor.thy ===== *)
theory Tokio_Executor
  imports Errors
begin

text \<open>
  The single-threaded executor of a worker on tokio (\<open>src/runtime/tokio.rs\<close>): tasks are
  submitted and cancelled from any thread as commands on an unbounded channel, and the worker's
  loop starts them, keeps their join handles by id and drops a handle when its task reports
  completion. Which ready branch \<open>select!\<close> takes, how tasks progress and when tokio drops an
  aborted task is up to tokio: the step relation allows every order. The channels are queues,
  and sending to a channel whose receiver is gone fails.
\<close>

section \<open>State\<close>

datatype 't TaskCommand = Spawn nat 't | Cancel nat

text \<open>
  \<open>ex_tasks\<close> are the tasks in the \<open>LocalSet\<close>, each with a flag that \<open>abort\<close> has been called on
  it; \<open>ex_handles\<close> are the keys of the loop's map of join handles; \<open>ex_out\<close> are the ids of the
  \<open>TaskHandle\<close>s callers hold. \<open>ex_open\<close> holds while the loop owns the receiver. \<open>ex_locals\<close> are
  the tasks that code on the worker started with \<open>spawn_local\<close>, which the loop does not know of:
  the handlers of the servers are started this way.
\<close>

record 't executor =
  ex_open :: bool
  ex_commands :: "'t TaskCommand list"
  ex_completions :: "nat list"
  ex_handles :: "nat set"
  ex_tasks :: "nat \<rightharpoonup> 't \<times> bool"
  ex_next_id :: nat
  ex_out :: "nat set"
  ex_locals :: "nat \<rightharpoonup> 't \<times> bool"
  ex_next_local :: nat

definition executor_new :: "'t executor" where
  "executor_new =
     \<lparr>ex_open = True, ex_commands = [], ex_completions = [], ex_handles = {},
      ex_tasks = Map.empty, ex_next_id = 1, ex_out = {}, ex_locals = Map.empty, ex_next_local = 0\<rparr>"

section \<open>Operations\<close>

text \<open>\<open>ExecutorHandle::spawn_task\<close>; the id counter is a \<open>u64\<close> and wraps.\<close>

definition spawn_task :: "'t \<Rightarrow> 't executor \<Rightarrow> nat io_result \<times> 't executor" where
  "spawn_task task s =
     (let tid = ex_next_id s;
          s = s\<lparr>ex_next_id := (tid + 1) mod 2 ^ 64\<rparr>
      in if ex_open s
         then (Inr tid, s\<lparr>ex_commands := ex_commands s @ [Spawn tid task], ex_out := insert tid (ex_out s)\<rparr>)
         else (Inl \<lparr>error_kind = KindBrokenPipe, error_text = ''worker runtime stopped''\<rparr>, s))"

text \<open>\<open>TaskHandle::cancel\<close> takes the handle; a failing send is ignored.\<close>

definition cancel :: "nat \<Rightarrow> 't executor \<Rightarrow> 't executor" where
  "cancel tid s =
     (let s = s\<lparr>ex_out := ex_out s - {tid}\<rparr>
      in if ex_open s then s\<lparr>ex_commands := ex_commands s @ [Cancel tid]\<rparr> else s)"

text \<open>A local task is in the \<open>LocalSet\<close> at once, and cancelling its handle is \<open>JoinHandle::abort\<close>.\<close>

definition tokio_spawn_local :: "'t \<Rightarrow> 't executor \<Rightarrow> nat io_result \<times> 't executor" where
  "tokio_spawn_local future s =
     (let k = ex_next_local s
      in (Inr k, s\<lparr>ex_locals := (ex_locals s)(k \<mapsto> (future, False)), ex_next_local := k + 1\<rparr>))"

definition cancel_local :: "nat \<Rightarrow> 't executor \<Rightarrow> 't executor" where
  "cancel_local k s =
     s\<lparr>ex_locals := (\<lambda>j. if j = k then map_option (\<lambda>(t, _). (t, True)) (ex_locals s j) else ex_locals s j)\<rparr>"

definition abort_task :: "nat \<Rightarrow> 't executor \<Rightarrow> 't executor" where
  "abort_task tid s =
     s\<lparr>ex_tasks := (\<lambda>j. if j = tid then map_option (\<lambda>(t, _). (t, True)) (ex_tasks s j) else ex_tasks s j)\<rparr>"

fun handle_command :: "'t TaskCommand \<Rightarrow> 't executor \<Rightarrow> 't executor" where
  "handle_command (Spawn tid task) s =
     s\<lparr>ex_handles := insert tid (ex_handles s), ex_tasks := (ex_tasks s)(tid \<mapsto> (task, False))\<rparr>"
| "handle_command (Cancel tid) s =
     (if tid \<in> ex_handles s then abort_task tid (s\<lparr>ex_handles := ex_handles s - {tid}\<rparr>) else s)"

definition handle_completion :: "nat \<Rightarrow> 't executor \<Rightarrow> 't executor" where
  "handle_completion completed_id s = s\<lparr>ex_handles := ex_handles s - {completed_id}\<rparr>"

text \<open>
  The end of \<open>park_until_shutdown\<close>: every task that still has a handle is aborted and the
  receivers are dropped; then the runtime and the \<open>LocalSet\<close> with all its tasks are.
\<close>

definition park_break :: "'t executor \<Rightarrow> 't executor" where
  "park_break s =
     s\<lparr>ex_open := False, ex_commands := [], ex_completions := [], ex_handles := {},
       ex_tasks := (\<lambda>j. if j \<in> ex_handles s then map_option (\<lambda>(t, _). (t, True)) (ex_tasks s j)
                        else ex_tasks s j)\<rparr>"

definition park_return :: "'t executor \<Rightarrow> 't executor" where
  "park_return s = s\<lparr>ex_tasks := Map.empty, ex_locals := Map.empty\<rparr>"

text \<open>
  A task leaves the \<open>LocalSet\<close>, finished or aborted: dropping it drops its completion guard,
  which reports its id if the receiver still exists.
\<close>

definition task_gone :: "nat \<Rightarrow> 't executor \<Rightarrow> 't executor" where
  "task_gone tid s =
     (let s = s\<lparr>ex_tasks := (ex_tasks s)(tid := None)\<rparr>
      in if ex_open s then s\<lparr>ex_completions := ex_completions s @ [tid]\<rparr> else s)"

text \<open>A task that was aborted before its first poll has no guard yet and leaves silently.\<close>

definition task_dropped :: "nat \<Rightarrow> 't executor \<Rightarrow> 't executor" where
  "task_dropped tid s = s\<lparr>ex_tasks := (ex_tasks s)(tid := None)\<rparr>"

section \<open>Steps\<close>

text \<open>
  Runs with fewer than \<open>2 ^ 64\<close> submissions, so that the counter does not wrap. An aborted task
  may still make progress until tokio drops it; it leaves by \<open>gone\<close>, or by \<open>dropped\<close> if it was
  never polled. Local tasks are started while the \<open>LocalSet\<close> runs.
\<close>

inductive ex_step :: "'t executor \<Rightarrow> 't executor \<Rightarrow> bool" where
  submit: "ex_next_id s + 1 < 2 ^ 64 \<Longrightarrow> ex_step s (snd (spawn_task task s))"
| cancelled: "tid \<in> ex_out s \<Longrightarrow> ex_step s (cancel tid s)"
| command: "ex_open s \<Longrightarrow> ex_commands s = c # cs \<Longrightarrow>
    ex_step s (handle_command c (s\<lparr>ex_commands := cs\<rparr>))"
| completion: "ex_open s \<Longrightarrow> ex_completions s = tid # ids \<Longrightarrow>
    ex_step s (handle_completion tid (s\<lparr>ex_completions := ids\<rparr>))"
| gone: "tid \<in> dom (ex_tasks s) \<Longrightarrow> ex_step s (task_gone tid s)"
| dropped: "ex_tasks s tid = Some (t, True) \<Longrightarrow> ex_step s (task_dropped tid s)"
| local_started: "ex_open s \<Longrightarrow> ex_step s (snd (tokio_spawn_local task s))"
| local_cancelled: "ex_step s (cancel_local k s)"
| local_gone: "ex_step s (s\<lparr>ex_locals := (ex_locals s)(k := None)\<rparr>)"
| shutdown: "ex_open s \<Longrightarrow> ex_step s (park_break s)"
| return: "\<not> ex_open s \<Longrightarrow> ex_step s (park_return s)"

inductive ex_reachable :: "'t executor \<Rightarrow> bool" where
  start: "ex_reachable executor_new"
| step: "ex_reachable s \<Longrightarrow> ex_step s t \<Longrightarrow> ex_reachable t"

section \<open>Invariant\<close>

definition running :: "'t executor \<Rightarrow> nat \<Rightarrow> bool" where
  "running s tid \<longleftrightarrow> (\<exists>t. ex_tasks s tid = Some (t, False))"

fun spawn_ids :: "'t TaskCommand list \<Rightarrow> nat list" where
  "spawn_ids [] = []"
| "spawn_ids (Spawn tid t # cs) = tid # spawn_ids cs"
| "spawn_ids (Cancel tid # cs) = spawn_ids cs"

text \<open>A cancellation is queued behind the submission it refers to.\<close>

fun cancels_late :: "'t TaskCommand list \<Rightarrow> bool" where
  "cancels_late [] \<longleftrightarrow> True"
| "cancels_late (Spawn tid t # cs) \<longleftrightarrow> cancels_late cs"
| "cancels_late (Cancel tid # cs) \<longleftrightarrow> tid \<notin> set (spawn_ids cs) \<and> cancels_late cs"

fun command_id :: "'t TaskCommand \<Rightarrow> nat" where
  "command_id (Spawn tid t) = tid"
| "command_id (Cancel tid) = tid"

definition ex_inv :: "'t executor \<Rightarrow> bool" where
  "ex_inv s \<longleftrightarrow>
     distinct (spawn_ids (ex_commands s)) \<and> cancels_late (ex_commands s) \<and>
     (\<forall>c \<in> set (ex_commands s). command_id c < ex_next_id s) \<and>
     (\<forall>tid \<in> ex_out s \<union> dom (ex_tasks s) \<union> ex_handles s \<union> set (ex_completions s). tid < ex_next_id s) \<and>
     (\<forall>tid \<in> set (spawn_ids (ex_commands s)).
        tid \<notin> dom (ex_tasks s) \<union> ex_handles s \<union> set (ex_completions s)) \<and>
     (\<forall>tid. running s tid \<longrightarrow> tid \<in> ex_handles s \<and> tid \<notin> set (ex_completions s)) \<and>
     (\<forall>tid \<in> ex_handles s. running s tid \<or> tid \<in> set (ex_completions s)) \<and>
     (\<not> ex_open s \<longrightarrow> ex_commands s = [] \<and> ex_completions s = [] \<and> ex_handles s = {})"

lemma spawn_ids_append [simp]: "spawn_ids (xs @ ys) = spawn_ids xs @ spawn_ids ys"
  by (induction xs rule: spawn_ids.induct) auto

lemma cancels_late_append:
  "cancels_late (xs @ ys) \<longleftrightarrow> cancels_late xs \<and> cancels_late ys \<and>
     (\<forall>tid. Cancel tid \<in> set xs \<longrightarrow> tid \<notin> set (spawn_ids ys))"
  by (induction xs rule: cancels_late.induct) auto

lemma spawn_ids_bound: "tid \<in> set (spawn_ids cs) \<Longrightarrow> \<exists>c \<in> set cs. command_id c = tid"
  by (induction cs rule: spawn_ids.induct) auto

lemma executor_new_inv: "ex_inv executor_new"
  by (simp add: ex_inv_def executor_new_def running_def)

lemma spawn_task_inv:
  assumes "ex_inv s" and "ex_next_id s + 1 < 2 ^ 64"
  shows "ex_inv (snd (spawn_task task s))"
proof -
  let ?n = "ex_next_id s"
  have "(?n + 1) mod 2 ^ 64 = ?n + 1" using assms(2) by (rule mod_less)
  then have eq: "snd (spawn_task task s) =
      (if ex_open s
       then s\<lparr>ex_next_id := Suc ?n, ex_commands := ex_commands s @ [Spawn ?n task],
              ex_out := insert ?n (ex_out s)\<rparr>
       else s\<lparr>ex_next_id := Suc ?n\<rparr>)"
    unfolding spawn_task_def Let_def by simp
  have bound: "\<forall>c \<in> set (ex_commands s). command_id c < ex_next_id s"
    using assms(1) by (simp add: ex_inv_def)
  have fresh: "ex_next_id s \<notin> set (spawn_ids (ex_commands s))"
    using spawn_ids_bound bound by fastforce
  have late: "\<forall>tid. Cancel tid \<in> set (ex_commands s) \<longrightarrow> tid \<noteq> ex_next_id s"
    using bound by fastforce
  show ?thesis
    using assms(1) fresh late unfolding eq
    by (auto simp: ex_inv_def cancels_late_append running_def intro: less_SucI)
qed

lemma cancel_inv: "ex_inv s \<Longrightarrow> tid \<in> ex_out s \<Longrightarrow> ex_inv (cancel tid s)"
  by (auto simp: cancel_def Let_def ex_inv_def cancels_late_append running_def)

lemma handle_command_inv:
  assumes inv: "ex_inv s" and "ex_open s" and c: "ex_commands s = c # cs"
  shows "ex_inv (handle_command c (s\<lparr>ex_commands := cs\<rparr>))"
proof (cases c)
  case (Spawn tid t)
  with assms show ?thesis by (auto simp: ex_inv_def running_def)
next
  case (Cancel tid)
  with assms show ?thesis
    by (auto simp: ex_inv_def running_def abort_task_def split: if_splits)
qed

lemma task_gone_inv:
  assumes "ex_inv s" and "tid \<in> dom (ex_tasks s)"
  shows "ex_inv (task_gone tid s)"
  using assms by (auto simp: task_gone_def Let_def ex_inv_def running_def split: if_splits)

lemma task_dropped_inv:
  assumes "ex_inv s" and "ex_tasks s tid = Some (t, True)"
  shows "ex_inv (task_dropped tid s)"
  using assms by (auto simp: task_dropped_def ex_inv_def running_def split: if_splits)

lemma local_inv:
  "ex_inv (s\<lparr>ex_locals := m, ex_next_local := n\<rparr>) \<longleftrightarrow> ex_inv s" "ex_inv (s\<lparr>ex_locals := m\<rparr>) \<longleftrightarrow> ex_inv s"
  by (simp_all add: ex_inv_def running_def)

lemma handle_completion_inv:
  assumes "ex_inv s" and "ex_open s" and "ex_completions s = tid # ids"
  shows "ex_inv (handle_completion tid (s\<lparr>ex_completions := ids\<rparr>))"
  using assms by (auto simp: handle_completion_def ex_inv_def running_def)

lemma park_inv: "ex_inv s \<Longrightarrow> ex_inv (park_break s)" "ex_inv s \<Longrightarrow> \<not> ex_open s \<Longrightarrow> ex_inv (park_return s)"
  by (auto simp: park_break_def park_return_def ex_inv_def running_def split: if_splits)

lemma ex_step_inv:
  assumes "ex_step s t" and inv: "ex_inv s"
  shows "ex_inv t"
  using assms(1)
proof cases
  case (submit task)
  from spawn_task_inv [OF inv submit(2)] submit(1) show ?thesis by simp
next
  case (cancelled tid)
  from cancel_inv [OF inv cancelled(2)] cancelled(1) show ?thesis by simp
next
  case (command c cs)
  from handle_command_inv [OF inv command(2,3)] command(1) show ?thesis by simp
next
  case (completion tid ids)
  from handle_completion_inv [OF inv completion(2,3)] completion(1) show ?thesis by simp
next
  case (gone tid)
  from task_gone_inv [OF inv gone(2)] gone(1) show ?thesis by simp
next
  case (dropped tid t)
  from task_dropped_inv [OF inv dropped(2)] dropped(1) show ?thesis by simp
next
  case (local_started task)
  with inv show ?thesis by (simp add: tokio_spawn_local_def Let_def local_inv)
next
  case (local_cancelled k)
  with inv show ?thesis by (simp add: cancel_local_def local_inv)
next
  case (local_gone k)
  with inv show ?thesis by (simp add: local_inv)
next
  case shutdown
  from park_inv(1) [OF inv] shutdown(1) show ?thesis by simp
next
  case return
  from park_inv(2) [OF inv return(2)] return(1) show ?thesis by simp
qed

lemma ex_reachable_inv: "ex_reachable s \<Longrightarrow> ex_inv s"
  by (induction rule: ex_reachable.induct) (auto intro: executor_new_inv ex_step_inv)

section \<open>Cancelled for good\<close>

text \<open>The task was submitted, is not waiting to be started and is not running.\<close>

definition stopped :: "nat \<Rightarrow> 't executor \<Rightarrow> bool" where
  "stopped tid s \<longleftrightarrow>
     tid < ex_next_id s \<and> tid \<notin> set (spawn_ids (ex_commands s)) \<and> \<not> running s tid"

lemma stopped_step:
  assumes "ex_step s t" and "stopped tid s"
  shows "stopped tid t"
  using assms
proof (induction rule: ex_step.induct)
  case (submit s task)
  then show ?case by (auto simp: stopped_def spawn_task_def Let_def running_def)
next
  case (command s c cs)
  then show ?case by (cases c) (auto simp: stopped_def running_def abort_task_def)
qed (auto simp: stopped_def running_def cancel_def Let_def handle_completion_def task_gone_def
    park_break_def park_return_def task_dropped_def tokio_spawn_local_def cancel_local_def)

lemma stopped_steps: "ex_step\<^sup>*\<^sup>* s t \<Longrightarrow> stopped tid s \<Longrightarrow> stopped tid t"
  by (induction rule: rtranclp_induct) (auto intro: stopped_step)

lemma handle_cancel_stops:
  assumes inv: "ex_inv s" and "ex_open s" and c: "ex_commands s = Cancel tid # cs"
  shows "stopped tid (handle_command (Cancel tid) (s\<lparr>ex_commands := cs\<rparr>))"
  using assms by (auto simp: stopped_def ex_inv_def running_def abort_task_def)

text \<open>Nothing runs and nothing is accepted once the loop has ended.\<close>

definition closed :: "'t executor \<Rightarrow> bool" where
  "closed s \<longleftrightarrow> \<not> ex_open s \<and> (\<forall>tid. \<not> running s tid)"

lemma closed_step: "ex_step s t \<Longrightarrow> ex_inv s \<Longrightarrow> closed s \<Longrightarrow> closed t"
  by (induction rule: ex_step.induct)
    (auto simp: closed_def running_def spawn_task_def Let_def cancel_def task_gone_def
      park_return_def ex_inv_def task_dropped_def cancel_local_def split: if_splits)

lemma closed_steps: "ex_step\<^sup>*\<^sup>* s t \<Longrightarrow> ex_inv s \<Longrightarrow> closed s \<Longrightarrow> closed t"
proof (induction rule: converse_rtranclp_induct)
  case (step y z)
  then show ?case using closed_step ex_step_inv by blast
qed

text \<open>Once the runtime is gone the \<open>LocalSet\<close> stays empty.\<close>

definition emptied :: "'t executor \<Rightarrow> bool" where
  "emptied s \<longleftrightarrow> \<not> ex_open s \<and> ex_commands s = [] \<and> ex_tasks s = Map.empty \<and> ex_locals s = Map.empty"

lemma emptied_step: "ex_step s t \<Longrightarrow> emptied s \<Longrightarrow> emptied t"
  by (induction rule: ex_step.induct)
    (auto simp: emptied_def spawn_task_def Let_def cancel_def park_return_def cancel_local_def)

lemma emptied_steps: "ex_step\<^sup>*\<^sup>* s t \<Longrightarrow> emptied s \<Longrightarrow> emptied t"
  by (induction rule: rtranclp_induct) (auto intro: emptied_step)

lemma park_empties: "emptied (park_return (park_break s))"
  by (simp add: emptied_def park_break_def park_return_def)

lemma park_break_closes: "ex_inv s \<Longrightarrow> closed (park_break s)"
  by (auto simp: closed_def park_break_def running_def ex_inv_def split: if_splits)

section \<open>Runs\<close>

text \<open>The steps as a function of the choice made, to run the executor on concrete sequences.\<close>

datatype 't ex_event =
    Submitting 't | Cancelling nat | Commanding | Completing | Going nat | Shutting | Returning
  | Starting 't | Dropping nat

fun ex_exec :: "'t executor \<Rightarrow> 't ex_event \<Rightarrow> 't executor option" where
  "ex_exec s (Submitting task) =
     (if ex_next_id s + 1 < 2 ^ 64 then Some (snd (spawn_task task s)) else None)"
| "ex_exec s (Cancelling tid) = (if tid \<in> ex_out s then Some (cancel tid s) else None)"
| "ex_exec s Commanding =
     (case ex_commands s of
        [] \<Rightarrow> None
      | c # cs \<Rightarrow> if ex_open s then Some (handle_command c (s\<lparr>ex_commands := cs\<rparr>)) else None)"
| "ex_exec s Completing =
     (case ex_completions s of
        [] \<Rightarrow> None
      | tid # ids \<Rightarrow> if ex_open s then Some (handle_completion tid (s\<lparr>ex_completions := ids\<rparr>)) else None)"
| "ex_exec s (Going tid) = (if ex_tasks s tid \<noteq> None then Some (task_gone tid s) else None)"
| "ex_exec s (Starting task) = (if ex_open s then Some (snd (tokio_spawn_local task s)) else None)"
| "ex_exec s (Dropping tid) =
     (case ex_tasks s tid of Some (t, True) \<Rightarrow> Some (task_dropped tid s) | _ \<Rightarrow> None)"
| "ex_exec s Shutting = (if ex_open s then Some (park_break s) else None)"
| "ex_exec s Returning = (if ex_open s then None else Some (park_return s))"

lemma ex_exec_step: "ex_exec s ev = Some t \<Longrightarrow> ex_step s t"
  by (cases ev) (auto intro: ex_step.intros split: if_splits list.splits option.splits bool.splits
      simp del: One_nat_def)

fun ex_run :: "'t executor \<Rightarrow> 't ex_event list \<Rightarrow> 't executor option" where
  "ex_run s [] = Some s"
| "ex_run s (ev # evs) = (case ex_exec s ev of None \<Rightarrow> None | Some t \<Rightarrow> ex_run t evs)"

lemma ex_run_reachable: "ex_run s evs = Some t \<Longrightarrow> ex_reachable s \<Longrightarrow> ex_reachable t"
  by (induction evs arbitrary: s)
    (auto split: option.splits dest: ex_exec_step intro: ex_reachable.step)

lemmas ex_eval =
  executor_new_def spawn_task_def cancel_def handle_completion_def task_gone_def abort_task_def
  park_break_def park_return_def tokio_spawn_local_def task_dropped_def Let_def running_def

section \<open>Properties\<close>

text \<open>C15. Cancelling is final. When the loop handles a cancellation, the task it names is not running
  afterwards and never runs again, whatever is submitted, cancelled or completed in between: the
  submission it belongs to was handled before it.\<close>

theorem cancelled_task_never_runs:
  assumes "ex_reachable s" and "ex_open s" and "ex_commands s = Cancel tid # cs"
    and "ex_step\<^sup>*\<^sup>* (handle_command (Cancel tid) (s\<lparr>ex_commands := cs\<rparr>)) t"
  shows "\<not> running t tid"
  using stopped_steps [OF assms(4) handle_cancel_stops [OF ex_reachable_inv [OF assms(1)] assms(2,3)]]
  by (simp add: stopped_def)

theorem cancelled_task_never_runs_witness:
  "\<exists>s. ex_run executor_new [Submitting ''a'', Submitting ''b'', Commanding, Commanding, Cancelling 1] = Some s \<and>
     ex_commands s = [Cancel 1] \<and> running s 1 \<and>
     \<not> running (handle_command (Cancel 1) (s\<lparr>ex_commands := []\<rparr>)) 1"
proof -
  obtain s where s: "ex_run executor_new
      [Submitting ''a'', Submitting ''b'', Commanding, Commanding, Cancelling 1] = Some s"
    and c: "ex_commands s = [Cancel 1]" and op: "ex_open s" and r: "running s 1"
    by (simp add: ex_eval)
  from cancelled_task_never_runs
    [OF ex_run_reachable [OF s ex_reachable.start] op c rtranclp.rtrancl_refl] s c r
  show ?thesis by blast
qed

text \<open>C24. The map of join handles is exact: with nothing waiting on the completion channel it holds
  precisely the tasks that run and have not been aborted, so it neither leaks nor forgets one.\<close>

theorem handles_are_running_tasks:
  assumes "ex_reachable s" and "ex_completions s = []"
  shows "ex_handles s = {tid. running s tid}"
  using ex_reachable_inv [OF assms(1)] assms(2) by (auto simp: ex_inv_def)

theorem handles_are_running_tasks_witness:
  "\<exists>s. ex_run executor_new [Submitting ''a'', Submitting ''b'', Commanding, Commanding, Going 1, Completing] = Some s \<and>
     ex_handles s = {tid. running s tid} \<and> 2 \<in> ex_handles s \<and> 1 \<notin> ex_handles s"
proof -
  obtain s where s: "ex_run executor_new
      [Submitting ''a'', Submitting ''b'', Commanding, Commanding, Going 1, Completing] = Some s"
    and "ex_completions s = []" "running s 2" "\<not> running s 1"
    by (simp add: ex_eval)
  with handles_are_running_tasks [OF ex_run_reachable [OF s ex_reachable.start]] s show ?thesis by blast
qed

text \<open>C25. After shutdown no submitted task runs any more, and every later submission is refused with a broken
  pipe. When the runtime has been dropped nothing is left of the tasks, the handlers that were
  started locally included, and nothing comes back.\<close>

theorem shutdown_is_final:
  assumes "ex_reachable s" and "ex_step\<^sup>*\<^sup>* (park_break s) t" and "ex_step\<^sup>*\<^sup>* (park_return (park_break s)) u"
  shows "(\<forall>tid. \<not> running t tid) \<and>
         fst (spawn_task task t) = Inl \<lparr>error_kind = KindBrokenPipe, error_text = ''worker runtime stopped''\<rparr> \<and>
         ex_tasks u = Map.empty \<and> ex_locals u = Map.empty"
proof -
  have "ex_inv s" by (rule ex_reachable_inv [OF assms(1)])
  then have "closed t"
    using closed_steps [OF assms(2)] park_break_closes park_inv(1) by blast
  with emptied_steps [OF assms(3) park_empties] show ?thesis
    by (simp add: closed_def emptied_def spawn_task_def Let_def)
qed

theorem shutdown_is_final_witness:
  "\<exists>s. ex_run executor_new [Submitting ''a'', Commanding, Starting ''handler''] = Some s \<and> running s 1 \<and>
     ex_locals s 0 = Some (''handler'', False) \<and>
     \<not> running (park_break s) 1 \<and> ex_locals (park_return (park_break s)) = Map.empty"
proof -
  obtain s where s: "ex_run executor_new [Submitting ''a'', Commanding, Starting ''handler''] = Some s"
    and "running s 1" "ex_locals s 0 = Some (''handler'', False)"
    by (simp add: ex_eval)
  with shutdown_is_final [OF ex_run_reachable [OF s ex_reachable.start] rtranclp.rtrancl_refl rtranclp.rtrancl_refl] s
  show ?thesis by blast
qed

end
