(* ===== verification/Executor_Spec.thy ===== *)
theory Executor_Spec
  imports Tokio_Executor "HOL-Library.Multiset"
begin

text \<open>
  The executor interface the server runtime is written against (\<open>runtime::ExecutorHandle\<close>,
  selected by a cargo feature) and its two implementations: tokio, and async-std
  (\<open>src/runtime/async_std.rs\<close>), which is modelled here.
\<close>

section \<open>Contract\<close>

text \<open>
  \<open>spawn owner t s\<close> submits the task \<open>t\<close>; \<open>owner\<close> tells whether the caller is on the executor's
  own thread. \<open>accepted\<close> is the bag of tasks that were accepted and have not been started or
  dropped by the scheduler yet.
\<close>

locale task_spawner =
  fixes spawn :: "bool \<Rightarrow> 't \<Rightarrow> 's \<Rightarrow> 'h io_result \<times> 's"
    and accepts :: "'s \<Rightarrow> bool" and accepted :: "'s \<Rightarrow> 't multiset"
  assumes spawn_ok: "accepts s \<Longrightarrow>
      \<exists>h s'. spawn owner t s = (Inr h, s') \<and> accepted s' = add_mset t (accepted s) \<and> accepts s'"
    and spawn_err: "\<not> accepts s \<Longrightarrow>
      \<exists>e s'. spawn owner t s = (Inl e, s') \<and> accepted s' = accepted s \<and> \<not> accepts s'"
begin

lemma spawn_ok_iff: "(\<exists>h s'. spawn owner t s = (Inr h, s')) \<longleftrightarrow> accepts s"
  using spawn_ok [of s owner t] spawn_err [of s owner t] by (cases "accepts s") auto

lemma spawn_keeps_accepts: "accepts (snd (spawn owner t s)) = accepts s"
  using spawn_ok [of s owner t] spawn_err [of s owner t] by (cases "accepts s") auto

lemma spawn_accepted:
  "accepted (snd (spawn owner t s)) = (if accepts s then add_mset t (accepted s) else accepted s)"
  using spawn_ok [of s owner t] spawn_err [of s owner t] by (cases "accepts s") auto

end

section \<open>tokio\<close>

fun queued :: "'t TaskCommand list \<Rightarrow> 't multiset" where
  "queued [] = {#}"
| "queued (Spawn tid t # cs) = add_mset t (queued cs)"
| "queued (Cancel tid # cs) = queued cs"

lemma queued_append [simp]: "queued (xs @ ys) = queued xs + queued ys"
  by (induction xs rule: queued.induct) auto

definition tokio_spawn :: "bool \<Rightarrow> 't \<Rightarrow> 't executor \<Rightarrow> nat io_result \<times> 't executor" where
  "tokio_spawn owner t s = spawn_task t s"

interpretation tokio_spawner: task_spawner tokio_spawn ex_open "\<lambda>s. queued (ex_commands s)"
  by unfold_locales (auto simp: tokio_spawn_def spawn_task_def Let_def)

section \<open>async-std\<close>

text \<open>
  Tasks submitted from another thread are wrapped: the wrapper runs on the shared executor and,
  once there, starts the task as a local one and lets go of its handle. \<open>as_outer\<close> are the
  wrappers that have not run, \<open>as_local\<close> the local tasks, each with the key of its handle.
\<close>

record 't async_executor =
  as_outer :: "(nat \<times> 't) list"
  as_local :: "(nat \<times> 't) list"
  as_next :: nat

datatype async_handle = Executor nat | Local nat

definition async_executor_new :: "'t async_executor" where
  "async_executor_new = \<lparr>as_outer = [], as_local = [], as_next = 0\<rparr>"

definition async_spawn :: "'t \<Rightarrow> 't async_executor \<Rightarrow> async_handle io_result \<times> 't async_executor" where
  "async_spawn future s =
     (let k = as_next s
      in (Inr (Executor k), s\<lparr>as_outer := as_outer s @ [(k, future)], as_next := k + 1\<rparr>))"

definition local_spawn_task ::
    "bool \<Rightarrow> 't \<Rightarrow> 't async_executor \<Rightarrow> async_handle io_result \<times> 't async_executor" where
  "local_spawn_task owner future s =
     (if \<not> owner
      then (Inl \<lparr>error_kind = KindInvalidInput,
                 error_text = ''local task must be spawned on the executor owner thread''\<rparr>, s)
      else
        let k = as_next s
        in (Inr (Local k), s\<lparr>as_local := as_local s @ [(k, future)], as_next := k + 1\<rparr>))"

definition async_spawn_task ::
    "bool \<Rightarrow> 't \<Rightarrow> 't async_executor \<Rightarrow> async_handle io_result \<times> 't async_executor" where
  "async_spawn_task owner task s =
     (if owner then local_spawn_task owner task s else async_spawn task s)"

text \<open>The free function \<open>spawn_local\<close> looks the executor up in a thread-local variable.\<close>

definition async_spawn_local ::
    "(bool \<times> 't async_executor) option \<Rightarrow> 't \<Rightarrow> async_handle io_result \<times> (bool \<times> 't async_executor) option" where
  "async_spawn_local current future =
     (case current of
        Some (owner, executor) \<Rightarrow>
          (case local_spawn_task owner future executor of (r, executor') \<Rightarrow> (r, Some (owner, executor')))
      | None \<Rightarrow>
          (Inl \<lparr>error_kind = KindNotConnected,
                error_text = ''no current sfo-reuseport async-std executor on this thread''\<rparr>, None))"

text \<open>
  \<open>block_on\<close> makes the executor the current one of its thread while the future runs and puts back
  what was there before, so calls may be nested. A future acts on the thread's variable.
\<close>

definition async_block_on :: "'e \<Rightarrow> ('e option \<Rightarrow> 'a \<times> 'e option) \<Rightarrow> 'e option \<Rightarrow> 'a \<times> 'e option" where
  "async_block_on self future current =
     (let previous = current;
          (output, current) = future (Some self)
      in (output, previous))"

lemma async_block_on_restores: "snd (async_block_on self future current) = current"
  by (simp add: async_block_on_def split: prod.split)

lemma async_spawn_local_in_block_on:
  "fst (async_block_on (owner, s) (\<lambda>c. async_spawn_local c t) current) = fst (local_spawn_task owner t s)"
  "fst (async_block_on outer (\<lambda>c. async_spawn_local (snd (async_block_on inner future c)) t) current) =
     fst (async_spawn_local (Some outer) t)"
  by (simp_all add: async_block_on_def async_spawn_local_def Let_def split: prod.split)

fun async_cancel :: "async_handle \<Rightarrow> 't async_executor \<Rightarrow> 't async_executor" where
  "async_cancel (Executor k) s = s\<lparr>as_outer := filter (\<lambda>(j, _). j \<noteq> k) (as_outer s)\<rparr>"
| "async_cancel (Local k) s = s\<lparr>as_local := filter (\<lambda>(j, _). j \<noteq> k) (as_local s)\<rparr>"

text \<open>
  The executor runs on its owner thread only, so the wrapper's call of \<open>local_spawn_task\<close>
  succeeds; the handle it returns is dropped, which detaches the task.
\<close>

definition run_wrapper :: "nat \<Rightarrow> 't async_executor \<Rightarrow> 't async_executor" where
  "run_wrapper k s =
     (case map_of (as_outer s) k of
        None \<Rightarrow> s
      | Some task \<Rightarrow>
          snd (local_spawn_task True task (s\<lparr>as_outer := filter (\<lambda>(j, _). j \<noteq> k) (as_outer s)\<rparr>)))"

definition async_accepted :: "'t async_executor \<Rightarrow> 't multiset" where
  "async_accepted s = mset (map snd (as_outer s)) + mset (map snd (as_local s))"

lemmas async_defs = async_spawn_task_def local_spawn_task_def async_spawn_def Let_def

interpretation async_spawner: task_spawner async_spawn_task "\<lambda>_. True" async_accepted
  by unfold_locales (auto simp: async_defs async_accepted_def)

text \<open>Keys are fresh.\<close>

definition async_inv :: "'t async_executor \<Rightarrow> bool" where
  "async_inv s \<longleftrightarrow>
     distinct (map fst (as_outer s) @ map fst (as_local s)) \<and>
     (\<forall>k \<in> set (map fst (as_outer s) @ map fst (as_local s)). k < as_next s)"

lemma async_executor_new_inv: "async_inv async_executor_new"
  by (simp add: async_inv_def async_executor_new_def)

lemma map_fst_filter: "map fst (filter (\<lambda>(j, _). P j) xs) = filter P (map fst xs)"
  by (induction xs) auto

lemma async_spawn_task_inv: "async_inv s \<Longrightarrow> async_inv (snd (async_spawn_task owner t s))"
  by (auto simp: async_inv_def async_defs intro: less_SucI)

lemma async_cancel_inv: "async_inv s \<Longrightarrow> async_inv (async_cancel h s)"
  by (cases h) (auto simp: async_inv_def map_fst_filter)

lemma run_wrapper_inv: "async_inv s \<Longrightarrow> async_inv (run_wrapper k s)"
  by (auto simp: async_inv_def run_wrapper_def local_spawn_task_def Let_def map_fst_filter
      intro: less_SucI split: option.split)

section \<open>Properties\<close>



end
