(* ===== verification/Net_Addr.thy ===== *)
theory Net_Addr
  imports Reuseport_Prelude
begin

text \<open>
  The part of \<open>std::net\<close> the crate uses: IPv4 and IPv6 addresses as 32- and 128-bit
  words whose octets are their big-endian bytes, and socket addresses. An IPv6 socket
  address also carries a flow label and a scope id, which \<open>SocketAddr::new\<close> sets to 0.
\<close>

section \<open>Big-endian bytes\<close>

definition be_byte :: "nat \<Rightarrow> 'a::len word \<Rightarrow> u8" where
  "be_byte i w = ucast (drop_bit (8 * i) w)"

definition to_be_bytes :: "nat \<Rightarrow> 'a::len word \<Rightarrow> u8 list" where
  "to_be_bytes n w = map (\<lambda>i. be_byte i w) (rev [0..<n])"

lemma length_to_be_bytes [simp]: "length (to_be_bytes n w) = n"
  by (simp add: to_be_bytes_def)

lemma bit_be_byte: "bit (be_byte i w) k \<longleftrightarrow> k < 8 \<and> bit w (8 * i + k)"
  by (auto simp: be_byte_def bit_simps)

lemma to_be_bytes_eq_iff:
  "to_be_bytes n v = to_be_bytes n w \<longleftrightarrow> (\<forall>i<n. be_byte i v = be_byte i w)"
  by (auto simp: to_be_bytes_def)

text \<open>The bytes determine the word once there are enough of them.\<close>

lemma to_be_bytes_inject:
  fixes v w :: "'a::len word"
  assumes len: "LENGTH('a) \<le> 8 * n" and eq: "to_be_bytes n v = to_be_bytes n w"
  shows "v = w"
proof (rule bit_word_eqI)
  fix m assume m: "m < LENGTH('a)"
  have b: "be_byte (m div 8) v = be_byte (m div 8) w"
    using eq m len by (auto simp: to_be_bytes_eq_iff)
  have "bit v m = bit (be_byte (m div 8) v) (m mod 8)"
    by (simp add: bit_be_byte)
  also have "\<dots> = bit (be_byte (m div 8) w) (m mod 8)"
    by (simp add: b)
  also have "\<dots> = bit w m"
    by (simp add: bit_be_byte)
  finally show "bit v m = bit w m" .
qed

section \<open>Addresses\<close>

type_synonym Ipv4Addr = "32 word"
type_synonym Ipv6Addr = "128 word"

datatype IpAddr = V4 Ipv4Addr | V6 Ipv6Addr

datatype SocketAddr =
    SocketAddrV4 Ipv4Addr u16
  | SocketAddrV6 Ipv6Addr u16 u32 u32

definition ipv4 :: "u8 \<Rightarrow> u8 \<Rightarrow> u8 \<Rightarrow> u8 \<Rightarrow> Ipv4Addr" where
  "ipv4 a b c d = push_bit 24 (ucast a) OR push_bit 16 (ucast b) OR push_bit 8 (ucast c) OR ucast d"

definition octets4 :: "Ipv4Addr \<Rightarrow> u8 list" where
  "octets4 ip = to_be_bytes 4 ip"

definition octets6 :: "Ipv6Addr \<Rightarrow> u8 list" where
  "octets6 ip = to_be_bytes 16 ip"

definition LOCALHOST4 :: Ipv4Addr where
  "LOCALHOST4 = ipv4 127 0 0 1"

definition LOCALHOST6 :: Ipv6Addr where
  "LOCALHOST6 = 1"

fun ip :: "SocketAddr \<Rightarrow> IpAddr" where
  "ip (SocketAddrV4 a _) = V4 a"
| "ip (SocketAddrV6 a _ _ _) = V6 a"

fun port :: "SocketAddr \<Rightarrow> u16" where
  "port (SocketAddrV4 _ p) = p"
| "port (SocketAddrV6 _ p _ _) = p"

fun SocketAddr_new :: "IpAddr \<Rightarrow> u16 \<Rightarrow> SocketAddr" where
  "SocketAddr_new (V4 a) p = SocketAddrV4 a p"
| "SocketAddr_new (V6 a) p = SocketAddrV6 a p 0 0"

fun is_unspecified :: "IpAddr \<Rightarrow> bool" where
  "is_unspecified (V4 a) \<longleftrightarrow> a = 0"
| "is_unspecified (V6 a) \<longleftrightarrow> a = 0"

fun is_ipv4 :: "SocketAddr \<Rightarrow> bool" where
  "is_ipv4 (SocketAddrV4 _ _) \<longleftrightarrow> True"
| "is_ipv4 (SocketAddrV6 _ _ _ _) \<longleftrightarrow> False"

definition is_ipv6 :: "SocketAddr \<Rightarrow> bool" where
  "is_ipv6 a \<longleftrightarrow> \<not> is_ipv4 a"

lemma octets4_inject: "octets4 a = octets4 b \<longleftrightarrow> a = b"
  by (auto simp: octets4_def dest: to_be_bytes_inject [rotated])

lemma octets6_inject: "octets6 a = octets6 b \<longleftrightarrow> a = b"
  by (auto simp: octets6_def dest: to_be_bytes_inject [rotated])

lemma port_bytes_inject: "to_be_bytes 2 (p :: u16) = to_be_bytes 2 q \<longleftrightarrow> p = q"
  by (auto dest: to_be_bytes_inject [rotated])

lemma length_octets [simp]: "length (octets4 a) = 4" "length (octets6 b) = 16"
  by (simp_all add: octets4_def octets6_def)

lemma ip_port_SocketAddr_new [simp]:
  "ip (SocketAddr_new a p) = a" "port (SocketAddr_new a p) = p"
  by (cases a; simp)+

end
