(* ===== verification/Config.thy ===== *)
theory Config
  imports Net_Addr Errors
begin

text \<open>
  Service and runtime configuration (\<open>src/core/config.rs\<close>): the option structs, their
  builder methods, and the validation every \<open>serve\<close> and \<open>start\<close> call performs first.
  A socket initialisation callback is user code; the model refers to it by a number.
\<close>

section \<open>Socket options\<close>

type_synonym callback = nat

datatype TransparentMode = Disabled | Required | BestEffort

record SocketOptions =
  reuse_address :: bool
  ipv4_transparent :: TransparentMode
  ipv6_transparent :: TransparentMode

definition SocketOptions_default :: SocketOptions where
  "SocketOptions_default =
     \<lparr>reuse_address = True, ipv4_transparent = Disabled, ipv6_transparent = Disabled\<rparr>"

definition DEFAULT_ROUTED_PACKET_CHANNEL_CAPACITY :: usize where
  "DEFAULT_ROUTED_PACKET_CHANNEL_CAPACITY = 4096"

section \<open>TcpServiceConfig\<close>

record TcpServiceConfig =
  tcp_bind_addr :: SocketAddr
  tcp_socket_options :: SocketOptions
  tcp_socket_init_callback :: "callback option"
  tcp_max_concurrency :: "usize option"

definition tcp_config_new :: "SocketAddr \<Rightarrow> TcpServiceConfig" where
  "tcp_config_new bind_addr =
     \<lparr>tcp_bind_addr = bind_addr, tcp_socket_options = SocketOptions_default,
      tcp_socket_init_callback = None, tcp_max_concurrency = None\<rparr>"

definition tcp_with_socket_options :: "TcpServiceConfig \<Rightarrow> SocketOptions \<Rightarrow> TcpServiceConfig" where
  "tcp_with_socket_options self options = self\<lparr>tcp_socket_options := options\<rparr>"

definition tcp_with_socket_init_callback :: "TcpServiceConfig \<Rightarrow> callback \<Rightarrow> TcpServiceConfig" where
  "tcp_with_socket_init_callback self cb = self\<lparr>tcp_socket_init_callback := Some cb\<rparr>"

definition tcp_without_socket_init_callback :: "TcpServiceConfig \<Rightarrow> TcpServiceConfig" where
  "tcp_without_socket_init_callback self = self\<lparr>tcp_socket_init_callback := None\<rparr>"

definition tcp_with_max_concurrency :: "TcpServiceConfig \<Rightarrow> usize \<Rightarrow> TcpServiceConfig" where
  "tcp_with_max_concurrency self n = self\<lparr>tcp_max_concurrency := Some n\<rparr>"

definition tcp_validate :: "TcpServiceConfig \<Rightarrow> unit result" where
  "tcp_validate self = Inr ()"

section \<open>UdpServiceConfig\<close>

record UdpServiceConfig =
  udp_bind_addr :: SocketAddr
  udp_socket_options :: SocketOptions
  udp_socket_init_callback :: "callback option"
  udp_max_concurrency :: "usize option"
  udp_channel_capacity :: usize

definition udp_config_new :: "SocketAddr \<Rightarrow> UdpServiceConfig" where
  "udp_config_new bind_addr =
     \<lparr>udp_bind_addr = bind_addr, udp_socket_options = SocketOptions_default,
      udp_socket_init_callback = None, udp_max_concurrency = None,
      udp_channel_capacity = DEFAULT_ROUTED_PACKET_CHANNEL_CAPACITY\<rparr>"

definition udp_with_socket_options :: "UdpServiceConfig \<Rightarrow> SocketOptions \<Rightarrow> UdpServiceConfig" where
  "udp_with_socket_options self options = self\<lparr>udp_socket_options := options\<rparr>"

definition udp_with_socket_init_callback :: "UdpServiceConfig \<Rightarrow> callback \<Rightarrow> UdpServiceConfig" where
  "udp_with_socket_init_callback self cb = self\<lparr>udp_socket_init_callback := Some cb\<rparr>"

definition udp_without_socket_init_callback :: "UdpServiceConfig \<Rightarrow> UdpServiceConfig" where
  "udp_without_socket_init_callback self = self\<lparr>udp_socket_init_callback := None\<rparr>"

definition udp_with_max_concurrency :: "UdpServiceConfig \<Rightarrow> usize \<Rightarrow> UdpServiceConfig" where
  "udp_with_max_concurrency self n = self\<lparr>udp_max_concurrency := Some n\<rparr>"

definition udp_with_channel_capacity :: "UdpServiceConfig \<Rightarrow> usize \<Rightarrow> UdpServiceConfig" where
  "udp_with_channel_capacity self capacity = self\<lparr>udp_channel_capacity := capacity\<rparr>"

definition udp_validate_channel_capacity :: "UdpServiceConfig \<Rightarrow> unit result" where
  "udp_validate_channel_capacity self =
     (if udp_channel_capacity self = 0
      then Inl (InvalidConfig ''routed packet channel capacity must be greater than zero'')
      else Inr ())"

definition udp_validate :: "UdpServiceConfig \<Rightarrow> unit result" where
  "udp_validate self = udp_validate_channel_capacity self"

section \<open>The SocketConfig trait\<close>

text \<open>The trait is a dictionary of accessors; each service configuration has its own.\<close>

record 'c SocketConfig =
  bind_addr :: "'c \<Rightarrow> SocketAddr"
  socket_options :: "'c \<Rightarrow> SocketOptions"
  socket_init_callback :: "'c \<Rightarrow> callback option"

definition tcp_socket_config :: "TcpServiceConfig SocketConfig" where
  "tcp_socket_config =
     \<lparr>bind_addr = tcp_bind_addr, socket_options = tcp_socket_options,
      socket_init_callback = tcp_socket_init_callback\<rparr>"

definition udp_socket_config :: "UdpServiceConfig SocketConfig" where
  "udp_socket_config =
     \<lparr>bind_addr = udp_bind_addr, socket_options = udp_socket_options,
      socket_init_callback = udp_socket_init_callback\<rparr>"

section \<open>ServerRuntimeConfig\<close>

datatype WorkerCount = DefaultWorkers | Fixed usize

record ServerRuntimeConfig =
  config_workers :: WorkerCount

definition runtime_config_new :: ServerRuntimeConfig where
  "runtime_config_new = \<lparr>config_workers = DefaultWorkers\<rparr>"

definition with_workers :: "ServerRuntimeConfig \<Rightarrow> usize \<Rightarrow> ServerRuntimeConfig" where
  "with_workers self n = self\<lparr>config_workers := Fixed n\<rparr>"

definition runtime_config_validate :: "ServerRuntimeConfig \<Rightarrow> unit result" where
  "runtime_config_validate self =
     (if config_workers self = Fixed 0
      then Inl (InvalidConfig ''worker count must be greater than zero'')
      else Inr ())"

lemmas [config_simps] =
  SocketOptions_default_def DEFAULT_ROUTED_PACKET_CHANNEL_CAPACITY_def
  tcp_config_new_def tcp_with_socket_options_def tcp_with_socket_init_callback_def
  tcp_without_socket_init_callback_def tcp_with_max_concurrency_def tcp_validate_def
  udp_config_new_def udp_with_socket_options_def udp_with_socket_init_callback_def
  udp_without_socket_init_callback_def udp_with_max_concurrency_def
  udp_with_channel_capacity_def udp_validate_def udp_validate_channel_capacity_def
  tcp_socket_config_def udp_socket_config_def
  runtime_config_new_def with_workers_def runtime_config_validate_def

section \<open>The builder contract\<close>

text \<open>
  What the platform layer relies on: it reads a configuration only through the
  \<open>SocketConfig\<close> dictionary, and each builder method sets one of the observed values and
  keeps the others. Both configurations satisfy it.
\<close>

locale service_config =
  fixes sc :: "'c SocketConfig"
    and new :: "SocketAddr \<Rightarrow> 'c"
    and with_options :: "'c \<Rightarrow> SocketOptions \<Rightarrow> 'c"
    and with_callback :: "'c \<Rightarrow> callback \<Rightarrow> 'c"
    and without_callback :: "'c \<Rightarrow> 'c"
    and with_max :: "'c \<Rightarrow> usize \<Rightarrow> 'c"
    and max_concurrency :: "'c \<Rightarrow> usize option"
  assumes new_view:
      "bind_addr sc (new a) = a"
      "socket_options sc (new a) = SocketOptions_default"
      "socket_init_callback sc (new a) = None"
      "max_concurrency (new a) = None"
    and with_options_view:
      "bind_addr sc (with_options c opts) = bind_addr sc c"
      "socket_options sc (with_options c opts) = opts"
      "socket_init_callback sc (with_options c opts) = socket_init_callback sc c"
      "max_concurrency (with_options c opts) = max_concurrency c"
    and with_callback_view:
      "bind_addr sc (with_callback c cb) = bind_addr sc c"
      "socket_options sc (with_callback c cb) = socket_options sc c"
      "socket_init_callback sc (with_callback c cb) = Some cb"
      "max_concurrency (with_callback c cb) = max_concurrency c"
    and without_callback_view:
      "bind_addr sc (without_callback c) = bind_addr sc c"
      "socket_options sc (without_callback c) = socket_options sc c"
      "socket_init_callback sc (without_callback c) = None"
      "max_concurrency (without_callback c) = max_concurrency c"
    and with_max_view:
      "bind_addr sc (with_max c n) = bind_addr sc c"
      "socket_options sc (with_max c n) = socket_options sc c"
      "socket_init_callback sc (with_max c n) = socket_init_callback sc c"
      "max_concurrency (with_max c n) = Some n"
begin

lemmas views = new_view with_options_view with_callback_view without_callback_view with_max_view

lemma configured:
  "bind_addr sc (with_max (with_callback (with_options (new a) opts) cb) n) = a \<and>
   socket_options sc (with_max (with_callback (with_options (new a) opts) cb) n) = opts \<and>
   socket_init_callback sc (with_max (with_callback (with_options (new a) opts) cb) n) = Some cb \<and>
   max_concurrency (with_max (with_callback (with_options (new a) opts) cb) n) = Some n"
  by (simp add: views)

lemma callback_removed:
  "socket_init_callback sc (without_callback (with_callback c cb)) = None"
  by (simp add: views)

end

interpretation tcp_cfg: service_config tcp_socket_config tcp_config_new tcp_with_socket_options
    tcp_with_socket_init_callback tcp_without_socket_init_callback tcp_with_max_concurrency
    tcp_max_concurrency
  by unfold_locales (simp_all add: config_simps)

interpretation udp_cfg: service_config udp_socket_config udp_config_new udp_with_socket_options
    udp_with_socket_init_callback udp_without_socket_init_callback udp_with_max_concurrency
    udp_max_concurrency
  by unfold_locales (simp_all add: config_simps)

lemma udp_validate_iff: "udp_validate c = Inr () \<longleftrightarrow> 0 < udp_channel_capacity c"
  by (simp add: config_simps)

lemma udp_validate_new: "udp_validate (udp_config_new a) = Inr ()"
  by (simp add: config_simps)

lemma runtime_config_validate_iff:
  "runtime_config_validate c = Inr () \<longleftrightarrow> config_workers c \<noteq> Fixed 0"
  by (simp add: config_simps)

end
