(* ===== verification/Server_Runtime.thy ===== *)
theory Server_Runtime
  imports Executor_Spec Config
begin

text \<open>
  The server runtime (\<open>src/core/server_runtime.rs\<close>): a fixed set of worker threads, each with
  its own executor, and the choice of the worker a task goes to. The executor is a parameter,
  as it is a type the cargo features choose: \<open>spawn\<close> is its \<open>spawn_task\<close>. What the operating
  system does when a thread is created is the argument \<open>spawn_thread\<close>.
\<close>

section \<open>State\<close>

record 'ex WorkerHandle =
  wh_executor :: 'ex
  wh_owner :: nat
  wh_shutdown :: bool
  wh_join :: bool

record 'ex ServerRuntime =
  rt_workers :: "'ex WorkerHandle list"
  rt_active :: bool
  rt_next_worker :: usize

section \<open>Starting and stopping\<close>

text \<open>
  Creating a thread fails, or the thread sends back the handle of its executor and its own
  identity, or it ends without doing so.
\<close>

type_synonym 'ex thread_result = "('ex \<times> nat) option io_result"

definition start_worker :: "(string \<Rightarrow> 'ex thread_result) \<Rightarrow> string \<Rightarrow> 'ex WorkerHandle io_result" where
  "start_worker spawn_thread name =
     and_then (spawn_thread name) (\<lambda>sent.
     and_then (ok_or \<lparr>error_kind = KindBrokenPipe, error_text = ''worker runtime stopped''\<rparr> sent)
       (\<lambda>(executor, owner). Inr \<lparr>wh_executor = executor, wh_owner = owner, wh_shutdown = True, wh_join = True\<rparr>))"

definition worker_name :: "nat \<Rightarrow> string" where
  "worker_name worker_id = ''sfo-reuseport-worker-'' @ show_nat worker_id"

text \<open>The loop of \<open>start\<close>; on an error it also yields the workers started before, which are dropped.\<close>

fun start_workers ::
    "(string \<Rightarrow> 'ex thread_result) \<Rightarrow> 'ex WorkerHandle list \<Rightarrow> nat list \<Rightarrow>
     (Error \<times> 'ex WorkerHandle list) + 'ex WorkerHandle list" where
  "start_workers spawn_thread workers [] = Inr workers"
| "start_workers spawn_thread workers (worker_id # ids) =
     (case map_err error_from (start_worker spawn_thread (worker_name worker_id)) of
        Inl e \<Rightarrow> Inl (e, workers)
      | Inr w \<Rightarrow> start_workers spawn_thread (workers @ [w]) ids)"

definition start ::
    "nat \<Rightarrow> (string \<Rightarrow> 'ex thread_result) \<Rightarrow> ServerRuntimeConfig \<Rightarrow>
     (Error \<times> 'ex WorkerHandle list) + 'ex ServerRuntime" where
  "start num_cpus spawn_thread config =
     (case runtime_config_validate config of
        Inl e \<Rightarrow> Inl (e, [])
      | Inr _ \<Rightarrow>
          let count = (case config_workers config of
                         DefaultWorkers \<Rightarrow> max num_cpus 1
                       | Fixed workers \<Rightarrow> workers)
          in map_ok (\<lambda>workers. \<lparr>rt_workers = workers, rt_active = True, rt_next_worker = 0\<rparr>)
               (start_workers spawn_thread [] [0..<count]))"

text \<open>\<open>Drop\<close> for a worker: it signals the executor, then waits for the thread.\<close>

datatype drop_event = SendShutdown nat | Join nat

definition drop_worker :: "'ex WorkerHandle \<Rightarrow> drop_event list \<times> 'ex WorkerHandle" where
  "drop_worker w =
     ((if wh_shutdown w then [SendShutdown (wh_owner w)] else []) @
      (if wh_join w then [Join (wh_owner w)] else []),
      w\<lparr>wh_shutdown := False, wh_join := False\<rparr>)"

definition drop_inner :: "'ex ServerRuntime \<Rightarrow> drop_event list \<times> 'ex ServerRuntime" where
  "drop_inner rt =
     (concat (map (fst \<circ> drop_worker) (rt_workers rt)),
      rt\<lparr>rt_active := False, rt_workers := map (snd \<circ> drop_worker) (rt_workers rt)\<rparr>)"

section \<open>Choosing a worker\<close>

definition ensure_running :: "'ex ServerRuntime \<Rightarrow> unit result" where
  "ensure_running rt =
     (if rt_active rt then Inr () else Inl (Runtime ''server runtime is stopped''))"

definition worker_count :: "'ex ServerRuntime \<Rightarrow> usize" where
  "worker_count rt = length (rt_workers rt)"

definition worker :: "'ex ServerRuntime \<Rightarrow> usize \<Rightarrow> 'ex WorkerHandle result" where
  "worker rt worker_id =
     ok_or (InvalidConfig ''worker index is out of range'') (slice_get (rt_workers rt) worker_id)"

definition random_worker_id :: "'ex ServerRuntime \<Rightarrow> usize result \<times> 'ex ServerRuntime" where
  "random_worker_id rt =
     (case ensure_running rt of
        Inl e \<Rightarrow> (Inl e, rt)
      | Inr _ \<Rightarrow>
          if worker_count rt = 0
          then (Inl (Runtime ''server runtime has no worker threads''), rt)
          else (Inr (rt_next_worker rt mod worker_count rt),
                rt\<lparr>rt_next_worker := (rt_next_worker rt + 1) mod 2 ^ 64\<rparr>))"

text \<open>\<open>iter().position\<close>: the first worker whose thread is the current one.\<close>

fun position :: "('a \<Rightarrow> bool) \<Rightarrow> 'a list \<Rightarrow> nat option" where
  "position P [] = None"
| "position P (x # xs) = (if P x then Some 0 else map_option Suc (position P xs))"

definition current_worker_id :: "nat \<Rightarrow> 'ex ServerRuntime \<Rightarrow> usize option" where
  "current_worker_id current rt = position (\<lambda>w. wh_owner w = current) (rt_workers rt)"

definition submit_to_worker ::
    "(bool \<Rightarrow> 't \<Rightarrow> 'ex \<Rightarrow> 'h io_result \<times> 'ex) \<Rightarrow> nat \<Rightarrow> usize \<Rightarrow> 't \<Rightarrow> 'ex ServerRuntime \<Rightarrow>
     'h result \<times> 'ex ServerRuntime" where
  "submit_to_worker spawn current worker_id task rt =
     (case worker rt worker_id of
        Inl e \<Rightarrow> (Inl e, rt)
      | Inr w \<Rightarrow>
          (case spawn (wh_owner w = current) task (wh_executor w) of
             (r, executor) \<Rightarrow>
               (map_err error_from r,
                rt\<lparr>rt_workers := (rt_workers rt)[worker_id := w\<lparr>wh_executor := executor\<rparr>]\<rparr>)))"

text \<open>
  \<open>worker_executors\<close> clones the handles of the executors; a clone refers to the executor of its
  worker, so a submission through the clone at an index updates that worker's executor.
\<close>

definition worker_executors :: "'ex ServerRuntime \<Rightarrow> 'ex list" where
  "worker_executors rt = map wh_executor (rt_workers rt)"

definition submit_to_executor ::
    "(bool \<Rightarrow> 't \<Rightarrow> 'ex \<Rightarrow> 'h io_result \<times> 'ex) \<Rightarrow> nat \<Rightarrow> usize \<Rightarrow> 't \<Rightarrow> 'ex ServerRuntime \<Rightarrow>
     'h result \<times> 'ex ServerRuntime" where
  "submit_to_executor spawn current worker_id task rt =
     (case slice_get (worker_executors rt) worker_id of
        None \<Rightarrow> (Inl (InvalidConfig ''worker index is out of range''), rt)
      | Some executor \<Rightarrow>
          (case spawn (wh_owner (rt_workers rt ! worker_id) = current) task executor of
             (r, executor') \<Rightarrow>
               (map_err error_from r,
                rt\<lparr>rt_workers := (rt_workers rt)
                     [worker_id := (rt_workers rt ! worker_id)\<lparr>wh_executor := executor'\<rparr>]\<rparr>)))"

definition runtime_spawn_task ::
    "(bool \<Rightarrow> 't \<Rightarrow> 'ex \<Rightarrow> 'h io_result \<times> 'ex) \<Rightarrow> nat \<Rightarrow> 't \<Rightarrow> 'ex ServerRuntime \<Rightarrow>
     'h result \<times> 'ex ServerRuntime" where
  "runtime_spawn_task spawn current task rt =
     (case ensure_running rt of
        Inl e \<Rightarrow> (Inl e, rt)
      | Inr _ \<Rightarrow>
          (case current_worker_id current rt of
             Some worker_id \<Rightarrow> submit_to_worker spawn current worker_id task rt
           | None \<Rightarrow>
               (case random_worker_id rt of
                  (Inl e, rt) \<Rightarrow> (Inl e, rt)
                | (Inr worker_id, rt) \<Rightarrow> submit_to_worker spawn current worker_id task rt)))"

section \<open>Lemmas\<close>

lemma submit_to_executor_eq [simp]: "submit_to_executor spawn current i t rt = submit_to_worker spawn current i t rt"
  by (auto simp: submit_to_executor_def submit_to_worker_def worker_executors_def worker_def slice_get_def)

lemma position_Some: "position P xs = Some i \<Longrightarrow> i < length xs \<and> P (xs ! i) \<and> (\<forall>j<i. \<not> P (xs ! j))"
proof (induction xs arbitrary: i)
  case (Cons x xs)
  then show ?case by (cases i) (auto simp: nth_Cons' split: if_splits)
qed simp

lemma position_None: "position P xs = None \<longleftrightarrow> (\<forall>x \<in> set xs. \<not> P x)"
  by (induction xs) auto

lemma start_workers_ok:
  "start_workers st ws ids = Inr ws' \<Longrightarrow>
     \<exists>new. ws' = ws @ new \<and> length new = length ids \<and>
       (\<forall>i < length ids. \<exists>ex owner. st (worker_name (ids ! i)) = Inr (Some (ex, owner)) \<and>
          new ! i = \<lparr>wh_executor = ex, wh_owner = owner, wh_shutdown = True, wh_join = True\<rparr>)"
proof (induction ids arbitrary: ws)
  case (Cons i ids)
  from Cons.prems obtain w where w: "start_worker st (worker_name i) = Inr w"
    and rest: "start_workers st (ws @ [w]) ids = Inr ws'"
    by (auto split: sum.splits simp: result_simps)
  from Cons.IH [OF rest] obtain new where new: "ws' = (ws @ [w]) @ new" "length new = length ids"
    "\<forall>i < length ids. \<exists>ex owner. st (worker_name (ids ! i)) = Inr (Some (ex, owner)) \<and>
       new ! i = \<lparr>wh_executor = ex, wh_owner = owner, wh_shutdown = True, wh_join = True\<rparr>" by blast
  from w have "\<exists>ex owner. st (worker_name i) = Inr (Some (ex, owner)) \<and>
       w = \<lparr>wh_executor = ex, wh_owner = owner, wh_shutdown = True, wh_join = True\<rparr>"
    by (auto simp: start_worker_def result_simps)
  with new show ?case by (intro exI [of _ "w # new"]) (auto simp: nth_Cons')
qed simp

lemma start_workers_err:
  "start_workers st ws ids = Inl (e, started) \<Longrightarrow>
     \<exists>io. e = error_from io \<and> length started < length ws + length ids"
proof (induction ids arbitrary: ws)
  case (Cons i ids)
  then show ?case by (fastforce split: sum.splits simp: result_simps)
qed simp

text \<open>Where the next task from outside goes.\<close>

lemma random_worker_id_in_range:
  "random_worker_id rt = (Inr i, rt') \<Longrightarrow> i < worker_count rt \<and> worker_count rt' = worker_count rt"
  by (auto simp: random_worker_id_def worker_count_def split: sum.splits if_splits)

context task_spawner
begin

definition total :: "'s ServerRuntime \<Rightarrow> 't multiset" where
  "total rt = sum_list (map (\<lambda>w. accepted (wh_executor w)) (rt_workers rt))"

lemma sum_list_update_mset:
  "i < length xs \<Longrightarrow> f y = add_mset t (f (xs ! i)) \<Longrightarrow>
     sum_list (map f (xs[i := y])) = add_mset t (sum_list (map f xs))"
proof (induction xs arbitrary: i)
  case (Cons x xs)
  then show ?case by (cases i) auto
qed simp

lemma submit_to_worker_ok:
  assumes "i < length (rt_workers rt)" and "accepts (wh_executor (rt_workers rt ! i))"
  shows "\<exists>h rt'. submit_to_worker spawn current i t rt = (Inr h, rt') \<and>
           accepted (wh_executor (rt_workers rt' ! i)) = add_mset t (accepted (wh_executor (rt_workers rt ! i))) \<and>
           (\<forall>j. j \<noteq> i \<longrightarrow> rt_workers rt' ! j = rt_workers rt ! j) \<and>
           length (rt_workers rt') = length (rt_workers rt) \<and> total rt' = add_mset t (total rt) \<and>
           map wh_owner (rt_workers rt') = map wh_owner (rt_workers rt) \<and>
           rt_active rt' = rt_active rt \<and> rt_next_worker rt' = rt_next_worker rt \<and>
           (\<forall>j < length (rt_workers rt). accepts (wh_executor (rt_workers rt' ! j)) =
              accepts (wh_executor (rt_workers rt ! j)))"
proof -
  let ?w = "rt_workers rt ! i"
  obtain h ex where s: "spawn (wh_owner ?w = current) t (wh_executor ?w) = (Inr h, ex)"
    and acc: "accepted ex = add_mset t (accepted (wh_executor ?w))" and a: "accepts ex"
    using spawn_ok [OF assms(2)] by blast
  let ?rt = "rt\<lparr>rt_workers := (rt_workers rt)[i := ?w\<lparr>wh_executor := ex\<rparr>]\<rparr>"
  have "submit_to_worker spawn current i t rt = (Inr h, ?rt)"
    using assms(1) s by (simp add: submit_to_worker_def worker_def)
  moreover have "total ?rt = add_mset t (total rt)"
    unfolding total_def using assms(1) acc by (simp add: sum_list_update_mset)
  moreover have "map wh_owner (rt_workers ?rt) = map wh_owner (rt_workers rt)"
    using assms(1) by (simp add: map_update list_update_same_conv)
  ultimately show ?thesis
    using assms acc a by (intro exI [of _ h] exI [of _ ?rt]) (simp add: nth_list_update)
qed

end

section \<open>Rotation\<close>

text \<open>The workers chosen by a number of consecutive calls from outside.\<close>

fun rotation :: "nat \<Rightarrow> 'ex ServerRuntime \<Rightarrow> usize list" where
  "rotation 0 rt = []"
| "rotation (Suc k) rt =
     (case random_worker_id rt of
        (Inl e, rt') \<Rightarrow> []
      | (Inr i, rt') \<Rightarrow> i # rotation k rt')"

lemma rotation_eq:
  assumes "rt_active rt" and "0 < worker_count rt" and "rt_next_worker rt + k \<le> 2 ^ 64 - 1"
  shows "rotation k rt = map (\<lambda>i. (rt_next_worker rt + i) mod worker_count rt) [0..<k]"
  using assms
proof (induction k arbitrary: rt)
  case (Suc k)
  let ?rt = "rt\<lparr>rt_next_worker := rt_next_worker rt + 1\<rparr>"
  have "(rt_next_worker rt + 1) mod 2 ^ 64 = rt_next_worker rt + 1"
    using Suc.prems(3) by simp
  then have "random_worker_id rt = (Inr (rt_next_worker rt mod worker_count rt), ?rt)"
    using Suc.prems(1,2) unfolding random_worker_id_def ensure_running_def by simp
  moreover have "rotation k ?rt = map (\<lambda>i. (rt_next_worker rt + 1 + i) mod worker_count rt) [0..<k]"
    using Suc.IH [of ?rt] Suc.prems by (simp add: worker_count_def)
  ultimately show ?case by (simp add: upt_conv_Cons map_Suc_upt [symmetric] comp_def del: upt_Suc)
qed simp

lemma rotation_bij:
  assumes "0 < n"
  shows "bij_betw (\<lambda>i. (a + i) mod n) {..<n} {..<n :: nat}"
proof -
  have "inj_on (\<lambda>i. (a + i) mod n) {..<n}"
  proof (rule inj_onI)
    fix x y assume x: "x \<in> {..<n}" and y: "y \<in> {..<n}" and eq: "(a + x) mod n = (a + y) mod n"
    then have "int x mod int n = int y mod int n"
      by (metis add_diff_cancel_left' mod_diff_left_eq of_nat_add of_nat_mod)
    with x y show "x = y" by (metis lessThan_iff mod_less of_nat_eq_iff of_nat_mod)
  qed
  moreover have "(\<lambda>i. (a + i) mod n) ` {..<n} \<subseteq> {..<n}" using assms by auto
  ultimately show ?thesis
    by (metis bij_betw_def card_image card_subset_eq finite_lessThan)
qed

section \<open>Properties\<close>

text \<open>Starting the runtime refuses zero workers, and otherwise either starts every worker, under its own
  name and ready to be shut down, or reports the first failure with fewer workers to clean up than
  were asked for. By default there is at least one worker.\<close>

lemma start_all_or_report:
  "case start num_cpus st config of
     Inr rt \<Rightarrow> config_workers config \<noteq> Fixed 0 \<and> 0 < worker_count rt \<and> rt_active rt \<and>
       worker_count rt = (case config_workers config of DefaultWorkers \<Rightarrow> max num_cpus 1 | Fixed n \<Rightarrow> n) \<and>
       (\<forall>i < worker_count rt. \<exists>ex owner. st (worker_name i) = Inr (Some (ex, owner)) \<and>
          rt_workers rt ! i = \<lparr>wh_executor = ex, wh_owner = owner, wh_shutdown = True, wh_join = True\<rparr>)
   | Inl (e, started) \<Rightarrow>
       (case config_workers config of
          Fixed 0 \<Rightarrow> e = InvalidConfig ''worker count must be greater than zero'' \<and> started = []
        | Fixed n \<Rightarrow> (\<exists>io. e = error_from io) \<and> length started < n
        | DefaultWorkers \<Rightarrow> (\<exists>io. e = error_from io) \<and> length started < max num_cpus 1)"
proof (cases "config_workers config = Fixed 0")
  case True
  then show ?thesis by (simp add: start_def runtime_config_validate_def)
next
  case False
  let ?n = "case config_workers config of DefaultWorkers \<Rightarrow> max num_cpus 1 | Fixed n \<Rightarrow> n"
  have pos: "0 < ?n" using False by (auto split: WorkerCount.split)
  have s: "start num_cpus st config =
      map_ok (\<lambda>workers. \<lparr>rt_workers = workers, rt_active = True, rt_next_worker = 0\<rparr>)
        (start_workers st [] [0..<?n])"
    using False by (simp add: start_def runtime_config_validate_def)
  show ?thesis
  proof (cases "start_workers st [] [0..<?n]")
    case (Inl es)
    then obtain e started where es: "es = (e, started)" by fastforce
    from start_workers_err [of st "[]" "[0..<?n]" e started] Inl es
    have "(\<exists>io. e = error_from io) \<and> length started < ?n" by simp
    with Inl es s False show ?thesis by (auto split: WorkerCount.splits nat.splits)
  next
    case (Inr ws)
    from start_workers_ok [OF Inr] have "length ws = ?n"
      "\<forall>i < ?n. \<exists>ex owner. st (worker_name i) = Inr (Some (ex, owner)) \<and>
          ws ! i = \<lparr>wh_executor = ex, wh_owner = owner, wh_shutdown = True, wh_join = True\<rparr>" by auto
    with Inr s False pos show ?thesis by (simp add: worker_count_def)
  qed
qed



text \<open>The workers take turns: as many consecutive submissions from outside as there are workers reach
  every worker exactly once.\<close>

lemma rotation_is_fair:
  assumes "rt_active rt" and "0 < worker_count rt" and "rt_next_worker rt + worker_count rt \<le> 2 ^ 64 - 1"
  shows "mset (rotation (worker_count rt) rt) = mset [0..<worker_count rt]"
proof -
  let ?n = "worker_count rt" and ?f = "\<lambda>i. (rt_next_worker rt + i) mod worker_count rt"
  have eq: "rotation ?n rt = map ?f [0..<?n]" by (rule rotation_eq [OF assms])
  have bij: "bij_betw ?f {..<?n} {..<?n}" by (rule rotation_bij [OF assms(2)])
  then have "distinct (map ?f [0..<?n])" "set (map ?f [0..<?n]) = {..<?n}"
    by (auto simp: bij_betw_def distinct_map atLeast0LessThan)
  then show ?thesis
    unfolding eq by (subst set_eq_iff_mset_eq_distinct [symmetric]) (simp_all add: atLeast0LessThan)
qed



end
