(* ===== verification/Schedule.thy ===== *)
theory Schedule
  imports Net_Addr Errors
begin

text \<open>
  Userspace worker selection (\<open>src/core/schedule.rs\<close>): an FNV-1a hash of the peer and
  local socket addresses, reduced modulo the number of workers; and the routing interface
  \<open>Fn(&[u8], PacketMeta, usize) -> Option<usize>\<close> that the dispatch loops are given.
\<close>

section \<open>PacketMeta\<close>

record PacketMeta =
  peer_addr :: "SocketAddr option"
  local_addr :: "SocketAddr option"

section \<open>The hash\<close>

definition FNV_OFFSET :: u64 where
  "FNV_OFFSET = 0xcbf29ce484222325"

definition FNV_PRIME :: u64 where
  "FNV_PRIME = 0x100000001b3"

definition write_u8 :: "u64 \<Rightarrow> u8 \<Rightarrow> u64" where
  "write_u8 hash value = (hash XOR ucast value) * FNV_PRIME"

fun write_bytes :: "u64 \<Rightarrow> u8 list \<Rightarrow> u64" where
  "write_bytes hash [] = hash"
| "write_bytes hash (byte # bytes) = write_bytes (write_u8 hash byte) bytes"

definition write_u16 :: "u64 \<Rightarrow> u16 \<Rightarrow> u64" where
  "write_u16 hash value = write_bytes hash (to_be_bytes 2 value)"

definition hash_socket_addr :: "u64 \<Rightarrow> SocketAddr option \<Rightarrow> u64" where
  "hash_socket_addr hash addr =
     (case addr of
        None \<Rightarrow> write_u8 hash 0
      | Some a \<Rightarrow>
          write_u16
            (case ip a of
               V4 i \<Rightarrow> write_bytes (write_u8 hash 4) (octets4 i)
             | V6 i \<Rightarrow> write_bytes (write_u8 hash 6) (octets6 i))
            (port a))"

definition linux_reuseport_select :: "PacketMeta \<Rightarrow> usize \<Rightarrow> usize result" where
  "linux_reuseport_select meta workers =
     (if workers = 0 then Inl (InvalidConfig ''worker count must be greater than zero'')
      else
        let hash = hash_socket_addr FNV_OFFSET (peer_addr meta);
            hash = hash_socket_addr hash (local_addr meta)
        in Inr (unat hash mod workers))"

section \<open>The hash as FNV-1a of an address encoding\<close>

text \<open>
  The abstract specification: the addresses are encoded as one byte string, in which the
  first byte of an address gives its length, and the hash is the published FNV-1a function
  of that string.
\<close>

definition fnv1a :: "u8 list \<Rightarrow> u64" where
  "fnv1a bytes = foldl (\<lambda>h b. (h XOR ucast b) * 0x100000001b3) 0xcbf29ce484222325 bytes"

definition encode_addr :: "SocketAddr option \<Rightarrow> u8 list" where
  "encode_addr addr =
     (case addr of
        None \<Rightarrow> [0]
      | Some a \<Rightarrow>
          (case ip a of V4 i \<Rightarrow> 4 # octets4 i | V6 i \<Rightarrow> 6 # octets6 i) @ to_be_bytes 2 (port a))"

definition encode_meta :: "PacketMeta \<Rightarrow> u8 list" where
  "encode_meta meta = encode_addr (peer_addr meta) @ encode_addr (local_addr meta)"

lemma write_bytes_append [byte_simps]:
  "write_bytes h (xs @ ys) = write_bytes (write_bytes h xs) ys"
  by (induction h xs rule: write_bytes.induct) auto

lemma write_bytes_single: "write_u8 h b = write_bytes h [b]"
  by simp

lemma fnv1a_write_bytes: "fnv1a bytes = write_bytes FNV_OFFSET bytes"
proof -
  have "foldl (\<lambda>h b. (h XOR ucast b) * 0x100000001b3) h bytes = write_bytes h bytes" for h
    by (induction h bytes rule: write_bytes.induct) (simp_all add: write_u8_def FNV_PRIME_def)
  then show ?thesis by (simp add: fnv1a_def FNV_OFFSET_def)
qed

lemma hash_socket_addr_eq: "hash_socket_addr h a = write_bytes h (encode_addr a)"
  by (auto simp: hash_socket_addr_def encode_addr_def write_u16_def byte_simps
      split: option.split IpAddr.split)

lemma linux_reuseport_select_eq:
  "linux_reuseport_select meta workers =
     (if workers = 0 then Inl (InvalidConfig ''worker count must be greater than zero'')
      else Inr (unat (fnv1a (encode_meta meta)) mod workers))"
  by (simp add: linux_reuseport_select_def hash_socket_addr_eq encode_meta_def
      fnv1a_write_bytes byte_simps)

section \<open>The encoding determines the endpoints\<close>

definition same_endpoint :: "SocketAddr option \<Rightarrow> SocketAddr option \<Rightarrow> bool" where
  "same_endpoint a b \<longleftrightarrow> map_option (\<lambda>x. (ip x, port x)) a = map_option (\<lambda>x. (ip x, port x)) b"

text \<open>The encoding is prefix-free: it can be cut off any longer byte string in one way only.\<close>

lemma encode_addr_append_eq:
  "encode_addr a @ xs = encode_addr b @ ys \<longleftrightarrow> same_endpoint a b \<and> xs = ys"
  by (auto simp: encode_addr_def same_endpoint_def octets4_inject octets6_inject port_bytes_inject
      append_eq_append_conv split: option.splits IpAddr.splits)

lemma encode_meta_eq_iff:
  "encode_meta m = encode_meta m' \<longleftrightarrow>
     same_endpoint (peer_addr m) (peer_addr m') \<and> same_endpoint (local_addr m) (local_addr m')"
  using encode_addr_append_eq [of "local_addr m" "[]" "local_addr m'" "[]"]
  by (simp add: encode_meta_def encode_addr_append_eq)

section \<open>Each step of the hash is a bijection\<close>

text \<open>The FNV prime is odd, so multiplying by it can be undone modulo \<open>2 ^ 64\<close>.\<close>

definition FNV_INVERSE :: u64 where
  "FNV_INVERSE = 0xce965057aff6957b"

lemma FNV_PRIME_inverse: "FNV_PRIME * FNV_INVERSE = 1"
  by (simp add: FNV_PRIME_def FNV_INVERSE_def)

lemma mult_FNV_PRIME_inject [simp]: "x * FNV_PRIME = y * FNV_PRIME \<longleftrightarrow> x = y"
proof
  assume "x * FNV_PRIME = y * FNV_PRIME"
  then have "x * (FNV_PRIME * FNV_INVERSE) = y * (FNV_PRIME * FNV_INVERSE)"
    by (simp flip: mult.assoc)
  then show "x = y" by (simp add: FNV_PRIME_inverse)
qed simp

lemma xor_cancel_right: "(x XOR z = y XOR z) = (x = (y :: 'a::len word))"
  by (metis xor.assoc xor.right_neutral xor_self_eq)

lemma xor_cancel_left: "(z XOR x = z XOR y) = (x = (y :: 'a::len word))"
  by (simp add: xor.commute [of z] xor_cancel_right)

lemma ucast_u8_u64_inject: "(ucast a :: u64) = ucast b \<longleftrightarrow> a = (b :: u8)"
proof
  assume eq: "(ucast a :: u64) = ucast b"
  show "a = b"
  proof (rule bit_word_eqI)
    fix n assume "n < LENGTH(8)"
    with eq show "bit a n = bit b n" by (auto simp: bit_eq_iff bit_simps dest!: spec [of _ n])
  qed
qed simp

lemma write_u8_inject_hash: "write_u8 h b = write_u8 h' b \<longleftrightarrow> h = h'"
  by (simp add: write_u8_def xor_cancel_right)

lemma write_u8_inject_byte: "write_u8 h a = write_u8 h b \<longleftrightarrow> a = b"
  by (simp add: write_u8_def xor_cancel_left ucast_u8_u64_inject)

lemma write_bytes_inject_hash: "write_bytes h bs = write_bytes h' bs \<longleftrightarrow> h = h'"
  by (induction bs arbitrary: h h') (simp_all add: write_u8_inject_hash)

lemma fnv1a_one_byte:
  "fnv1a (xs @ a # ys) = fnv1a (xs @ b # ys) \<longleftrightarrow> a = b"
  by (simp add: fnv1a_write_bytes write_bytes_append write_bytes_inject_hash write_u8_inject_byte)

section \<open>The routing interface\<close>

text \<open>
  A dispatch loop indexes its per-worker senders and permits with what the router returns.
  The contract: a returned index is below the worker count, so both lookups succeed.
\<close>

locale packet_router =
  fixes route :: "u8 list \<Rightarrow> PacketMeta \<Rightarrow> usize \<Rightarrow> usize option"
  assumes route_in_range: "route packet meta n = Some i \<Longrightarrow> i < n"
begin

lemma route_no_workers: "route packet meta 0 = None"
  using route_in_range [of packet meta 0] by (cases "route packet meta 0") auto

lemma route_get:
  assumes "route packet meta (length xs) = Some i"
  shows "slice_get xs i = Some (xs ! i)"
  using route_in_range [OF assms] by simp

lemma route_sole_worker: "route packet meta 1 = Some i \<Longrightarrow> i = 0"
  using route_in_range [of packet meta 1 i] by simp

end

definition hash_route :: "u8 list \<Rightarrow> PacketMeta \<Rightarrow> usize \<Rightarrow> usize option" where
  "hash_route packet meta worker_count = to_ok (linux_reuseport_select meta worker_count)"

interpretation hash_router: packet_router hash_route
  by unfold_locales
    (auto simp: hash_route_def linux_reuseport_select_eq result_simps split: if_splits)

lemma hash_route_total: "0 < n \<Longrightarrow> \<exists>i<n. hash_route packet meta n = Some i"
  by (auto simp: hash_route_def linux_reuseport_select_eq)

section \<open>The hash on integers\<close>

text \<open>
  The wrapping product written out as arithmetic modulo \<open>2 ^ 64\<close>, on which a hash value can be
  computed.
\<close>

definition fnv1a_step :: "int \<Rightarrow> int \<Rightarrow> int" where
  "fnv1a_step h b = ((h XOR b) * 0x100000001b3) mod 0x10000000000000000"

lemma uint_write_u8: "uint (write_u8 h b) = fnv1a_step (uint h) (uint b)"
proof -
  have "uint b < 2 ^ 64"
    using unsigned_less [where ?'a = int, of b] by simp
  then have "take_bit 64 (uint b) = uint b"
    by (simp add: take_bit_int_eq_self)
  then show ?thesis
    by (simp add: write_u8_def fnv1a_step_def FNV_PRIME_def uint_word_ariths unsigned_xor_eq
        unsigned_ucast_eq)
qed

lemma uint_fnv1a: "uint (fnv1a bytes) = foldl fnv1a_step 0xcbf29ce484222325 (map uint bytes)"
proof -
  have "uint (write_bytes h bytes) = foldl fnv1a_step (uint h) (map uint bytes)" for h
    by (induction bytes arbitrary: h) (simp_all add: uint_write_u8)
  then show ?thesis by (simp add: fnv1a_write_bytes FNV_OFFSET_def)
qed

section \<open>Properties\<close>

text \<open>C17. The worker a flow is sent to is the published FNV-1a hash of the byte string that encodes
  its peer and local address, modulo the number of workers; without workers it is an error.\<close>

theorem select_is_fnv1a:
  "linux_reuseport_select meta workers =
     (if workers = 0 then Inl (InvalidConfig ''worker count must be greater than zero'')
      else Inr (unat (fnv1a (encode_meta meta)) mod workers))"
  by (rule linux_reuseport_select_eq)

text \<open>The flow of the unit test of \<open>schedule.rs\<close>, on four workers.\<close>

lemma select_unit_test_flow:
  "linux_reuseport_select
     \<lparr>peer_addr = Some (SocketAddrV4 (ipv4 127 0 0 1) 55000),
      local_addr = Some (SocketAddrV4 (ipv4 127 0 0 1) 4433)\<rparr> 4 = Inr 1"
proof -
  let ?m = "\<lparr>peer_addr = Some (SocketAddrV4 (ipv4 127 0 0 1) 55000),
             local_addr = Some (SocketAddrV4 (ipv4 127 0 0 1) 4433)\<rparr> :: PacketMeta"
  have "encode_meta ?m = [4, 127, 0, 0, 1, 214, 216, 4, 127, 0, 0, 1, 17, 81]" by code_simp
  moreover have "foldl fnv1a_step 0xcbf29ce484222325
      [4, 127, 0, 0, 1, 214, 216, 4, 127, 0, 0, 1, 17, 81] mod 4 = 1" by code_simp
  ultimately have "uint (fnv1a (encode_meta ?m)) mod 4 = 1" by (simp add: uint_fnv1a)
  then have "unat (fnv1a (encode_meta ?m)) mod 4 = 1"
    by (simp flip: nat_uint_eq add: nat_mod_distrib [of _ 4, simplified, symmetric])
  then show ?thesis by (simp add: linux_reuseport_select_eq)
qed

text \<open>The 64-bit hash of a packet is computed from a byte string, and two packets feed it the
  same bytes exactly when their peers and their local endpoints have the same address and port:
  no two flows are confused before hashing, and packets of one flow go to one worker.\<close>

lemma hash_input_identifies_flow:
  "hash_socket_addr (hash_socket_addr FNV_OFFSET (peer_addr m)) (local_addr m)
     = fnv1a (encode_meta m) \<and>
   (encode_meta m = encode_meta m' \<longleftrightarrow>
     same_endpoint (peer_addr m) (peer_addr m') \<and> same_endpoint (local_addr m) (local_addr m'))"
  by (simp add: encode_meta_eq_iff)
    (simp add: hash_socket_addr_eq fnv1a_write_bytes encode_meta_def write_bytes_append)

text \<open>Flows whose encodings differ in a single byte never collide in the 64-bit hash.\<close>

lemma one_byte_changes_hash:
  assumes "encode_meta m = xs @ a # ys" and "encode_meta m' = xs @ b # ys" and "a \<noteq> b"
  shows "hash_socket_addr (hash_socket_addr FNV_OFFSET (peer_addr m)) (local_addr m) \<noteq>
         hash_socket_addr (hash_socket_addr FNV_OFFSET (peer_addr m')) (local_addr m')"
proof -
  have "fnv1a (encode_meta m) \<noteq> fnv1a (encode_meta m')"
    using assms by (simp add: fnv1a_one_byte)
  then show ?thesis
    by (simp add: hash_socket_addr_eq fnv1a_write_bytes encode_meta_def write_bytes_append)
qed

end
