(* ===== verification/Cid.thy ===== *)
theory Cid
  imports Errors
begin

text \<open>
  The connection-id generator (\<open>src/core/cid.rs\<close>): random bytes whose first two are the
  big-endian index of the worker that issued the id. The operating system's random source,
  \<open>getrandom::fill\<close>, is the parameter \<open>fill\<close>: it overwrites a buffer and reports
  success or an error text. All that is assumed of it is that the buffer keeps its length,
  as any function on a \<open>&mut [u8]\<close> must.
\<close>

section \<open>Generator\<close>

record QuicCidGenerator =
  worker_index :: usize
  cid_len :: usize

type_synonym fill_fn = "u8 list \<Rightarrow> (string + unit) \<times> u8 list"

definition DEFAULT_CID_LEN :: usize where "DEFAULT_CID_LEN = 8"
definition MIN_CID_LEN :: usize where "MIN_CID_LEN = 8"
definition MAX_CID_LEN :: usize where "MAX_CID_LEN = 20"
definition MAX_WORKER_INDEX :: usize where "MAX_WORKER_INDEX = 0xffff"

definition validate_worker_index :: "usize \<Rightarrow> unit result" where
  "validate_worker_index index =
     (if index \<le> MAX_WORKER_INDEX then Inr ()
      else Inl (InvalidConfig
        (''QUIC CID worker index must be between 0 and '' @ show_nat MAX_WORKER_INDEX)))"

definition validate_cid_len :: "usize \<Rightarrow> unit result" where
  "validate_cid_len len =
     (if MIN_CID_LEN \<le> len \<and> len \<le> MAX_CID_LEN then Inr ()
      else Inl (InvalidConfig
        (''QUIC CID length must be between '' @ show_nat MIN_CID_LEN @ '' and '' @
         show_nat MAX_CID_LEN @ '' bytes'')))"

definition cid_new :: "usize \<Rightarrow> QuicCidGenerator result" where
  "cid_new index =
     and_then (validate_worker_index index)
       (\<lambda>_. Inr \<lparr>worker_index = index, cid_len = DEFAULT_CID_LEN\<rparr>)"

definition for_worker :: "usize \<Rightarrow> QuicCidGenerator result" where
  "for_worker index = cid_new index"

definition with_cid_len :: "QuicCidGenerator \<Rightarrow> usize \<Rightarrow> QuicCidGenerator result" where
  "with_cid_len self len =
     and_then (validate_cid_len len) (\<lambda>_. Inr (self\<lparr>cid_len := len\<rparr>))"

text \<open>Functions on a mutable buffer return their result and the buffer they leave behind.\<close>

definition encode_worker_index_prefix :: "usize \<Rightarrow> u8 list \<Rightarrow> unit result \<times> u8 list" where
  "encode_worker_index_prefix index buffer =
     (case validate_worker_index index of
        Inl e \<Rightarrow> (Inl e, buffer)
      | Inr _ \<Rightarrow>
          if length buffer < 2
          then (Inl (InvalidConfig ''QUIC CID buffer must contain a two-byte worker index prefix''),
                buffer)
          else (Inr (), buffer[0 := word_of_nat (drop_bit 8 index), 1 := word_of_nat index]))"

definition generate_into :: "fill_fn \<Rightarrow> QuicCidGenerator \<Rightarrow> u8 list \<Rightarrow> unit result \<times> u8 list" where
  "generate_into fill self buffer =
     (if length buffer \<noteq> cid_len self
      then (Inl (InvalidConfig (''QUIC CID buffer length must equal configured CID length '' @
              show_nat (cid_len self))), buffer)
      else
        case validate_cid_len (length buffer) of
          Inl e \<Rightarrow> (Inl e, buffer)
        | Inr _ \<Rightarrow>
            (case fill buffer of
               (Inl error, buffer) \<Rightarrow>
                 (Inl (Runtime (''QUIC CID random generation failed: '' @ error)), buffer)
             | (Inr _, buffer) \<Rightarrow> encode_worker_index_prefix (worker_index self) buffer))"

definition generate :: "fill_fn \<Rightarrow> QuicCidGenerator \<Rightarrow> u8 list result" where
  "generate fill self =
     (case generate_into fill self (replicate (cid_len self) 0) of
        (Inl e, _) \<Rightarrow> Inl e
      | (Inr _, cid) \<Rightarrow> Inr cid)"

section \<open>Well-formed generators\<close>

text \<open>What the constructors establish; the fields are private, so every generator has it.\<close>

definition cid_generator_ok :: "QuicCidGenerator \<Rightarrow> bool" where
  "cid_generator_ok g \<longleftrightarrow> worker_index g \<le> 65535 \<and> 8 \<le> cid_len g \<and> cid_len g \<le> 20"

definition fill_keeps_length :: "fill_fn \<Rightarrow> bool" where
  "fill_keeps_length fill \<longleftrightarrow> (\<forall>buffer. length (snd (fill buffer)) = length buffer)"

lemmas cid_consts =
  DEFAULT_CID_LEN_def MIN_CID_LEN_def MAX_CID_LEN_def MAX_WORKER_INDEX_def

lemma validate_worker_index_iff: "validate_worker_index i = Inr () \<longleftrightarrow> i \<le> 65535"
  by (simp add: validate_worker_index_def cid_consts)

lemma validate_cid_len_iff: "validate_cid_len n = Inr () \<longleftrightarrow> 8 \<le> n \<and> n \<le> 20"
  by (simp add: validate_cid_len_def cid_consts)

lemma cid_new_ok: "cid_new i = Inr g \<Longrightarrow> cid_generator_ok g \<and> worker_index g = i \<and> cid_len g = 8"
  by (auto simp: cid_new_def cid_generator_ok_def result_simps validate_worker_index_iff cid_consts)

lemma with_cid_len_ok:
  "cid_generator_ok g \<Longrightarrow> with_cid_len g n = Inr g' \<Longrightarrow>
     cid_generator_ok g' \<and> worker_index g' = worker_index g \<and> cid_len g' = n"
  by (auto simp: with_cid_len_def cid_generator_ok_def result_simps validate_cid_len_iff)

lemma cid_new_cases:
  obtains (ok) "i \<le> 65535" "cid_new i = Inr \<lparr>worker_index = i, cid_len = 8\<rparr>"
  | (bad) msg where "\<not> i \<le> 65535" "cid_new i = Inl (InvalidConfig msg)"
  by (cases "i \<le> 65535")
    (auto simp: cid_new_def validate_worker_index_def MAX_WORKER_INDEX_def DEFAULT_CID_LEN_def)

lemma with_cid_len_cases:
  obtains (ok) "8 \<le> n" "n \<le> 20" "with_cid_len g n = Inr (g\<lparr>cid_len := n\<rparr>)"
  | (bad) msg where "\<not> (8 \<le> n \<and> n \<le> 20)" "with_cid_len g n = Inl (InvalidConfig msg)"
  by (cases "8 \<le> n \<and> n \<le> 20")
    (auto simp: with_cid_len_def validate_cid_len_def MIN_CID_LEN_def MAX_CID_LEN_def)

section \<open>The prefix\<close>

lemma encode_prefix_ok:
  assumes "i \<le> 65535" and "2 \<le> length buf"
  shows "encode_worker_index_prefix i buf =
           (Inr (), word_of_nat (i div 256) # word_of_nat i # drop 2 buf)"
proof -
  obtain a b rest where buf: "buf = a # b # rest"
    using assms(2) by (cases buf; cases "tl buf") auto
  have "validate_worker_index i = Inr ()"
    using assms(1) by (simp add: validate_worker_index_iff)
  moreover have "drop_bit 8 i = i div 256" by (simp add: drop_bit_eq_div)
  ultimately show ?thesis
    by (simp add: encode_worker_index_prefix_def buf)
qed

text \<open>A well-formed generator fails only when the random source does.\<close>

lemma generate_eq:
  assumes ok: "cid_generator_ok g" and len: "fill_keeps_length fill"
  shows "generate fill g =
           (case fill (replicate (cid_len g) 0) of
              (Inl error, _) \<Rightarrow> Inl (Runtime (''QUIC CID random generation failed: '' @ error))
            | (Inr _, rnd) \<Rightarrow>
                Inr (word_of_nat (worker_index g div 256) # word_of_nat (worker_index g) # drop 2 rnd))"
proof -
  let ?z = "replicate (cid_len g) (0 :: u8)"
  have l: "length (snd (fill ?z)) = cid_len g"
    using len by (simp add: fill_keeps_length_def)
  have v: "validate_cid_len (cid_len g) = Inr ()" and w: "worker_index g \<le> 65535"
    and two: "2 \<le> cid_len g"
    using ok by (simp_all add: cid_generator_ok_def validate_cid_len_iff)
  show ?thesis
  proof (cases "fill ?z")
    case (Pair r rnd)
    with l two have "2 \<le> length rnd" by simp
    with Pair v w show ?thesis
      by (cases r) (simp_all add: generate_def generate_into_def encode_prefix_ok)
  qed
qed

lemma generate_ok:
  assumes "cid_generator_ok g" and "fill_keeps_length fill" and "generate fill g = Inr cid"
  shows "length cid = cid_len g"
    and "\<exists>rest. cid = word_of_nat (worker_index g div 256) # word_of_nat (worker_index g) # rest"
proof -
  let ?z = "replicate (cid_len g) (0 :: u8)"
  obtain rnd where rnd: "fill ?z = (Inr (), rnd)"
    and cid: "cid = word_of_nat (worker_index g div 256) # word_of_nat (worker_index g) # drop 2 rnd"
    using assms(3) generate_eq [OF assms(1,2)] by (auto split: prod.splits sum.splits)
  have "length rnd = cid_len g"
    using assms(2) rnd by (metis fill_keeps_length_def length_replicate snd_conv)
  moreover have "2 \<le> cid_len g" using assms(1) by (simp add: cid_generator_ok_def)
  ultimately show "length cid = cid_len g" by (simp add: cid)
  show "\<exists>rest. cid = word_of_nat (worker_index g div 256) # word_of_nat (worker_index g) # rest"
    using cid by blast
qed

section \<open>Properties\<close>

text \<open>C23. The constructors accept exactly the worker indices and lengths the wire format can hold,
  report \<open>InvalidConfig\<close> for the others, and every generator they return is well formed, for
  the worker and of the length asked for.\<close>

theorem cid_generator_constructors:
  "(\<exists>g. cid_new i = Inr g) = (i \<le> 65535) \<and>
   (\<forall>e. cid_new i = Inl e \<longrightarrow> (\<exists>msg. e = InvalidConfig msg)) \<and>
   (\<forall>g. for_worker i = Inr g \<longrightarrow>
      cid_generator_ok g \<and> worker_index g = i \<and> cid_len g = 8 \<and>
      (\<exists>g'. with_cid_len g n = Inr g') = (8 \<le> n \<and> n \<le> 20) \<and>
      (\<forall>e. with_cid_len g n = Inl e \<longrightarrow> (\<exists>msg. e = InvalidConfig msg)) \<and>
      (\<forall>g'. with_cid_len g n = Inr g' \<longrightarrow>
         cid_generator_ok g' \<and> worker_index g' = i \<and> cid_len g' = n))"
proof (cases i rule: cid_new_cases)
  case ok
  let ?g = "\<lparr>worker_index = i, cid_len = 8\<rparr>"
  show ?thesis
    using ok by (cases n ?g rule: with_cid_len_cases) (simp_all add: for_worker_def cid_generator_ok_def)
next
  case bad
  then show ?thesis by (simp add: for_worker_def)
qed

theorem cid_generator_constructors_witness:
  "\<exists>g g'. for_worker 513 = Inr g \<and> with_cid_len g 20 = Inr g' \<and>
     cid_generator_ok g' \<and> worker_index g' = 513 \<and> cid_len g' = 20"
proof -
  let ?g = "\<lparr>worker_index = 513, cid_len = 8\<rparr>"
  have "for_worker 513 = Inr ?g"
    by (simp add: for_worker_def cid_new_def validate_worker_index_def cid_consts)
  moreover have "with_cid_len ?g 20 = Inr (?g\<lparr>cid_len := 20\<rparr>)"
    by (simp add: with_cid_len_def validate_cid_len_def cid_consts)
  ultimately show ?thesis
    using cid_generator_constructors [of 513 20] by blast
qed

text \<open>A well-formed generator fails only when the random source does; otherwise its id has the
  configured length, starts with the two bytes of the worker index, most significant first, and
  keeps the remaining random bytes.\<close>

lemma generate_is_prefixed_random:
  assumes "cid_generator_ok g" and "fill_keeps_length fill"
  shows "generate fill g =
           (case fill (replicate (cid_len g) 0) of
              (Inl error, _) \<Rightarrow> Inl (Runtime (''QUIC CID random generation failed: '' @ error))
            | (Inr _, rnd) \<Rightarrow>
                Inr (word_of_nat (worker_index g div 256) # word_of_nat (worker_index g) # drop 2 rnd)) \<and>
         (\<forall>cid. generate fill g = Inr cid \<longrightarrow> length cid = cid_len g)"
  using generate_eq [OF assms] generate_ok(1) [OF assms] by blast

end
