(* ===== verification/Quic_Route.thy ===== *)
theory Quic_Route
  imports Schedule Cid
begin

text \<open>
  Routing of QUIC datagrams (\<open>src/core/quic.rs\<close>, \<open>quic_worker_index\<close> and its
  helpers): the destination connection id is found in a long or a short header, and its
  first two bytes, modulo the worker count, are the worker.
\<close>

section \<open>Parsing\<close>

definition quic_worker_index_prefix :: "u8 list \<Rightarrow> usize option" where
  "quic_worker_index_prefix bytes =
     (case slice_get bytes 0 of
        None \<Rightarrow> None
      | Some first \<Rightarrow>
          (case slice_get bytes 1 of
             None \<Rightarrow> None
           | Some second \<Rightarrow> Some (push_bit 8 (unat first) OR unat second)))"

definition quic_long_header_dcid :: "u8 list \<Rightarrow> u8 list option" where
  "quic_long_header_dcid packet =
     (case slice_get packet 5 of
        None \<Rightarrow> None
      | Some b \<Rightarrow>
          let dcid_len = unat b in
          if dcid_len = 0 then None
          else
            let start = 6; end = start + dcid_len in
            if length packet < end then None
            else Some (take (end - start) (drop start packet)))"

definition quic_worker_index :: "u8 list \<Rightarrow> usize \<Rightarrow> usize option" where
  "quic_worker_index packet workers =
     (if workers = 0 \<or> packet = [] then None
      else if packet ! 0 AND 0x80 \<noteq> 0 then
        (case quic_long_header_dcid packet of
           None \<Rightarrow> None
         | Some dcid \<Rightarrow> map_option (\<lambda>index. index mod workers) (quic_worker_index_prefix dcid))
      else
        (case slice_from packet 1 of
           None \<Rightarrow> None
         | Some dcid \<Rightarrow> map_option (\<lambda>index. index mod workers) (quic_worker_index_prefix dcid)))"

definition quic_reuseport_bpf_accepts_packet :: "u8 list \<Rightarrow> usize \<Rightarrow> bool" where
  "quic_reuseport_bpf_accepts_packet packet workers \<longleftrightarrow> quic_worker_index packet workers \<noteq> None"

definition quic_route :: "u8 list \<Rightarrow> PacketMeta \<Rightarrow> usize \<Rightarrow> usize option" where
  "quic_route packet meta worker_count = quic_worker_index packet worker_count"

section \<open>Characterisation\<close>

definition long_header :: "u8 list \<Rightarrow> bool" where
  "long_header packet \<longleftrightarrow> packet \<noteq> [] \<and> packet ! 0 AND 0x80 \<noteq> 0"

text \<open>The 16-bit value of the bytes at positions \<open>i\<close> and \<open>i + 1\<close>.\<close>

definition be16_at :: "u8 list \<Rightarrow> nat \<Rightarrow> nat" where
  "be16_at bs i = unat (bs ! i) * 256 + unat (bs ! (i + 1))"

lemma be16_at_lt: "be16_at bs i < 65536"
proof -
  have "unat (bs ! i) \<le> 255" "unat (bs ! (i + 1)) \<le> 255"
    using unat_u8_lt [of "bs ! i"] unat_u8_lt [of "bs ! (i + 1)"] by linarith+
  then show ?thesis unfolding be16_at_def by linarith
qed

lemma quic_worker_index_prefix_eq:
  "quic_worker_index_prefix bs = (if 2 \<le> length bs then Some (be16_at bs 0) else None)"
  by (auto simp: quic_worker_index_prefix_def slice_get_def push_or_eq_add be16_at_def
      split: option.splits)

lemma quic_long_header_dcid_eq:
  "quic_long_header_dcid p =
     (if 6 \<le> length p \<and> p ! 5 \<noteq> 0 \<and> 6 + unat (p ! 5) \<le> length p
      then Some (take (unat (p ! 5)) (drop 6 p)) else None)"
  by (auto simp: quic_long_header_dcid_def slice_get_def Let_def unat_eq_0 split: option.splits)

text \<open>When a packet is routable, and where its worker index sits.\<close>

definition routable :: "u8 list \<Rightarrow> bool" where
  "routable p \<longleftrightarrow>
     (if long_header p then 8 \<le> length p \<and> 2 \<le> unat (p ! 5) \<and> 6 + unat (p ! 5) \<le> length p
      else 3 \<le> length p)"

definition index_offset :: "u8 list \<Rightarrow> nat" where
  "index_offset p = (if long_header p then 6 else 1)"

lemma quic_worker_index_eq:
  "quic_worker_index p n =
     (if 0 < n \<and> routable p then Some (be16_at p (index_offset p) mod n) else None)"
proof (cases "n = 0 \<or> p = []")
  case True
  then show ?thesis by (auto simp: quic_worker_index_def routable_def long_header_def)
next
  case False
  show ?thesis
  proof (cases "long_header p")
    case True
    with False show ?thesis
      by (auto simp: quic_worker_index_def long_header_def quic_long_header_dcid_eq
          quic_worker_index_prefix_eq routable_def index_offset_def be16_at_def)
  next
    case short: False
    with False show ?thesis
      by (auto simp: quic_worker_index_def long_header_def slice_from_def
          quic_worker_index_prefix_eq routable_def index_offset_def be16_at_def nth_tl
          simp flip: drop_Suc split: option.splits)
  qed
qed

lemma quic_accepts_iff:
  "quic_reuseport_bpf_accepts_packet p n \<longleftrightarrow> 0 < n \<and> routable p"
  by (simp add: quic_reuseport_bpf_accepts_packet_def quic_worker_index_eq)

interpretation quic_router: packet_router quic_route
  by unfold_locales (auto simp: quic_route_def quic_worker_index_eq split: if_splits)

section \<open>Packets that carry a given connection id\<close>

text \<open>
  The two header shapes of RFC 9000 a packet can carry its destination connection id in:
  after the flags, version and length byte, or right after the flags.
\<close>

definition long_packet :: "u8 \<Rightarrow> u32 \<Rightarrow> u8 list \<Rightarrow> u8 list \<Rightarrow> u8 list" where
  "long_packet flags version dcid rest =
     (flags OR 0x80) # to_be_bytes 4 version @ [word_of_nat (length dcid)] @ dcid @ rest"

definition short_packet :: "u8 \<Rightarrow> u8 list \<Rightarrow> u8 list \<Rightarrow> u8 list" where
  "short_packet flags dcid rest = (flags AND 0x7f) # dcid @ rest"

lemma or_0x80_and: "((x :: u8) OR 0x80) AND 0x80 = 0x80"
  by (rule bit_word_eqI) (auto simp: bit_simps)

lemma and_0x7f_and: "((x :: u8) AND 0x7f) AND 0x80 = 0"
proof -
  have "(0x7f :: u8) AND 0x80 = 0" by simp
  then show ?thesis by (simp add: and.assoc)
qed

lemma long_packet_route:
  assumes "2 \<le> length dcid" and "length dcid \<le> 255" and "0 < n"
  shows "quic_worker_index (long_packet flags version dcid rest) n = Some (be16_at dcid 0 mod n)"
proof -
  let ?p = "long_packet flags version dcid rest"
  have lh: "long_header ?p"
    by (simp add: long_header_def long_packet_def or_0x80_and)
  have b5: "?p ! 5 = word_of_nat (length dcid)"
    by (simp add: long_packet_def nth_append)
  have u5: "unat (?p ! 5) = length dcid"
    using assms(2) by (simp add: b5 byte_simps)
  have i6: "?p ! 6 = dcid ! 0" and i7: "?p ! 7 = dcid ! 1"
    using assms(1) by (auto simp: long_packet_def nth_append)
  have len: "length ?p = 6 + length dcid + length rest"
    by (simp add: long_packet_def)
  have "routable ?p" using assms lh len u5 by (simp add: routable_def)
  then show ?thesis
    using assms(3) lh i6 i7 by (simp add: quic_worker_index_eq index_offset_def be16_at_def)
qed

lemma short_packet_route:
  assumes "2 \<le> length dcid" and "0 < n"
  shows "quic_worker_index (short_packet flags dcid rest) n = Some (be16_at dcid 0 mod n)"
proof -
  let ?p = "short_packet flags dcid rest"
  have lh: "\<not> long_header ?p"
    by (simp add: long_header_def short_packet_def and_0x7f_and)
  have "?p ! 1 = dcid ! 0" and "?p ! 2 = dcid ! 1"
    using assms(1) by (auto simp: short_packet_def nth_append)
  moreover have "3 \<le> length ?p" using assms(1) by (simp add: short_packet_def)
  ultimately show ?thesis
    using assms(2) lh
    by (simp add: quic_worker_index_eq routable_def index_offset_def be16_at_def numeral_2_eq_2)
qed

lemma be16_generated:
  assumes "cid_generator_ok g" and "fill_keeps_length fill" and "generate fill g = Inr cid"
  shows "be16_at cid 0 = worker_index g"
proof -
  have "worker_index g \<le> 65535" using assms(1) by (simp add: cid_generator_ok_def)
  then show ?thesis
    using generate_ok(2) [OF assms] by (auto simp: be16_at_def byte_simps)
qed

lemma generated_packet_route:
  assumes "cid_generator_ok g" and "fill_keeps_length fill" and "generate fill g = Inr cid"
    and "worker_index g < n" and "p = short_packet flags cid rest \<or> p = long_packet flags version cid rest"
  shows "quic_worker_index p n = Some (worker_index g)"
proof -
  have "2 \<le> length cid" "length cid \<le> 255"
    using assms(1) generate_ok(1) [OF assms(1-3)] by (simp_all add: cid_generator_ok_def)
  then show ?thesis
    using assms(4,5) be16_generated [OF assms(1-3)]
    by (auto simp: long_packet_route short_packet_route)
qed

section \<open>Properties\<close>

text \<open>C14. Round trip: a packet of either header form addressed to an id that worker \<open>i\<close> generated is
  routed back to worker \<open>i\<close>, whatever the flags, version and payload.\<close>

theorem generated_cid_routes_home:
  assumes "cid_generator_ok g" and "fill_keeps_length fill" and "generate fill g = Inr cid"
    and "worker_index g < n"
  shows "quic_worker_index (long_packet flags version cid rest) n = Some (worker_index g) \<and>
         quic_worker_index (short_packet flags cid rest) n = Some (worker_index g)"
  using generated_packet_route [OF assms] by blast

theorem generated_cid_routes_home_witness:
  "quic_worker_index (long_packet 0xc3 1 [2, 1, 9, 9, 9, 9, 9, 9] [0, 0]) 600 = Some 513 \<and>
   quic_worker_index (short_packet 0x40 [2, 1, 9, 9, 9, 9, 9, 9] [0, 0]) 600 = Some 513"
proof -
  let ?g = "\<lparr>worker_index = 513, cid_len = 8\<rparr>" and ?fill = "\<lambda>b. (Inr (), map (\<lambda>_. 9) b) :: (string + unit) \<times> u8 list"
  have ok: "cid_generator_ok ?g" "fill_keeps_length ?fill"
    by (simp_all add: cid_generator_ok_def fill_keeps_length_def)
  have "generate ?fill ?g = Inr [2, 1, 9, 9, 9, 9, 9, 9]"
    by (simp add: generate_eq [OF ok] replicate_numeral)
  from generated_cid_routes_home [OF ok this, where n = 600 and flags = "0xc3" and version = 1 and rest = "[0, 0]"]
    generated_cid_routes_home [OF ok this, where n = 600 and flags = "0x40" and rest = "[0, 0]"]
  show ?thesis by simp
qed

end
