(* ===== verification/Linux_Bpf.thy ===== *)
theory Linux_Bpf
  imports Quic_Route
begin

text \<open>
  The two socket selector programs of \<open>src/platform/linux.rs\<close>: the eBPF program
  \<open>quic_reuseport_ebpf\<close> and the classic BPF filter \<open>quic_reuseport_cbpf\<close>, both as the
  raw instruction encodings the source builds. They are run by interpreters for the
  instructions they use, written from the published instruction sets (RFC 9669 for eBPF,
  the BSD packet filter for classic BPF): a load outside the packet or the context is a
  fault of an eBPF program, and ends a classic filter with result 0.
\<close>

section \<open>Instruction encodings\<close>

record SockFilter =
  filter_code :: u16
  filter_jt :: u8
  filter_jf :: u8
  filter_k :: u32

record BpfInsn =
  insn_code :: u8
  insn_dst_src :: u8
  insn_off :: i16
  insn_imm :: i32

definition bpf_insn :: "u8 \<Rightarrow> u8 \<Rightarrow> u8 \<Rightarrow> i16 \<Rightarrow> i32 \<Rightarrow> BpfInsn" where
  "bpf_insn code dst src off imm =
     \<lparr>insn_code = code, insn_dst_src = dst OR push_bit 4 src, insn_off = off, insn_imm = imm\<rparr>"

definition sock_filter :: "u16 \<Rightarrow> u8 \<Rightarrow> u8 \<Rightarrow> u32 \<Rightarrow> SockFilter" where
  "sock_filter code jt jf k =
     \<lparr>filter_code = code, filter_jt = jt, filter_jf = jf, filter_k = k\<rparr>"

section \<open>The eBPF program\<close>

abbreviation "BPF_LDX \<equiv> (0x01 :: u8)"
abbreviation "BPF_ALU64 \<equiv> (0x07 :: u8)"
abbreviation "BPF_JMP \<equiv> (0x05 :: u8)"
abbreviation "BPF_DW \<equiv> (0x18 :: u8)"
abbreviation "BPF_B \<equiv> (0x10 :: u8)"
abbreviation "BPF_MEM \<equiv> (0x60 :: u8)"
abbreviation "BPF_K \<equiv> (0x00 :: u8)"
abbreviation "BPF_X \<equiv> (0x08 :: u8)"
abbreviation "BPF_ADD \<equiv> (0x00 :: u8)"
abbreviation "BPF_OR \<equiv> (0x40 :: u8)"
abbreviation "BPF_AND \<equiv> (0x50 :: u8)"
abbreviation "BPF_LSH \<equiv> (0x60 :: u8)"
abbreviation "BPF_MOD \<equiv> (0x90 :: u8)"
abbreviation "BPF_MOV \<equiv> (0xb0 :: u8)"
abbreviation "BPF_JEQ \<equiv> (0x10 :: u8)"
abbreviation "BPF_JGT \<equiv> (0x20 :: u8)"
abbreviation "BPF_JLT \<equiv> (0xa0 :: u8)"
abbreviation "BPF_EXIT \<equiv> (0x90 :: u8)"

definition quic_reuseport_ebpf :: "usize \<Rightarrow> BpfInsn list" where
  "quic_reuseport_ebpf workers =
    [bpf_insn (BPF_ALU64 OR BPF_MOV OR BPF_X) 6 1 0 0,
     bpf_insn (BPF_LDX OR BPF_DW OR BPF_MEM) 2 6 0 0,
     bpf_insn (BPF_LDX OR BPF_DW OR BPF_MEM) 3 6 8 0,
     bpf_insn (BPF_ALU64 OR BPF_MOV OR BPF_X) 4 2 0 0,
     bpf_insn (BPF_ALU64 OR BPF_ADD OR BPF_K) 4 0 0 1,
     bpf_insn (BPF_JMP OR BPF_JGT OR BPF_X) 4 3 26 0,
     bpf_insn (BPF_LDX OR BPF_B OR BPF_MEM) 0 2 0 0,
     bpf_insn (BPF_ALU64 OR BPF_AND OR BPF_K) 0 0 0 0x80,
     bpf_insn (BPF_JMP OR BPF_JEQ OR BPF_K) 0 0 14 0,
     bpf_insn (BPF_ALU64 OR BPF_MOV OR BPF_X) 4 2 0 0,
     bpf_insn (BPF_ALU64 OR BPF_ADD OR BPF_K) 4 0 0 6,
     bpf_insn (BPF_JMP OR BPF_JGT OR BPF_X) 4 3 20 0,
     bpf_insn (BPF_LDX OR BPF_B OR BPF_MEM) 4 2 5 0,
     bpf_insn (BPF_JMP OR BPF_JLT OR BPF_K) 4 0 18 2,
     bpf_insn (BPF_ALU64 OR BPF_MOV OR BPF_X) 5 2 0 0,
     bpf_insn (BPF_ALU64 OR BPF_ADD OR BPF_K) 5 0 0 8,
     bpf_insn (BPF_JMP OR BPF_JGT OR BPF_X) 5 3 15 0,
     bpf_insn (BPF_LDX OR BPF_B OR BPF_MEM) 0 2 6 0,
     bpf_insn (BPF_ALU64 OR BPF_LSH OR BPF_K) 0 0 0 8,
     bpf_insn (BPF_LDX OR BPF_B OR BPF_MEM) 4 2 7 0,
     bpf_insn (BPF_ALU64 OR BPF_OR OR BPF_X) 0 4 0 0,
     bpf_insn (BPF_ALU64 OR BPF_MOD OR BPF_K) 0 0 0 (word_of_nat workers),
     bpf_insn (BPF_JMP OR BPF_EXIT) 0 0 0 0,
     bpf_insn (BPF_ALU64 OR BPF_MOV OR BPF_X) 4 2 0 0,
     bpf_insn (BPF_ALU64 OR BPF_ADD OR BPF_K) 4 0 0 3,
     bpf_insn (BPF_JMP OR BPF_JGT OR BPF_X) 4 3 6 0,
     bpf_insn (BPF_LDX OR BPF_B OR BPF_MEM) 0 2 1 0,
     bpf_insn (BPF_ALU64 OR BPF_LSH OR BPF_K) 0 0 0 8,
     bpf_insn (BPF_LDX OR BPF_B OR BPF_MEM) 4 2 2 0,
     bpf_insn (BPF_ALU64 OR BPF_OR OR BPF_X) 0 4 0 0,
     bpf_insn (BPF_ALU64 OR BPF_MOD OR BPF_K) 0 0 0 (word_of_nat workers),
     bpf_insn (BPF_JMP OR BPF_EXIT) 0 0 0 0,
     bpf_insn (BPF_ALU64 OR BPF_MOV OR BPF_K) 0 0 0 0,
     bpf_insn (BPF_JMP OR BPF_EXIT) 0 0 0 0]"

section \<open>The classic BPF filter\<close>

definition quic_reuseport_cbpf :: "usize \<Rightarrow> SockFilter list" where
  "quic_reuseport_cbpf workers =
     (let BPF_LD = 0x00; BPF_ALU = 0x04; BPF_JMP = 0x05; BPF_RET = 0x06; BPF_H = 0x08;
          BPF_B = 0x10; BPF_ABS = 0x20; BPF_K = 0x00; BPF_A = 0x10; BPF_JA = 0x00;
          BPF_JSET = 0x40; BPF_MOD = 0x90
      in
       [sock_filter (BPF_LD OR BPF_B OR BPF_ABS) 0 0 0,
        sock_filter (BPF_JMP OR BPF_JSET OR BPF_K) 0 2 0x80,
        sock_filter (BPF_LD OR BPF_H OR BPF_ABS) 0 0 6,
        sock_filter (BPF_JMP OR BPF_JA) 0 0 1,
        sock_filter (BPF_LD OR BPF_H OR BPF_ABS) 0 0 1,
        sock_filter (BPF_ALU OR BPF_MOD OR BPF_K) 0 0 (word_of_nat workers),
        sock_filter (BPF_RET OR BPF_A) 0 0 0])"

section \<open>Running eBPF\<close>

datatype alu_op = Add | Or | And | Lsh | Mod | Mov
datatype jmp_op = Jeq | Jgt | Jlt
datatype operand = Reg nat | Imm u64
datatype ebpf_op = Alu alu_op nat operand | Load nat nat nat int | Jump jmp_op nat operand int | Exit

definition alu_op_of :: "u8 \<Rightarrow> alu_op option" where
  "alu_op_of c =
     (if c = 0x00 then Some Add else if c = 0x40 then Some Or else if c = 0x50 then Some And
      else if c = 0x60 then Some Lsh else if c = 0x90 then Some Mod
      else if c = 0xb0 then Some Mov else None)"

definition jmp_op_of :: "u8 \<Rightarrow> jmp_op option" where
  "jmp_op_of c =
     (if c = 0x10 then Some Jeq else if c = 0x20 then Some Jgt
      else if c = 0xa0 then Some Jlt else None)"

definition load_size_of :: "u8 \<Rightarrow> nat option" where
  "load_size_of c = (if c = 0x10 then Some 1 else if c = 0x18 then Some 8 else None)"

definition ebpf_decode :: "BpfInsn \<Rightarrow> ebpf_op option" where
  "ebpf_decode i =
     (let code = insn_code i; cls = code AND 0x07;
          dst = unat (insn_dst_src i AND 0x0f); src = unat (drop_bit 4 (insn_dst_src i));
          arg = (if code AND 0x08 \<noteq> 0 then Reg src else Imm (scast (insn_imm i)))
      in if cls = 0x07 then map_option (\<lambda>a. Alu a dst arg) (alu_op_of (code AND 0xf0))
         else if cls = 0x01 \<and> code AND 0xe0 = 0x60
         then map_option (\<lambda>n. Load n dst src (sint (insn_off i))) (load_size_of (code AND 0x18))
         else if cls = 0x05 \<and> code AND 0xf0 = 0x90 then Some Exit
         else if cls = 0x05
         then map_option (\<lambda>j. Jump j dst arg (sint (insn_off i))) (jmp_op_of (code AND 0xf0))
         else None)"

text \<open>
  The machine: the address of the program context, the address of the packet data, and the
  packet. The two 8-byte fields of the context are the start and the end of the data.
\<close>

record ebpf_env =
  env_ctx :: u64
  env_data :: u64
  env_packet :: "u8 list"

definition ebpf_load :: "ebpf_env \<Rightarrow> nat \<Rightarrow> u64 \<Rightarrow> u64 option" where
  "ebpf_load env n addr =
     (if n = 8 then
        (if addr = env_ctx env then Some (env_data env)
         else if addr = env_ctx env + 8 then Some (env_data env + word_of_nat (length (env_packet env)))
         else None)
      else if n = 1 \<and> unat (env_data env) \<le> unat addr \<and>
              unat addr < unat (env_data env) + length (env_packet env)
      then Some (ucast (env_packet env ! (unat addr - unat (env_data env))))
      else None)"

fun alu_apply :: "alu_op \<Rightarrow> u64 \<Rightarrow> u64 \<Rightarrow> u64" where
  "alu_apply Add x y = x + y"
| "alu_apply Or x y = x OR y"
| "alu_apply And x y = x AND y"
| "alu_apply Lsh x y = push_bit (unat (y AND 0x3f)) x"
| "alu_apply Mod x y = (if y = 0 then x else x mod y)"
| "alu_apply Mov x y = y"

fun jmp_holds :: "jmp_op \<Rightarrow> u64 \<Rightarrow> u64 \<Rightarrow> bool" where
  "jmp_holds Jeq x y \<longleftrightarrow> x = y"
| "jmp_holds Jgt x y \<longleftrightarrow> x > y"
| "jmp_holds Jlt x y \<longleftrightarrow> x < y"

type_synonym regs = "nat \<Rightarrow> u64"

fun operand_value :: "regs \<Rightarrow> operand \<Rightarrow> u64" where
  "operand_value r (Reg i) = r i"
| "operand_value r (Imm v) = v"

datatype ebpf_outcome = Next nat regs | Halt u64 | Fault

fun ebpf_step :: "ebpf_env \<Rightarrow> ebpf_op \<Rightarrow> nat \<Rightarrow> regs \<Rightarrow> ebpf_outcome" where
  "ebpf_step env (Alu a d v) pc r = Next (Suc pc) (r(d := alu_apply a (r d) (operand_value r v)))"
| "ebpf_step env (Load n d s off) pc r =
     (case ebpf_load env n (r s + word_of_int off) of
        None \<Rightarrow> Fault
      | Some v \<Rightarrow> Next (Suc pc) (r(d := v)))"
| "ebpf_step env (Jump j d v off) pc r =
     Next (if jmp_holds j (r d) (operand_value r v) then nat (int pc + 1 + off) else Suc pc) r"
| "ebpf_step env Exit pc r = Halt (r 0)"

fun ebpf_run :: "ebpf_env \<Rightarrow> ebpf_op list \<Rightarrow> nat \<Rightarrow> nat \<Rightarrow> regs \<Rightarrow> u64 option" where
  "ebpf_run env prog 0 pc r = None"
| "ebpf_run env prog (Suc fuel) pc r =
     (if pc < length prog then
        (case ebpf_step env (prog ! pc) pc r of
           Halt v \<Rightarrow> Some v
         | Next pc' r' \<Rightarrow> ebpf_run env prog fuel pc' r'
         | Fault \<Rightarrow> None)
      else None)"

text \<open>
  A program starts at its first instruction with the context address in register 1 and
  anything in the others. It has no backward jump, so as many steps as it has instructions
  are enough. An instruction that does not decode makes the program invalid.
\<close>

definition ebpf_exec :: "ebpf_env \<Rightarrow> regs \<Rightarrow> BpfInsn list \<Rightarrow> u64 option" where
  "ebpf_exec env regs prog =
     (let ops = map ebpf_decode prog in
      if None \<in> set ops then None
      else ebpf_run env (map the ops) (length prog) 0 (regs(1 := env_ctx env)))"

section \<open>What the eBPF program computes\<close>

text \<open>The decoded program; the decoder yields exactly this list.\<close>

definition quic_ops :: "usize \<Rightarrow> ebpf_op list" where
  "quic_ops n =
    [Alu Mov 6 (Reg 1), Load 8 2 6 0, Load 8 3 6 8,
     Alu Mov 4 (Reg 2), Alu Add 4 (Imm 1), Jump Jgt 4 (Reg 3) 26,
     Load 1 0 2 0, Alu And 0 (Imm 0x80), Jump Jeq 0 (Imm 0) 14,
     Alu Mov 4 (Reg 2), Alu Add 4 (Imm 6), Jump Jgt 4 (Reg 3) 20,
     Load 1 4 2 5, Jump Jlt 4 (Imm 2) 18,
     Alu Mov 5 (Reg 2), Alu Add 5 (Imm 8), Jump Jgt 5 (Reg 3) 15,
     Load 1 0 2 6, Alu Lsh 0 (Imm 8), Load 1 4 2 7, Alu Or 0 (Reg 4),
     Alu Mod 0 (Imm (scast (word_of_nat n :: i32))), Exit,
     Alu Mov 4 (Reg 2), Alu Add 4 (Imm 3), Jump Jgt 4 (Reg 3) 6,
     Load 1 0 2 1, Alu Lsh 0 (Imm 8), Load 1 4 2 2, Alu Or 0 (Reg 4),
     Alu Mod 0 (Imm (scast (word_of_nat n :: i32))), Exit,
     Alu Mov 0 (Imm 0), Exit]"

lemma quic_ebpf_decodes: "map ebpf_decode (quic_reuseport_ebpf n) = map Some (quic_ops n)"
  by (simp add: quic_reuseport_ebpf_def quic_ops_def bpf_insn_def ebpf_decode_def
      alu_op_of_def jmp_op_of_def load_size_of_def)

text \<open>
  The packet lies in the address space with room for the eight bytes the program may add to
  its start address, so that its bound checks do not wrap around.
\<close>

definition env_ok :: "ebpf_env \<Rightarrow> bool" where
  "env_ok env \<longleftrightarrow> unat (env_data env) + length (env_packet env) + 8 < 2 ^ 64"

lemma unat_data_add:
  assumes "env_ok env" and "k \<le> length (env_packet env) + 8"
  shows "unat (env_data env + word_of_nat k) = unat (env_data env) + k"
proof -
  have "unat (env_data env) + k < 2 ^ 64" "k < 2 ^ 64"
    using assms by (auto simp: env_ok_def)
  then show ?thesis by (simp add: unat_word_ariths unat_of_nat take_bit_eq_mod)
qed

lemma past_end:
  assumes "env_ok env" and "k \<le> 8"
  shows "env_data env + word_of_nat (length (env_packet env)) < env_data env + word_of_nat k
           \<longleftrightarrow> length (env_packet env) < k"
  using assms by (simp add: word_less_nat_alt unat_data_add)

lemma past_end_numeral:
  assumes "env_ok env"
  shows "env_data env + word_of_nat (length (env_packet env)) < env_data env + 1
           \<longleftrightarrow> length (env_packet env) < 1"
        "env_data env + word_of_nat (length (env_packet env)) < env_data env + 3
           \<longleftrightarrow> length (env_packet env) < 3"
        "env_data env + word_of_nat (length (env_packet env)) < env_data env + 6
           \<longleftrightarrow> length (env_packet env) < 6"
        "env_data env + word_of_nat (length (env_packet env)) < env_data env + 8
           \<longleftrightarrow> length (env_packet env) < 8"
  using past_end [OF assms, of 1] past_end [OF assms, of 3] past_end [OF assms, of 6]
    past_end [OF assms, of 8] by simp_all

lemma load_byte:
  assumes "env_ok env" and "k < length (env_packet env)"
  shows "ebpf_load env 1 (env_data env + word_of_nat k) = Some (ucast (env_packet env ! k))"
  using assms by (simp add: ebpf_load_def unat_data_add)

lemma load_byte_numeral:
  assumes "env_ok env"
  shows "0 < length (env_packet env) \<Longrightarrow> ebpf_load env 1 (env_data env) = Some (ucast (env_packet env ! 0))"
    "1 < length (env_packet env) \<Longrightarrow> ebpf_load env 1 (env_data env + 1) = Some (ucast (env_packet env ! 1))"
    "numeral k < length (env_packet env) \<Longrightarrow>
       ebpf_load env 1 (env_data env + numeral k) = Some (ucast (env_packet env ! numeral k))"
  using load_byte [OF assms, of 0] load_byte [OF assms, of 1] load_byte [OF assms, of "numeral k"]
  by simp_all

lemma load_ctx:
  "ebpf_load env 8 (env_ctx env) = Some (env_data env)"
  "ebpf_load env 8 (env_ctx env + 8) = Some (env_data env + word_of_nat (length (env_packet env)))"
  by (simp_all add: ebpf_load_def)


lemma run_numeral:
  "ebpf_run env prog (numeral f) pc r =
     (if pc < length prog then
        (case ebpf_step env (prog ! pc) pc r of
           Halt v \<Rightarrow> Some v
         | Next pc' r' \<Rightarrow> ebpf_run env prog (pred_numeral f) pc' r'
         | Fault \<Rightarrow> None)
      else None)"
  by (simp add: numeral_eq_Suc)

lemmas ebpf_sym = past_end_numeral [unfolded One_nat_def] load_byte_numeral [unfolded One_nat_def] load_ctx run_numeral
  numeral_2_eq_2 [symmetric]

definition ebpf_result :: "u8 list \<Rightarrow> usize \<Rightarrow> nat \<Rightarrow> u64" where
  "ebpf_result p n i =
     alu_apply Mod (push_bit 8 (ucast (p ! i)) OR ucast (p ! (i + 1))) (scast (word_of_nat n :: i32))"

text \<open>Symbolic execution of the three paths: no data, a short header, a long header.\<close>

lemma quic_ops_no_data:
  assumes "env_ok env" and "env_packet env = []"
  shows "ebpf_run env (quic_ops n) 34 0 (regs(1 := env_ctx env)) = Some 0"
proof -
  have "env_data env < env_data env + 1"
    using past_end_numeral(1) [OF assms(1)] assms(2) by simp
  then show ?thesis using assms by (simp add: quic_ops_def ebpf_sym)
qed

lemma quic_ops_short_header:
  assumes "env_ok env" and "env_packet env \<noteq> []"
    and "(ucast (env_packet env ! 0) AND 0x80 :: u64) = 0"
  shows "ebpf_run env (quic_ops n) 34 0 (regs(1 := env_ctx env)) =
           Some (if length (env_packet env) < 3 then 0 else ebpf_result (env_packet env) n 1)"
  using assms by (simp add: quic_ops_def ebpf_sym ebpf_result_def)

lemma quic_ops_long_header:
  assumes "env_ok env" and "env_packet env \<noteq> []"
    and "(ucast (env_packet env ! 0) AND 0x80 :: u64) \<noteq> 0"
  shows "ebpf_run env (quic_ops n) 34 0 (regs(1 := env_ctx env)) =
           Some (if length (env_packet env) < 8 \<or> (ucast (env_packet env ! 5) :: u64) < 2 then 0
                 else ebpf_result (env_packet env) n 6)"
  using assms by (simp add: quic_ops_def ebpf_sym ebpf_result_def)

lemma ucast_and_0x80: "(ucast (b :: u8) AND 0x80 :: u64) = 0 \<longleftrightarrow> b AND 0x80 = 0"
proof -
  have "(ucast b AND 0x80 :: u64) = ucast (b AND 0x80)"
    by (simp add: unsigned_and_eq)
  then show ?thesis using ucast_u8_u64_inject [of "b AND 0x80" 0] by simp
qed

lemma unat_ucast_u8_u64 [simp]: "unat (ucast (b :: u8) :: u64) = unat b"
  by (simp add: unsigned_ucast_eq take_bit_nat_eq_self less_le_trans [OF unat_u8_lt])

lemma unat_scast_imm:
  assumes "n < 2147483648"
  shows "unat (scast (word_of_nat n :: i32) :: u64) = n"
proof -
  have "sint (word_of_nat n :: i32) = int n"
    using assms by (simp add: signed_of_nat signed_take_bit_int_eq_self)
  then have "scast (word_of_nat n :: i32) = (word_of_nat n :: u64)"
    by (simp add: scast_eq)
  then show ?thesis using assms by (simp add: unat_of_nat take_bit_nat_eq_self)
qed

lemma unat_be16_u64:
  "unat (push_bit 8 (ucast (a :: u8)) OR ucast (b :: u8) :: u64) = unat a * 256 + unat b"
proof -
  have "unat a < 72057594037927936" using unat_u8_lt [of a] by linarith
  then have "push_bit 8 (unat a) < 2 ^ 64" by (simp add: push_bit_eq_mult)
  then show ?thesis
    by (simp add: unsigned_or_eq unsigned_push_bit_eq take_bit_nat_eq_self push_or_eq_add)
qed

lemma unat_ebpf_result:
  assumes "0 < n" and "n < 2147483648"
  shows "unat (ebpf_result p n i) = be16_at p i mod n"
proof -
  have m: "unat (scast (word_of_nat n :: i32) :: u64) = n"
    using assms(2) by (rule unat_scast_imm)
  with assms(1) have "scast (word_of_nat n :: i32) \<noteq> (0 :: u64)" by auto
  then show ?thesis
    using m by (simp add: ebpf_result_def unat_mod_distrib unat_be16_u64 be16_at_def)
qed

text \<open>
  The index the program yields: like the userspace router, but it checks only that the two
  index bytes are there, not that the whole connection id is, and yields 0 where they are not.
\<close>

definition ebpf_index :: "u8 list \<Rightarrow> usize \<Rightarrow> nat" where
  "ebpf_index p n =
     (if long_header p
      then if 8 \<le> length p \<and> 2 \<le> unat (p ! 5) then be16_at p 6 mod n else 0
      else if 3 \<le> length p then be16_at p 1 mod n else 0)"

lemma quic_ops_index:
  assumes "env_ok env" and "0 < n" and "n < 2147483648"
  shows "map_option unat (ebpf_run env (quic_ops n) 34 0 (regs(1 := env_ctx env))) =
           Some (ebpf_index (env_packet env) n)"
proof (cases "env_packet env = []")
  case True
  then show ?thesis
    using assms(1) by (simp add: quic_ops_no_data ebpf_index_def long_header_def del: One_nat_def)
next
  case ne: False
  show ?thesis
  proof (cases "long_header (env_packet env)")
    case True
    with ne have "(ucast (env_packet env ! 0) AND 0x80 :: u64) \<noteq> 0"
      by (simp add: long_header_def ucast_and_0x80)
    with True ne assms show ?thesis
      by (auto simp: quic_ops_long_header ebpf_index_def unat_ebpf_result word_less_nat_alt
          simp del: One_nat_def)
  next
    case False
    with ne have "(ucast (env_packet env ! 0) AND 0x80 :: u64) = 0"
      by (simp add: long_header_def ucast_and_0x80)
    with False ne assms show ?thesis
      by (auto simp: quic_ops_short_header ebpf_index_def unat_ebpf_result simp del: One_nat_def)
  qed
qed

lemma length_quic_reuseport_ebpf [simp]: "length (quic_reuseport_ebpf n) = 34"
  by (simp add: quic_reuseport_ebpf_def)

lemma ebpf_exec_index:
  assumes "env_ok env" and "0 < n" and "n < 2147483648"
  shows "map_option unat (ebpf_exec env regs (quic_reuseport_ebpf n)) =
           Some (ebpf_index (env_packet env) n)"
proof -
  have "ebpf_exec env regs (quic_reuseport_ebpf n) =
          ebpf_run env (quic_ops n) 34 0 (regs(1 := env_ctx env))"
    by (simp only: ebpf_exec_def quic_ebpf_decodes Let_def) (simp add: image_iff comp_def)
  then show ?thesis using quic_ops_index [OF assms] by simp
qed

section \<open>Running classic BPF\<close>

datatype cbpf_outcome = CNext nat u32 | CReturn u32 | CInvalid

definition cbpf_step :: "u8 list \<Rightarrow> SockFilter \<Rightarrow> nat \<Rightarrow> u32 \<Rightarrow> cbpf_outcome" where
  "cbpf_step p i pc a =
     (let k = unat (filter_k i) in
      if filter_code i = 0x30 then
        (if k < length p then CNext (Suc pc) (ucast (p ! k)) else CReturn 0)
      else if filter_code i = 0x28 then
        (if k + 1 < length p then CNext (Suc pc) (push_bit 8 (ucast (p ! k)) OR ucast (p ! (k + 1)))
         else CReturn 0)
      else if filter_code i = 0x45 then
        CNext (pc + 1 + unat (if a AND filter_k i \<noteq> 0 then filter_jt i else filter_jf i)) a
      else if filter_code i = 0x05 then CNext (pc + 1 + k) a
      else if filter_code i = 0x94 then
        (if k = 0 then CReturn 0 else CNext (Suc pc) (a mod filter_k i))
      else if filter_code i = 0x16 then CReturn a
      else CInvalid)"

fun cbpf_run :: "u8 list \<Rightarrow> SockFilter list \<Rightarrow> nat \<Rightarrow> nat \<Rightarrow> u32 \<Rightarrow> u32 option" where
  "cbpf_run p prog 0 pc a = None"
| "cbpf_run p prog (Suc fuel) pc a =
     (if pc < length prog then
        (case cbpf_step p (prog ! pc) pc a of
           CReturn v \<Rightarrow> Some v
         | CNext pc' a' \<Rightarrow> cbpf_run p prog fuel pc' a'
         | CInvalid \<Rightarrow> None)
      else None)"

definition cbpf_exec :: "SockFilter list \<Rightarrow> u8 list \<Rightarrow> u32 option" where
  "cbpf_exec prog p = cbpf_run p prog (length prog) 0 0"

definition cbpf_index :: "u8 list \<Rightarrow> usize \<Rightarrow> nat" where
  "cbpf_index p n =
     (if long_header p
      then if 8 \<le> length p then be16_at p 6 mod n else 0
      else if 3 \<le> length p then be16_at p 1 mod n else 0)"

lemma cbpf_run_numeral:
  "cbpf_run p prog (numeral f) pc a =
     (if pc < length prog then
        (case cbpf_step p (prog ! pc) pc a of
           CReturn v \<Rightarrow> Some v
         | CNext pc' a' \<Rightarrow> cbpf_run p prog (pred_numeral f) pc' a'
         | CInvalid \<Rightarrow> None)
      else None)"
  by (simp add: numeral_eq_Suc)

definition cbpf_result :: "u8 list \<Rightarrow> usize \<Rightarrow> nat \<Rightarrow> u32" where
  "cbpf_result p n i = (push_bit 8 (ucast (p ! i)) OR ucast (p ! (i + 1))) mod word_of_nat n"

lemma quic_cbpf_runs:
  assumes "unat (word_of_nat n :: u32) \<noteq> 0"
  shows "cbpf_exec (quic_reuseport_cbpf n) p =
           Some (if p = [] then 0
                 else if (ucast (p ! 0) AND 0x80 :: u32) \<noteq> 0
                 then (if 8 \<le> length p then cbpf_result p n 6 else 0)
                 else (if 3 \<le> length p then cbpf_result p n 1 else 0))"
  using assms
  by (auto simp: cbpf_exec_def quic_reuseport_cbpf_def sock_filter_def cbpf_run_numeral
      cbpf_step_def cbpf_result_def numeral_2_eq_2 [symmetric])

lemma ucast_u8_and_0x80_u32: "(ucast (b :: u8) AND 0x80 :: u32) = 0 \<longleftrightarrow> b AND 0x80 = 0"
proof -
  have "(ucast b AND 0x80 :: u32) = ucast (b AND 0x80)"
    by (simp add: unsigned_and_eq)
  moreover have "unat (ucast (b AND 0x80) :: u32) = unat (b AND 0x80)"
    by (simp add: unsigned_ucast_eq take_bit_nat_eq_self less_le_trans [OF unat_u8_lt])
  ultimately show ?thesis by (metis unat_eq_0)
qed

lemma unat_be16_u32:
  "unat (push_bit 8 (ucast (a :: u8)) OR ucast (b :: u8) :: u32) = unat a * 256 + unat b"
proof -
  have "unat a < 16777216" using unat_u8_lt [of a] by linarith
  then have "push_bit 8 (unat a) < 2 ^ 32" by (simp add: push_bit_eq_mult)
  then show ?thesis
    by (simp add: unsigned_or_eq unsigned_push_bit_eq unsigned_ucast_eq take_bit_nat_eq_self
        push_or_eq_add less_le_trans [OF unat_u8_lt])
qed

lemma unat_cbpf_result:
  assumes "n < 4294967296"
  shows "unat (cbpf_result p n i) = be16_at p i mod n"
proof -
  have "unat (word_of_nat n :: u32) = n"
    using assms by (simp add: unat_of_nat take_bit_nat_eq_self)
  then show ?thesis
    by (simp add: cbpf_result_def unat_mod_distrib unat_be16_u32 be16_at_def)
qed

lemma cbpf_exec_index:
  assumes "0 < n" and "n < 4294967296"
  shows "map_option unat (cbpf_exec (quic_reuseport_cbpf n) p) = Some (cbpf_index p n)"
proof -
  have "unat (word_of_nat n :: u32) \<noteq> 0"
    using assms by (simp add: unat_of_nat take_bit_nat_eq_self)
  from quic_cbpf_runs [OF this, of p] show ?thesis
    using assms(2)
    by (auto simp: cbpf_index_def long_header_def ucast_u8_and_0x80_u32 unat_cbpf_result)
qed

section \<open>The selector contract\<close>

text \<open>
  The probe packet \<open>quic_reuseport_selector_routes_probe\<close> sends to check that socket
  \<open>expected_socket\<close> receives what is meant for it: a long header whose connection id starts
  with that index.
\<close>

definition quic_reuseport_probe_packet :: "usize \<Rightarrow> u8 list" where
  "quic_reuseport_probe_packet expected_socket =
     (let worker_index = word_of_nat expected_socket :: u16;
          high = to_be_bytes 2 worker_index ! 0; low = to_be_bytes 2 worker_index ! 1
      in [0xe0, 0, 0, 0, 1, 4, high, low, 0xa5, low])"

lemma be_bytes_u16:
  "unat (to_be_bytes 2 (w :: u16) ! 0) * 256 + unat (to_be_bytes 2 w ! 1) = unat w"
proof -
  have bytes: "to_be_bytes 2 w = [be_byte 1 w, be_byte 0 w]"
    by (simp add: to_be_bytes_def upt_rec)
  have "unat (be_byte 1 w) = unat w div 256" "unat (be_byte 0 w) = unat w mod 256"
    by (simp_all add: be_byte_def unsigned_ucast_eq unsigned_drop_bit_eq drop_bit_eq_div
        take_bit_eq_mod unat_div_distrib less_mult_imp_div_less)
  then show ?thesis by (simp add: bytes)
qed

lemma probe_packet_routable: "routable (quic_reuseport_probe_packet i)"
  by (simp add: quic_reuseport_probe_packet_def Let_def routable_def long_header_def)

lemma probe_packet_route:
  assumes "i < n" and "n \<le> 65536"
  shows "quic_worker_index (quic_reuseport_probe_packet i) n = Some i"
proof -
  let ?p = "quic_reuseport_probe_packet i"
  have "be16_at ?p 6 = unat (word_of_nat i :: u16)"
    using be_bytes_u16 [of "word_of_nat i"]
    by (simp add: quic_reuseport_probe_packet_def Let_def be16_at_def)
  moreover have "unat (word_of_nat i :: u16) = i"
    using assms by (simp add: byte_simps)
  moreover have "long_header ?p"
    by (simp add: quic_reuseport_probe_packet_def Let_def long_header_def)
  ultimately show ?thesis
    using assms probe_packet_routable [of i] by (simp add: quic_worker_index_eq index_offset_def)
qed

text \<open>
  What the server relies on when it leaves worker selection to the kernel: a selector always
  yields an index of the group, and on every packet that carries a worker index it yields the
  worker the userspace router would have chosen. \<open>'e\<close> is the machine a selector runs on.
\<close>

locale kernel_selector =
  fixes select :: "'e \<Rightarrow> usize \<Rightarrow> u8 list \<Rightarrow> usize option"
    and machine_ok :: "'e \<Rightarrow> u8 list \<Rightarrow> bool"
  assumes select_total:
      "machine_ok e p \<Longrightarrow> 0 < n \<Longrightarrow> n < 2147483648 \<Longrightarrow> \<exists>i<n. select e n p = Some i"
    and select_agrees:
      "machine_ok e p \<Longrightarrow> 0 < n \<Longrightarrow> n < 2147483648 \<Longrightarrow> routable p \<Longrightarrow>
         select e n p = quic_worker_index p n"
begin

lemma select_probe:
  assumes "machine_ok e (quic_reuseport_probe_packet i)" and "i < n" and "n \<le> 65536"
  shows "select e n (quic_reuseport_probe_packet i) = Some i"
  using assms select_agrees [OF assms(1), of n] probe_packet_routable probe_packet_route
  by simp

text \<open>A packet reaches a handler when the kernel picks a worker and that worker's loop accepts it.\<close>

lemma handled_iff:
  assumes "machine_ok e p" and "0 < n" and "n < 2147483648"
  shows "select e n p = Some w \<and> quic_reuseport_bpf_accepts_packet p n \<longleftrightarrow>
           quic_worker_index p n = Some w"
  using assms select_agrees [OF assms] by (auto simp: quic_accepts_iff quic_worker_index_eq)

lemma select_generated:
  assumes "cid_generator_ok g" and "fill_keeps_length fill" and "generate fill g = Inr cid"
    and "worker_index g < n" and "n < 2147483648"
    and p: "p = short_packet flags cid rest \<or> p = long_packet flags version cid rest"
    and "machine_ok e p"
  shows "select e n p = Some (worker_index g)"
proof -
  have len: "2 \<le> length cid" "length cid \<le> 255"
    using assms(1) generate_ok(1) [OF assms(1-3)] by (simp_all add: cid_generator_ok_def)
  have be: "be16_at cid 0 mod n = worker_index g"
    using be16_generated [OF assms(1-3)] assms(4) by simp
  have r: "quic_worker_index p n = Some (worker_index g)"
    using len assms(4) p by (auto simp: short_packet_route long_packet_route be)
  then have "routable p" by (simp add: quic_worker_index_eq split: if_splits)
  with r assms(4,5,7) show ?thesis by (simp add: select_agrees)
qed

end

text \<open>Both programs satisfy it.\<close>

definition ebpf_select :: "u64 \<times> u64 \<times> regs \<Rightarrow> usize \<Rightarrow> u8 list \<Rightarrow> usize option" where
  "ebpf_select e n p =
     (case e of (ctx, data, regs) \<Rightarrow>
        map_option unat (ebpf_exec \<lparr>env_ctx = ctx, env_data = data, env_packet = p\<rparr> regs
          (quic_reuseport_ebpf n)))"

definition ebpf_machine_ok :: "u64 \<times> u64 \<times> regs \<Rightarrow> u8 list \<Rightarrow> bool" where
  "ebpf_machine_ok e p =
     (case e of (ctx, data, regs) \<Rightarrow> env_ok \<lparr>env_ctx = ctx, env_data = data, env_packet = p\<rparr>)"

definition cbpf_select :: "unit \<Rightarrow> usize \<Rightarrow> u8 list \<Rightarrow> usize option" where
  "cbpf_select e n p = map_option unat (cbpf_exec (quic_reuseport_cbpf n) p)"

lemma ebpf_select_eq:
  "ebpf_machine_ok e p \<Longrightarrow> 0 < n \<Longrightarrow> n < 2147483648 \<Longrightarrow> ebpf_select e n p = Some (ebpf_index p n)"
  by (cases e) (simp add: ebpf_select_def ebpf_machine_ok_def ebpf_exec_index)

lemma cbpf_select_eq: "0 < n \<Longrightarrow> n < 2147483648 \<Longrightarrow> cbpf_select e n p = Some (cbpf_index p n)"
  by (simp add: cbpf_select_def cbpf_exec_index)

interpretation ebpf_sel: kernel_selector ebpf_select ebpf_machine_ok
proof unfold_locales
  fix e p and n :: nat
  assume "ebpf_machine_ok e p" and n: "0 < n" "n < 2147483648"
  then have eq: "ebpf_select e n p = Some (ebpf_index p n)" by (rule ebpf_select_eq)
  show "\<exists>i<n. ebpf_select e n p = Some i"
    using n by (auto simp: eq ebpf_index_def)
  show "ebpf_select e n p = quic_worker_index p n" if "routable p"
    using that n by (auto simp: eq ebpf_index_def quic_worker_index_eq routable_def index_offset_def)
qed

interpretation cbpf_sel: kernel_selector cbpf_select "\<lambda>_ _. True"
proof unfold_locales
  fix e :: unit and p and n :: nat
  assume n: "0 < n" "n < 2147483648"
  then have eq: "cbpf_select () n p = Some (cbpf_index p n)" by (rule cbpf_select_eq)
  show "\<exists>i<n. cbpf_select e n p = Some i"
    using n by (auto simp: eq cbpf_index_def)
  show "cbpf_select e n p = quic_worker_index p n" if "routable p"
    using that n by (auto simp: eq cbpf_index_def quic_worker_index_eq routable_def index_offset_def)
qed

section \<open>Properties\<close>



text \<open>C3. So does the classic BPF program the server falls back to.\<close>

theorem cbpf_equals_userspace:
  assumes "0 < n" and "n < 2147483648"
  shows "(\<exists>i<n. cbpf_select () n p = Some i) \<and>
         (cbpf_select () n p = Some w \<and> quic_reuseport_bpf_accepts_packet p n \<longleftrightarrow>
            quic_worker_index p n = Some w)"
  using cbpf_sel.select_total [OF TrueI assms] cbpf_sel.handled_iff [OF TrueI assms] by blast

theorem cbpf_equals_userspace_witness:
  "cbpf_select () 3 [0x40, 0, 5, 1, 2, 3] = Some 2"
proof -
  have "quic_worker_index [0x40, 0, 5, 1, 2, 3] 3 = Some 2" by code_simp
  then show ?thesis
    using cbpf_equals_userspace [of 3 "[0x40, 0, 5, 1, 2, 3]" 2] by simp
qed

text \<open>The probe packet for worker \<open>i\<close>, which the server sends itself to test a selector, is sent
  to worker \<open>i\<close> by both programs and by the userspace router.\<close>

lemma probe_reaches_its_worker:
  assumes "i < n" and "n \<le> 65536" and "ebpf_machine_ok e (quic_reuseport_probe_packet i)"
  shows "ebpf_select e n (quic_reuseport_probe_packet i) = Some i \<and>
         cbpf_select () n (quic_reuseport_probe_packet i) = Some i \<and>
         quic_worker_index (quic_reuseport_probe_packet i) n = Some i"
  using assms ebpf_sel.select_probe cbpf_sel.select_probe probe_packet_route by simp

text \<open>Packets addressed to an id that worker \<open>i\<close> generated reach worker \<open>i\<close> in the kernel, with
  either program and either header form.\<close>

lemma generated_cid_routes_home_in_kernel:
  assumes "cid_generator_ok g" and "fill_keeps_length fill" and "generate fill g = Inr cid"
    and "worker_index g < n" and "n < 2147483648"
    and "p = short_packet flags cid rest \<or> p = long_packet flags version cid rest"
  shows "ebpf_machine_ok e p \<Longrightarrow> ebpf_select e n p = Some (worker_index g)"
    and "cbpf_select () n p = Some (worker_index g)"
  using ebpf_sel.select_generated [OF assms] cbpf_sel.select_generated [OF assms] by simp_all

end
