(* ===== verification/Os_World.thy ===== *)
theory Os_World
  imports Linux_Bpf Config "HOL-Library.State_Monad"
begin

text \<open>
  The operating system as the crate sees it. The crate calls it through \<open>socket2\<close>,
  \<open>std\<close> and \<open>libc\<close>, which are not part of the sources; here it is a parameter: a record
  of answers, each a function of every call made so far, newest first. Nothing is assumed of
  the answers unless a lemma says so. Code that calls the operating system is a state
  transformer that appends to the list of calls; \<open>io_try\<close> is the question-mark operator.
\<close>

section \<open>Calls and answers\<close>

type_synonym fd = nat

datatype Domain = DOMAIN_IPV4 | DOMAIN_IPV6
datatype SockType = STREAM | DGRAM
datatype Protocol = PROTO_TCP | PROTO_UDP

definition for_address :: "SocketAddr \<Rightarrow> Domain" where
  "for_address a = (if is_ipv4 a then DOMAIN_IPV4 else DOMAIN_IPV6)"

text \<open>The \<open>libc\<close> names of socket options, kept as names.\<close>

datatype sockopt_level = SOL_IP | SOL_IPV6
datatype sockopt_name = IP_ORIGDSTADDR | IP_FREEBIND | IPV6_RECVORIGDSTADDR | IPV6_FREEBIND

text \<open>
  The C structures of \<open>linux.rs\<close> that are passed to the kernel by address; a pointer field
  holds the data it points to.
\<close>

record SockFprog =
  fprog_len :: u16
  fprog_filter :: "SockFilter list"

record BpfProgLoadAttr =
  prog_type :: u32
  insn_cnt :: u32
  insns :: "BpfInsn list"
  license :: "u8 list"
  log_level :: u32
  log_size :: u32
  log_buf :: u64
  kern_version :: u32
  prog_flags :: u32
  prog_name :: "u8 list"
  prog_ifindex :: u32
  expected_attach_type :: u32

definition BpfProgLoadAttr_default :: BpfProgLoadAttr where
  "BpfProgLoadAttr_default =
     \<lparr>prog_type = 0, insn_cnt = 0, insns = [], license = [], log_level = 0, log_size = 0,
      log_buf = 0, kern_version = 0, prog_flags = 0, prog_name = replicate 16 0,
      prog_ifindex = 0, expected_attach_type = 0\<rparr>"

datatype os_call =
    SocketNew Domain SockType Protocol
  | InitCallback callback fd
  | SetReuseAddress fd bool
  | SetReusePort fd bool
  | SetIpTransparentV4 fd bool
  | SetIpTransparentV6 fd bool
  | SetSockOptInt fd sockopt_level sockopt_name int
  | SocketBind fd SocketAddr
  | SocketListen fd nat
  | SetNonblocking fd bool
  | LocalAddr fd
  | VarOs string
  | BpfSyscall int int BpfProgLoadAttr
  | SetSockOptFd fd int int fd
  | SetSockOptFprog fd int int SockFprog
  | CloseFd fd
  | UdpBind SocketAddr
  | SendTo fd "u8 list" SocketAddr
  | RecvFrom fd nat
  | InstantNow
  | Sleep nat
  | SystemTimeNow
  | TryClone fd
  | ShutdownBoth fd
  | TryCurrent
  | FromStd fd

record os =
  os_unit :: "os_call list \<Rightarrow> unit io_result"
  os_fd :: "os_call list \<Rightarrow> fd io_result"
  os_addr :: "os_call list \<Rightarrow> SocketAddr io_result"
  os_recv :: "os_call list \<Rightarrow> (u8 list \<times> SocketAddr) io_result"
  os_callback :: "os_call list \<Rightarrow> unit result"
  os_present :: "os_call list \<Rightarrow> bool"
  os_clock :: "os_call list \<Rightarrow> nat"
  os_size :: "os_call list \<Rightarrow> nat io_result"

record world =
  w_os :: os
  w_calls :: "os_call list"

type_synonym 'a io = "(world, 'a) state"

section \<open>Effects\<close>

text \<open>\<open>sys answer c\<close> makes the call \<open>c\<close>, then reads the answer off the calls made so far.\<close>

definition sys :: "(os \<Rightarrow> os_call list \<Rightarrow> 'a) \<Rightarrow> os_call \<Rightarrow> 'a io" where
  "sys answer c =
     State (\<lambda>w. let calls = c # w_calls w in (answer (w_os w) calls, w\<lparr>w_calls := calls\<rparr>))"

definition io_try :: "('e + 'a) io \<Rightarrow> ('a \<Rightarrow> ('e + 'b) io) \<Rightarrow> ('e + 'b) io" where
  "io_try m f =
     State_Monad.bind m (\<lambda>r. case r of Inl e \<Rightarrow> State_Monad.return (Inl e) | Inr x \<Rightarrow> f x)"

text \<open>\<open>.map_err(Error::from)\<close> and \<open>let _ = ...\<close>.\<close>

definition io_from :: "'a io_result io \<Rightarrow> 'a result io" where
  "io_from m = State_Monad.bind m (\<lambda>r. State_Monad.return (map_err error_from r))"

definition io_ignore :: "'a io \<Rightarrow> 'b io \<Rightarrow> 'b io" where
  "io_ignore m k = State_Monad.bind m (\<lambda>_. k)"

definition io_ok :: "'a \<Rightarrow> ('e + 'a) io" where
  "io_ok x = State_Monad.return (Inr x)"

definition io_err :: "'e \<Rightarrow> ('e + 'a) io" where
  "io_err e = State_Monad.return (Inl e)"

text \<open>\<open>logged cs w\<close> is the world after the calls \<open>cs\<close>, oldest first.\<close>

definition logged :: "os_call list \<Rightarrow> world \<Rightarrow> world" where
  "logged cs w = w\<lparr>w_calls := rev cs @ w_calls w\<rparr>"

lemma logged_simps [simp]:
  "logged [] w = w" "logged ds (logged cs w) = logged (cs @ ds) w"
  "w_os (logged cs w) = w_os w" "w_calls (logged cs w) = rev cs @ w_calls w"
  by (simp_all add: logged_def)

named_theorems io_simps

lemma run_sys [io_simps]:
  "run_state (sys answer c) w = (answer (w_os w) (c # w_calls w), logged [c] w)"
  by (simp add: sys_def logged_def Let_def)

lemma run_io_try [io_simps]:
  "run_state (io_try m f) w =
     (case run_state m w of (Inl e, w') \<Rightarrow> (Inl e, w') | (Inr x, w') \<Rightarrow> run_state (f x) w')"
  by (simp add: io_try_def split: prod.split sum.split)

lemma run_io_from [io_simps]:
  "run_state (io_from m) w = (case run_state m w of (r, w') \<Rightarrow> (map_err error_from r, w'))"
  by (simp add: io_from_def split: prod.split)

lemma run_io_ignore [io_simps]:
  "run_state (io_ignore m k) w = run_state k (snd (run_state m w))"
  by (simp add: io_ignore_def split: prod.split)

lemma run_io_ok [io_simps]: "run_state (io_ok x) w = (Inr x, w)"
  by (simp add: io_ok_def)

lemma run_io_err [io_simps]: "run_state (io_err e) w = (Inl e, w)"
  by (simp add: io_err_def)

text \<open>
  A run that succeeds went through both parts; a run that fails failed in one of them.
\<close>

lemma run_io_try_Inr:
  "run_state (io_try m f) w = (Inr y, w') \<longleftrightarrow>
     (\<exists>x w1. run_state m w = (Inr x, w1) \<and> run_state (f x) w1 = (Inr y, w'))"
  by (auto simp: io_simps split: prod.splits sum.splits)

lemma run_io_try_Inl:
  "run_state (io_try m f) w = (Inl e, w') \<longleftrightarrow>
     run_state m w = (Inl e, w') \<or>
     (\<exists>x w1. run_state m w = (Inr x, w1) \<and> run_state (f x) w1 = (Inl e, w'))"
  by (auto simp: io_simps split: prod.splits sum.splits)

lemma run_io_from_sys:
  "run_state (io_from (sys answer c)) w =
     (map_err error_from (answer (w_os w) (c # w_calls w)), logged [c] w)"
  by (simp add: io_simps)

lemma run_from_sys_Inr:
  "run_state (io_from (sys answer c)) w = (Inr x, w') \<longleftrightarrow>
     answer (w_os w) (c # w_calls w) = Inr x \<and> w' = logged [c] w"
  by (auto simp: run_io_from_sys result_simps)

text \<open>To take a run apart from its outcome, without unfolding \<open>io_try\<close>.\<close>

lemmas io_steps = run_sys run_io_from run_io_ignore run_io_ok run_io_err

section \<open>Only appending\<close>

text \<open>Every program built from these parts only adds calls to the log.\<close>

definition appends :: "'a io \<Rightarrow> (os_call \<Rightarrow> bool) \<Rightarrow> bool" where
  "appends m P \<longleftrightarrow> (\<forall>w. \<exists>cs. snd (run_state m w) = logged cs w \<and> list_all P cs)"

lemma appends_sys [intro]: "P c \<Longrightarrow> appends (sys answer c) P"
  unfolding appends_def by (auto simp: io_simps intro!: exI [of _ "[c]"])

lemma appends_pure [intro]: "appends (io_ok x) P" "appends (io_err e) P"
  unfolding appends_def by (auto simp: io_simps intro!: exI [of _ "[]"])

lemma appends_return [intro]: "appends (State_Monad.return x) P"
  unfolding appends_def by (auto intro!: exI [of _ "[]"])

lemma appendsE:
  assumes "appends m P" and "run_state m w = (r, w')"
  obtains cs where "w' = logged cs w" and "list_all P cs"
  using assms by (metis appends_def snd_conv)

lemma appends_bind:
  assumes m: "appends m P" and f: "\<And>x. appends (f x) P"
  shows "appends (State_Monad.bind m f) P"
  unfolding appends_def
proof
  fix w
  obtain x w1 where r: "run_state m w = (x, w1)" by fastforce
  obtain cs where cs: "w1 = logged cs w" "list_all P cs" by (rule appendsE [OF m r])
  obtain y w2 where r2: "run_state (f x) w1 = (y, w2)" by fastforce
  obtain ds where "w2 = logged ds w1" "list_all P ds" by (rule appendsE [OF f r2])
  with r r2 cs show "\<exists>cs. snd (run_state (State_Monad.bind m f) w) = logged cs w \<and> list_all P cs"
    by (intro exI [of _ "cs @ ds"]) simp
qed

lemma appends_from [intro]: "appends m P \<Longrightarrow> appends (io_from m) P"
  by (auto simp: io_from_def intro!: appends_bind)

lemma appends_ignore [intro]: "appends m P \<Longrightarrow> appends k P \<Longrightarrow> appends (io_ignore m k) P"
  by (auto simp: io_ignore_def intro!: appends_bind)

lemma appends_try [intro]:
  "appends m P \<Longrightarrow> (\<And>x. appends (f x) P) \<Longrightarrow> appends (io_try m f) P"
  by (auto simp: io_try_def intro!: appends_bind split: sum.split)

lemmas appends_combine = appends_from appends_ignore appends_try appends_pure appends_return

section \<open>A concrete system\<close>

text \<open>
  A system on which every call succeeds, to run the model on: descriptors are numbered by the
  length of the log, no datagram ever arrives, a callback fails when its number is 13.
\<close>

definition calm_os :: os where
  "calm_os =
     \<lparr>os_unit = (\<lambda>_. Inr ()),
      os_fd = (\<lambda>h. Inr (length h)),
      os_addr = (\<lambda>_. Inr (SocketAddrV4 (ipv4 127 0 0 1) 4433)),
      os_recv = (\<lambda>_. Inl \<lparr>error_kind = KindWouldBlock, error_text = ''would block''\<rparr>),
      os_callback = (\<lambda>h. case h of InitCallback cb s # _ \<Rightarrow>
          if cb = 13 then Inl (Handler ''refused'') else Inr () | _ \<Rightarrow> Inr ()),
      os_present = (\<lambda>_. False),
      os_clock = (\<lambda>h. sum_list (map (\<lambda>c. case c of Sleep n \<Rightarrow> n | _ \<Rightarrow> 0) h)),
      os_size = (\<lambda>h. case h of SendTo s d a # _ \<Rightarrow> Inr (length d) | _ \<Rightarrow> Inr 0)\<rparr>"

definition calm_world :: world where
  "calm_world = \<lparr>w_os = calm_os, w_calls = []\<rparr>"

lemmas calm_defs = calm_world_def calm_os_def

end
