(* ===== verification/Platform.thy ===== *)
theory Platform
  imports Os_World
begin

text \<open>
  Socket creation (\<open>src/platform\<close>: \<open>mod.rs\<close>, \<open>unix.rs\<close>, \<open>bsd.rs\<close>, \<open>windows.rs\<close> and the
  socket options of \<open>linux.rs\<close>). The module \<open>imp\<close> that conditional compilation selects is
  the argument \<open>t\<close>; a function of \<open>imp\<close> is a case distinction on it. Dropping a socket on an
  error path is left to Rust and is not a call of the model.
\<close>

datatype target = Linux | Android | Bsd | Windows

section \<open>unix.rs, bsd.rs, windows.rs\<close>

definition unix_set_reuse_port :: "fd \<Rightarrow> unit result io" where
  "unix_set_reuse_port socket = io_from (sys os_unit (SetReusePort socket True))"

definition bsd_set_reuse_port :: "fd \<Rightarrow> unit result io" where
  "bsd_set_reuse_port socket = unix_set_reuse_port socket"

definition bsd_apply_transparent :: "'c SocketConfig \<Rightarrow> fd \<Rightarrow> 'c \<Rightarrow> unit result io" where
  "bsd_apply_transparent sc socket config =
     (if ipv4_transparent (socket_options sc config) = Required \<or>
         ipv6_transparent (socket_options sc config) = Required
      then io_err (UnsupportedPlatformOption
             ''transparent sockets are only supported on Linux targets'')
      else io_ok ())"

definition bsd_supports_quic_reuseport_bpf :: bool where
  "bsd_supports_quic_reuseport_bpf = False"

definition bsd_supports_reuse_port_balancing :: bool where
  "bsd_supports_reuse_port_balancing = True"

definition windows_set_reuse_port :: "fd \<Rightarrow> unit result io" where
  "windows_set_reuse_port socket = io_ok ()"

definition windows_apply_transparent :: "'c SocketConfig \<Rightarrow> fd \<Rightarrow> 'c \<Rightarrow> unit result io" where
  "windows_apply_transparent sc socket config =
     (if ipv4_transparent (socket_options sc config) = Required \<or>
         ipv6_transparent (socket_options sc config) = Required
      then io_err (UnsupportedPlatformOption
             ''transparent sockets are only supported on Linux targets'')
      else io_ok ())"

definition windows_supports_quic_reuseport_bpf :: bool where
  "windows_supports_quic_reuseport_bpf = False"

definition windows_supports_reuse_port_balancing :: bool where
  "windows_supports_reuse_port_balancing = False"

section \<open>Socket options of linux.rs\<close>

definition linux_set_reuse_port :: "fd \<Rightarrow> unit result io" where
  "linux_set_reuse_port socket = unix_set_reuse_port socket"

definition set_socket_opt_int :: "fd \<Rightarrow> sockopt_level \<Rightarrow> sockopt_name \<Rightarrow> int \<Rightarrow> unit io_result io" where
  "set_socket_opt_int socket level name value = sys os_unit (SetSockOptInt socket level name value)"

definition apply_ipv4_transparent :: "'c SocketConfig \<Rightarrow> fd \<Rightarrow> 'c \<Rightarrow> unit result io" where
  "apply_ipv4_transparent sc socket config =
     (case ipv4_transparent (socket_options sc config) of
        Disabled \<Rightarrow> io_ok ()
      | BestEffort \<Rightarrow>
          if \<not> is_ipv4 (bind_addr sc config) then io_ok ()
          else
            io_ignore (sys os_unit (SetIpTransparentV4 socket True))
              (io_ignore (set_socket_opt_int socket SOL_IP IP_ORIGDSTADDR 1)
                (io_ignore (set_socket_opt_int socket SOL_IP IP_FREEBIND 1) (io_ok ())))
      | Required \<Rightarrow>
          if \<not> is_ipv4 (bind_addr sc config)
          then io_err (UnsupportedPlatformOption ''ipv4 transparent requires an IPv4 bind address'')
          else
            io_try (io_from (sys os_unit (SetIpTransparentV4 socket True))) (\<lambda>_.
            io_try (io_from (set_socket_opt_int socket SOL_IP IP_ORIGDSTADDR 1)) (\<lambda>_.
            io_from (set_socket_opt_int socket SOL_IP IP_FREEBIND 1))))"

definition apply_ipv6_transparent :: "'c SocketConfig \<Rightarrow> fd \<Rightarrow> 'c \<Rightarrow> unit result io" where
  "apply_ipv6_transparent sc socket config =
     (case ipv6_transparent (socket_options sc config) of
        Disabled \<Rightarrow> io_ok ()
      | BestEffort \<Rightarrow>
          if \<not> is_ipv6 (bind_addr sc config) then io_ok ()
          else
            io_ignore (sys os_unit (SetIpTransparentV6 socket True))
              (io_ignore (set_socket_opt_int socket SOL_IPV6 IPV6_RECVORIGDSTADDR 1)
                (io_ignore (set_socket_opt_int socket SOL_IPV6 IPV6_FREEBIND 1) (io_ok ())))
      | Required \<Rightarrow>
          if \<not> is_ipv6 (bind_addr sc config)
          then io_err (UnsupportedPlatformOption ''ipv6 transparent requires an IPv6 bind address'')
          else
            io_try (io_from (sys os_unit (SetIpTransparentV6 socket True))) (\<lambda>_.
            io_try (io_from (set_socket_opt_int socket SOL_IPV6 IPV6_RECVORIGDSTADDR 1)) (\<lambda>_.
            io_from (set_socket_opt_int socket SOL_IPV6 IPV6_FREEBIND 1))))"

definition linux_apply_transparent :: "'c SocketConfig \<Rightarrow> fd \<Rightarrow> 'c \<Rightarrow> unit result io" where
  "linux_apply_transparent sc socket config =
     io_try (apply_ipv4_transparent sc socket config) (\<lambda>_.
     io_try (apply_ipv6_transparent sc socket config) (\<lambda>_.
     io_ok ()))"

definition linux_supports_quic_reuseport_bpf :: "target \<Rightarrow> bool" where
  "linux_supports_quic_reuseport_bpf t \<longleftrightarrow> t = Linux"

definition linux_supports_reuse_port_balancing :: bool where
  "linux_supports_reuse_port_balancing = True"

section \<open>The selected module\<close>

definition set_reuse_port :: "target \<Rightarrow> fd \<Rightarrow> unit result io" where
  "set_reuse_port t =
     (case t of
        Linux \<Rightarrow> linux_set_reuse_port | Android \<Rightarrow> linux_set_reuse_port
      | Bsd \<Rightarrow> bsd_set_reuse_port | Windows \<Rightarrow> windows_set_reuse_port)"

definition apply_transparent :: "target \<Rightarrow> 'c SocketConfig \<Rightarrow> fd \<Rightarrow> 'c \<Rightarrow> unit result io" where
  "apply_transparent t =
     (case t of
        Linux \<Rightarrow> linux_apply_transparent | Android \<Rightarrow> linux_apply_transparent
      | Bsd \<Rightarrow> bsd_apply_transparent | Windows \<Rightarrow> windows_apply_transparent)"

definition supports_reuse_port_balancing :: "target \<Rightarrow> bool" where
  "supports_reuse_port_balancing t =
     (case t of
        Linux \<Rightarrow> linux_supports_reuse_port_balancing | Android \<Rightarrow> linux_supports_reuse_port_balancing
      | Bsd \<Rightarrow> bsd_supports_reuse_port_balancing | Windows \<Rightarrow> windows_supports_reuse_port_balancing)"

definition supports_quic_reuseport_bpf :: "target \<Rightarrow> bool" where
  "supports_quic_reuseport_bpf t =
     (case t of
        Linux \<Rightarrow> linux_supports_quic_reuseport_bpf t | Android \<Rightarrow> linux_supports_quic_reuseport_bpf t
      | Bsd \<Rightarrow> bsd_supports_quic_reuseport_bpf | Windows \<Rightarrow> windows_supports_quic_reuseport_bpf)"

section \<open>mod.rs\<close>

record PlatformCapabilities =
  reuse_port_balancing :: bool
  quic_reuseport_bpf :: bool

definition capabilities :: "target \<Rightarrow> PlatformCapabilities" where
  "capabilities t =
     \<lparr>reuse_port_balancing = supports_reuse_port_balancing t,
      quic_reuseport_bpf = supports_quic_reuseport_bpf t\<rparr>"

definition apply_common_options :: "target \<Rightarrow> 'c SocketConfig \<Rightarrow> fd \<Rightarrow> 'c \<Rightarrow> unit result io" where
  "apply_common_options t sc socket config =
     io_try (io_from (sys os_unit (SetReuseAddress socket (reuse_address (socket_options sc config))))) (\<lambda>_.
     io_try (set_reuse_port t socket) (\<lambda>_.
     io_try (apply_transparent t sc socket config) (\<lambda>_.
     io_ok ())))"

definition apply_socket_init_callback :: "'c SocketConfig \<Rightarrow> fd \<Rightarrow> 'c \<Rightarrow> unit result io" where
  "apply_socket_init_callback sc socket config =
     (case socket_init_callback sc config of
        None \<Rightarrow> io_ok ()
      | Some callback \<Rightarrow>
          State_Monad.bind (sys os_callback (InitCallback callback socket)) (\<lambda>r.
            State_Monad.return (map_err (\<lambda>error. SocketInitCallback (error_display error)) r)))"

definition bind_tcp :: "target \<Rightarrow> TcpServiceConfig \<Rightarrow> fd result io" where
  "bind_tcp t config =
     io_try (io_from (sys os_fd (SocketNew (for_address (tcp_bind_addr config)) STREAM PROTO_TCP))) (\<lambda>socket.
     io_try (apply_socket_init_callback tcp_socket_config socket config) (\<lambda>_.
     io_try (apply_common_options t tcp_socket_config socket config) (\<lambda>_.
     io_try (io_from (sys os_unit (SocketBind socket (tcp_bind_addr config)))) (\<lambda>_.
     io_try (io_from (sys os_unit (SocketListen socket 1024))) (\<lambda>_.
     io_try (io_from (sys os_unit (SetNonblocking socket True))) (\<lambda>_.
     io_ok socket))))))"

definition bind_udp :: "target \<Rightarrow> UdpServiceConfig \<Rightarrow> fd result io" where
  "bind_udp t config =
     io_try (io_from (sys os_fd (SocketNew (for_address (udp_bind_addr config)) DGRAM PROTO_UDP))) (\<lambda>socket.
     io_try (apply_socket_init_callback udp_socket_config socket config) (\<lambda>_.
     io_try (apply_common_options t udp_socket_config socket config) (\<lambda>_.
     io_try (io_from (sys os_unit (SocketBind socket (udp_bind_addr config)))) (\<lambda>_.
     io_try (io_from (sys os_unit (SetNonblocking socket True))) (\<lambda>_.
     io_ok socket)))))"

text \<open>\<open>(0..n).map(|_| m).collect()\<close> into a \<open>Result<Vec<_>, _>\<close>: the first error ends it.\<close>

fun io_collect :: "nat \<Rightarrow> ('e + 'a) io \<Rightarrow> ('e + 'a list) io" where
  "io_collect 0 m = io_ok []"
| "io_collect (Suc n) m = io_try m (\<lambda>x. io_try (io_collect n m) (\<lambda>xs. io_ok (x # xs)))"

definition bind_tcp_workers :: "target \<Rightarrow> TcpServiceConfig \<Rightarrow> usize \<Rightarrow> fd list result io" where
  "bind_tcp_workers t config workers =
     (if reuse_port_balancing (capabilities t) then io_collect workers (bind_tcp t config)
      else io_try (bind_tcp t config) (\<lambda>listener. io_ok [listener]))"

definition bind_udp_workers :: "target \<Rightarrow> UdpServiceConfig \<Rightarrow> usize \<Rightarrow> fd list result io" where
  "bind_udp_workers t config workers =
     (if reuse_port_balancing (capabilities t) then io_collect workers (bind_udp t config)
      else io_try (bind_udp t config) (\<lambda>socket. io_ok [socket]))"

section \<open>What a bound socket went through\<close>

text \<open>The calls of a successful bind, in order.\<close>

definition callback_calls :: "'c SocketConfig \<Rightarrow> fd \<Rightarrow> 'c \<Rightarrow> os_call list" where
  "callback_calls sc s config =
     (case socket_init_callback sc config of None \<Rightarrow> [] | Some cb \<Rightarrow> [InitCallback cb s])"

definition reuse_port_calls :: "target \<Rightarrow> fd \<Rightarrow> os_call list" where
  "reuse_port_calls t s = (if t = Windows then [] else [SetReusePort s True])"

definition v4_calls :: "'c SocketConfig \<Rightarrow> fd \<Rightarrow> 'c \<Rightarrow> os_call list" where
  "v4_calls sc s config =
     (if ipv4_transparent (socket_options sc config) \<noteq> Disabled \<and> is_ipv4 (bind_addr sc config)
      then [SetIpTransparentV4 s True, SetSockOptInt s SOL_IP IP_ORIGDSTADDR 1,
            SetSockOptInt s SOL_IP IP_FREEBIND 1]
      else [])"

definition v6_calls :: "'c SocketConfig \<Rightarrow> fd \<Rightarrow> 'c \<Rightarrow> os_call list" where
  "v6_calls sc s config =
     (if ipv6_transparent (socket_options sc config) \<noteq> Disabled \<and> is_ipv6 (bind_addr sc config)
      then [SetIpTransparentV6 s True, SetSockOptInt s SOL_IPV6 IPV6_RECVORIGDSTADDR 1,
            SetSockOptInt s SOL_IPV6 IPV6_FREEBIND 1]
      else [])"

definition transparent_calls :: "target \<Rightarrow> 'c SocketConfig \<Rightarrow> fd \<Rightarrow> 'c \<Rightarrow> os_call list" where
  "transparent_calls t sc s config =
     (if t = Linux \<or> t = Android then v4_calls sc s config @ v6_calls sc s config else [])"

definition option_calls :: "target \<Rightarrow> 'c SocketConfig \<Rightarrow> fd \<Rightarrow> 'c \<Rightarrow> os_call list" where
  "option_calls t sc s config =
     SetReuseAddress s (reuse_address (socket_options sc config)) #
     reuse_port_calls t s @ transparent_calls t sc s config"

text \<open>The system accepted the calls \<open>cs\<close>, made one after the other from the log \<open>h\<close>.\<close>

fun accepted :: "os \<Rightarrow> os_call list \<Rightarrow> os_call list \<Rightarrow> bool" where
  "accepted os h [] \<longleftrightarrow> True"
| "accepted os h (c # cs) \<longleftrightarrow> os_unit os (c # h) = Inr () \<and> accepted os (c # h) cs"

lemma accepted_append [simp]:
  "accepted os h (cs @ ds) \<longleftrightarrow> accepted os h cs \<and> accepted os (rev cs @ h) ds"
  by (induction cs arbitrary: h) auto

text \<open>Modes that leave nothing to chance: every option call must have been accepted.\<close>

definition required_ok :: "target \<Rightarrow> 'c SocketConfig \<Rightarrow> fd \<Rightarrow> 'c \<Rightarrow> os \<Rightarrow> os_call list \<Rightarrow> bool" where
  "required_ok t sc s config os h \<longleftrightarrow>
     (ipv4_transparent (socket_options sc config) = Required \<longrightarrow>
        (t = Linux \<or> t = Android) \<and> is_ipv4 (bind_addr sc config) \<and>
        accepted os h (v4_calls sc s config)) \<and>
     (ipv6_transparent (socket_options sc config) = Required \<longrightarrow>
        (t = Linux \<or> t = Android) \<and> is_ipv6 (bind_addr sc config) \<and>
        accepted os (rev (v4_calls sc s config) @ h) (v6_calls sc s config))"

lemmas transparent_defs =
  apply_ipv4_transparent_def apply_ipv6_transparent_def linux_apply_transparent_def
  bsd_apply_transparent_def windows_apply_transparent_def apply_transparent_def set_socket_opt_int_def

lemma run_v4_ok:
  assumes "run_state (apply_ipv4_transparent sc s config) w = (Inr u, w')"
  shows "w' = logged (v4_calls sc s config) w"
    and "ipv4_transparent (socket_options sc config) = Required \<Longrightarrow>
      is_ipv4 (bind_addr sc config) \<and> accepted (w_os w) (w_calls w) (v4_calls sc s config)"
  using assms
  by (auto simp: apply_ipv4_transparent_def v4_calls_def set_socket_opt_int_def io_simps result_simps
      split: TransparentMode.splits if_splits prod.splits sum.splits)

lemma run_v6_ok:
  assumes "run_state (apply_ipv6_transparent sc s config) w = (Inr u, w')"
  shows "w' = logged (v6_calls sc s config) w"
    and "ipv6_transparent (socket_options sc config) = Required \<Longrightarrow>
      is_ipv6 (bind_addr sc config) \<and> accepted (w_os w) (w_calls w) (v6_calls sc s config)"
  using assms
  by (auto simp: apply_ipv6_transparent_def v6_calls_def set_socket_opt_int_def io_simps result_simps
      split: TransparentMode.splits if_splits prod.splits sum.splits)

lemma run_linux_transparent_ok:
  assumes "run_state (linux_apply_transparent sc s config) w = (Inr u, w')"
  shows "w' = logged (v4_calls sc s config @ v6_calls sc s config) w"
    and "t = Linux \<or> t = Android \<Longrightarrow> required_ok t sc s config (w_os w) (w_calls w)"
proof -
  obtain w1 where v4: "run_state (apply_ipv4_transparent sc s config) w = (Inr (), w1)"
    and v6: "run_state (apply_ipv6_transparent sc s config) w1 = (Inr (), w')"
    using assms by (auto simp: linux_apply_transparent_def run_io_try_Inr run_io_ok run_io_err)
  show "w' = logged (v4_calls sc s config @ v6_calls sc s config) w"
    using run_v4_ok(1) [OF v4] run_v6_ok(1) [OF v6] by simp
  show "required_ok t sc s config (w_os w) (w_calls w)" if "t = Linux \<or> t = Android"
    using run_v4_ok [OF v4] run_v6_ok [OF v6] that by (auto simp: required_ok_def)
qed

lemma run_transparent_ok:
  assumes "run_state (apply_transparent t sc s config) w = (Inr u, w')"
  shows "w' = logged (transparent_calls t sc s config) w \<and>
         required_ok t sc s config (w_os w) (w_calls w)"
proof (cases "t = Linux \<or> t = Android")
  case True
  with assms have "run_state (linux_apply_transparent sc s config) w = (Inr u, w')"
    by (auto simp: apply_transparent_def)
  from run_linux_transparent_ok [OF this] True show ?thesis by (simp add: transparent_calls_def)
next
  case False
  with assms show ?thesis
    by (cases t)
      (auto simp: apply_transparent_def transparent_calls_def required_ok_def
        bsd_apply_transparent_def windows_apply_transparent_def io_simps split: if_splits)
qed

lemma run_set_reuse_port_ok:
  assumes "run_state (set_reuse_port t s) w = (Inr u, w')"
  shows "w' = logged (reuse_port_calls t s) w"
  using assms
  by (cases t)
    (auto simp: set_reuse_port_def reuse_port_calls_def linux_set_reuse_port_def bsd_set_reuse_port_def
      windows_set_reuse_port_def unix_set_reuse_port_def io_simps)

lemma run_common_options_ok:
  assumes "run_state (apply_common_options t sc s config) w = (Inr u, w')"
  shows "w' = logged (option_calls t sc s config) w \<and>
         required_ok t sc s config (w_os w)
           (rev (SetReuseAddress s (reuse_address (socket_options sc config)) # reuse_port_calls t s)
              @ w_calls w)"
proof -
  let ?ra = "SetReuseAddress s (reuse_address (socket_options sc config))"
  obtain w2 where p: "run_state (set_reuse_port t s) (logged [?ra] w) = (Inr (), w2)"
    and tr: "run_state (apply_transparent t sc s config) w2 = (Inr (), w')"
    using assms by (auto simp: apply_common_options_def run_io_try_Inr io_steps)
  from run_set_reuse_port_ok [OF p] run_transparent_ok [OF tr] show ?thesis
    by (simp add: option_calls_def)
qed

lemma run_init_callback:
  "run_state (apply_socket_init_callback sc s config) w =
     (case socket_init_callback sc config of
        None \<Rightarrow> (Inr (), w)
      | Some cb \<Rightarrow>
          (map_err (\<lambda>error. SocketInitCallback (error_display error))
             (os_callback (w_os w) (InitCallback cb s # w_calls w)), logged [InitCallback cb s] w))"
  by (simp add: apply_socket_init_callback_def io_simps split: option.split)

lemma run_init_callback_ok:
  "run_state (apply_socket_init_callback sc s config) w = (Inr u, w') \<Longrightarrow>
     w' = logged (callback_calls sc s config) w"
  by (auto simp: run_init_callback callback_calls_def split: option.splits)

section \<open>Errors of the parts\<close>

text \<open>Setting options fails only with an error of the system or an unsupported option.\<close>

definition option_error :: "Error \<Rightarrow> bool" where
  "option_error e \<longleftrightarrow> (\<exists>m. e = UnsupportedPlatformOption m) \<or> (\<exists>io. e = error_from io)"

lemma option_error_from [simp]: "option_error (error_from e)"
  by (auto simp: option_error_def)

lemma run_from_sys_err:
  "run_state (io_from (sys answer c)) w = (Inl e, w') \<Longrightarrow> option_error e"
  by (auto simp: run_io_from_sys result_simps)

lemma run_transparent_err:
  assumes "run_state (apply_transparent t sc s config) w = (Inl e, w')"
  shows "option_error e"
proof -
  have v4: "option_error e" if "run_state (apply_ipv4_transparent sc s config) w = (Inl e, w')" for w w'
    using that
    by (auto simp: apply_ipv4_transparent_def set_socket_opt_int_def run_io_try_Inl io_steps(3-5)
        option_error_def dest: run_from_sys_err [unfolded option_error_def]
        split: TransparentMode.splits if_splits)
  have v6: "option_error e" if "run_state (apply_ipv6_transparent sc s config) w = (Inl e, w')" for w w'
    using that
    by (auto simp: apply_ipv6_transparent_def set_socket_opt_int_def run_io_try_Inl io_steps(3-5)
        option_error_def dest: run_from_sys_err [unfolded option_error_def]
        split: TransparentMode.splits if_splits)
  have linux: "option_error e" if "run_state (linux_apply_transparent sc s config) w = (Inl e, w')"
    using that v4 v6 by (auto simp: linux_apply_transparent_def run_io_try_Inl run_io_ok run_io_err)
  show ?thesis
    using assms linux
    by (cases t)
      (auto simp: apply_transparent_def bsd_apply_transparent_def windows_apply_transparent_def
        io_simps option_error_def split: if_splits)
qed

lemma run_common_options_err:
  assumes "run_state (apply_common_options t sc s config) w = (Inl e, w')"
  shows "option_error e"
  using assms run_transparent_err run_from_sys_err
  by (cases t)
    (auto simp: apply_common_options_def run_io_try_Inl run_io_ok run_io_err set_reuse_port_def
      linux_set_reuse_port_def bsd_set_reuse_port_def windows_set_reuse_port_def
      unix_set_reuse_port_def)

lemma option_error_not_callback [simp]: "\<not> option_error (SocketInitCallback m)"
  by (simp add: option_error_def) (metis error_from_not_config(4))

section \<open>The binding contract\<close>

text \<open>
  What the servers rely on when they bind: a socket that was handed out went through exactly
  these calls in this order (create, initialise, set options, finish), every required option was
  accepted, and when the initialisation callback fails nothing else is done to the socket.
\<close>

definition before_transparent :: "target \<Rightarrow> 'c SocketConfig \<Rightarrow> os_call \<Rightarrow> fd \<Rightarrow> 'c \<Rightarrow> os_call list" where
  "before_transparent t sc create s config =
     create # callback_calls sc s config @
     SetReuseAddress s (reuse_address (socket_options sc config)) # reuse_port_calls t s"

definition bind_calls ::
    "target \<Rightarrow> 'c SocketConfig \<Rightarrow> os_call \<Rightarrow> os_call list \<Rightarrow> fd \<Rightarrow> 'c \<Rightarrow> os_call list" where
  "bind_calls t sc create finish s config =
     before_transparent t sc create s config @ transparent_calls t sc s config @ finish"

locale socket_binder =
  fixes t :: target and sc :: "'c SocketConfig" and bind :: "'c \<Rightarrow> fd result io"
    and create :: "'c \<Rightarrow> os_call" and finish :: "fd \<Rightarrow> 'c \<Rightarrow> os_call list"
  assumes bind_ok: "run_state (bind config) w = (Inr s, w') \<Longrightarrow>
      w' = logged (bind_calls t sc (create config) (finish s config) s config) w \<and>
      required_ok t sc s config (w_os w)
        (rev (before_transparent t sc (create config) s config) @ w_calls w)"
    and bind_callback_err: "run_state (bind config) w = (Inl (SocketInitCallback m), w') \<Longrightarrow>
      \<exists>cb s e. socket_init_callback sc config = Some cb \<and>
        os_callback (w_os w) (InitCallback cb s # create config # w_calls w) = Inl e \<and>
        m = error_display e \<and> w' = logged [create config, InitCallback cb s] w"
begin

lemma collect_ok:
  "run_state (io_collect n (bind config)) w = (Inr ss, w') \<Longrightarrow>
     length ss = n \<and>
     w' = logged (concat (map (\<lambda>s. bind_calls t sc (create config) (finish s config) s config) ss)) w"
proof (induction n arbitrary: w w' ss)
  case 0
  then show ?case by (simp add: io_steps)
next
  case (Suc n)
  then obtain s w1 rest where b: "run_state (bind config) w = (Inr s, w1)"
    and c: "run_state (io_collect n (bind config)) w1 = (Inr rest, w')" and ss: "ss = s # rest"
    by (auto simp: run_io_try_Inr io_steps)
  from bind_ok [OF b] Suc.IH [OF c] ss show ?case by simp
qed

lemma required_mode_ok:
  assumes "run_state (bind config) w = (Inr s, w')"
    and "ipv4_transparent (socket_options sc config) = Required \<or>
         ipv6_transparent (socket_options sc config) = Required"
  shows "t = Linux \<or> t = Android"
  using bind_ok [OF assms(1)] assms(2) by (auto simp: required_ok_def)

end

definition tcp_create :: "TcpServiceConfig \<Rightarrow> os_call" where
  "tcp_create config = SocketNew (for_address (tcp_bind_addr config)) STREAM PROTO_TCP"

definition tcp_finish :: "fd \<Rightarrow> TcpServiceConfig \<Rightarrow> os_call list" where
  "tcp_finish s config =
     [SocketBind s (tcp_bind_addr config), SocketListen s 1024, SetNonblocking s True]"

definition udp_create :: "UdpServiceConfig \<Rightarrow> os_call" where
  "udp_create config = SocketNew (for_address (udp_bind_addr config)) DGRAM PROTO_UDP"

definition udp_finish :: "fd \<Rightarrow> UdpServiceConfig \<Rightarrow> os_call list" where
  "udp_finish s config = [SocketBind s (udp_bind_addr config), SetNonblocking s True]"

lemma run_prepared_ok:
  assumes "run_state (apply_socket_init_callback sc s config) (logged [create] w) = (Inr u, w1)"
    and "run_state (apply_common_options t sc s config) w1 = (Inr v, w2)"
  shows "w2 = logged (bind_calls t sc create [] s config) w \<and>
         required_ok t sc s config (w_os w) (rev (before_transparent t sc create s config) @ w_calls w)"
  using run_init_callback_ok [OF assms(1)] run_common_options_ok [OF assms(2)]
  by (simp add: bind_calls_def before_transparent_def option_calls_def)

lemma run_callback_failed:
  assumes "run_state (apply_socket_init_callback sc s config) (logged [create] w) =
             (Inl (SocketInitCallback m), w')"
  shows "\<exists>cb s e. socket_init_callback sc config = Some cb \<and>
        os_callback (w_os w) (InitCallback cb s # create # w_calls w) = Inl e \<and>
        m = error_display e \<and> w' = logged [create, InitCallback cb s] w"
  using assms by (auto simp: run_init_callback result_simps split: option.splits)

lemma not_callback_err [simp]:
  "run_state (io_from (sys answer c)) w \<noteq> (Inl (SocketInitCallback m), w')"
  "run_state (apply_common_options t sc s config) w \<noteq> (Inl (SocketInitCallback m), w')"
  by (auto dest: run_from_sys_err run_common_options_err)

interpretation tcp_binder: socket_binder t tcp_socket_config "bind_tcp t" tcp_create tcp_finish
  for t
proof unfold_locales
  fix config s w w'
  assume "run_state (bind_tcp t config) w = (Inr s, w')"
  then obtain w1 w2 where
      c: "run_state (apply_socket_init_callback tcp_socket_config s config)
            (logged [tcp_create config] w) = (Inr (), w1)"
    and o: "run_state (apply_common_options t tcp_socket_config s config) w1 = (Inr (), w2)"
    and w': "w' = logged (tcp_finish s config) w2"
    by (auto simp: bind_tcp_def run_io_try_Inr run_from_sys_Inr run_io_ok tcp_create_def tcp_finish_def)
  from run_prepared_ok [OF c o] w'
  show "w' = logged (bind_calls t tcp_socket_config (tcp_create config) (tcp_finish s config) s config) w \<and>
      required_ok t tcp_socket_config s config (w_os w)
        (rev (before_transparent t tcp_socket_config (tcp_create config) s config) @ w_calls w)"
    by (simp add: bind_calls_def)
next
  fix config m w w'
  assume "run_state (bind_tcp t config) w = (Inl (SocketInitCallback m), w')"
  then obtain s where "run_state (apply_socket_init_callback tcp_socket_config s config)
      (logged [tcp_create config] w) = (Inl (SocketInitCallback m), w')"
    by (auto simp: bind_tcp_def run_io_try_Inl run_io_ok run_from_sys_Inr tcp_create_def)
  then show "\<exists>cb s e. socket_init_callback tcp_socket_config config = Some cb \<and>
      os_callback (w_os w) (InitCallback cb s # tcp_create config # w_calls w) = Inl e \<and>
      m = error_display e \<and> w' = logged [tcp_create config, InitCallback cb s] w"
    by (rule run_callback_failed)
qed

interpretation udp_binder: socket_binder t udp_socket_config "bind_udp t" udp_create udp_finish
  for t
proof unfold_locales
  fix config s w w'
  assume "run_state (bind_udp t config) w = (Inr s, w')"
  then obtain w1 w2 where
      c: "run_state (apply_socket_init_callback udp_socket_config s config)
            (logged [udp_create config] w) = (Inr (), w1)"
    and o: "run_state (apply_common_options t udp_socket_config s config) w1 = (Inr (), w2)"
    and w': "w' = logged (udp_finish s config) w2"
    by (auto simp: bind_udp_def run_io_try_Inr run_from_sys_Inr run_io_ok udp_create_def udp_finish_def)
  from run_prepared_ok [OF c o] w'
  show "w' = logged (bind_calls t udp_socket_config (udp_create config) (udp_finish s config) s config) w \<and>
      required_ok t udp_socket_config s config (w_os w)
        (rev (before_transparent t udp_socket_config (udp_create config) s config) @ w_calls w)"
    by (simp add: bind_calls_def)
next
  fix config m w w'
  assume "run_state (bind_udp t config) w = (Inl (SocketInitCallback m), w')"
  then obtain s where "run_state (apply_socket_init_callback udp_socket_config s config)
      (logged [udp_create config] w) = (Inl (SocketInitCallback m), w')"
    by (auto simp: bind_udp_def run_io_try_Inl run_io_ok run_from_sys_Inr udp_create_def)
  then show "\<exists>cb s e. socket_init_callback udp_socket_config config = Some cb \<and>
      os_callback (w_os w) (InitCallback cb s # udp_create config # w_calls w) = Inl e \<and>
      m = error_display e \<and> w' = logged [udp_create config, InitCallback cb s] w"
    by (rule run_callback_failed)
qed

section \<open>Properties\<close>

text \<open>C18. Binding for \<open>n\<close> workers yields \<open>n\<close> UDP sockets where the platform balances a shared port and
  one elsewhere, and each went through create, callback, address reuse, port reuse, transparency,
  bind and non-blocking mode in this order, with no other call in between.\<close>

theorem udp_workers_bound:
  assumes "run_state (bind_udp_workers t config n) w = (Inr ss, w')"
  shows "length ss = (if t = Windows then 1 else n) \<and>
         w' = logged (concat (map (\<lambda>s. bind_calls t udp_socket_config (udp_create config)
                (udp_finish s config) s config) ss)) w"
proof (cases "t = Windows")
  case True
  with assms obtain s where "run_state (bind_udp t config) w = (Inr s, w')" "ss = [s]"
    by (auto simp: bind_udp_workers_def capabilities_def supports_reuse_port_balancing_def
        windows_supports_reuse_port_balancing_def run_io_try_Inr run_io_ok)
  with udp_binder.bind_ok True show ?thesis by simp
next
  case False
  with assms have "run_state (io_collect n (bind_udp t config)) w = (Inr ss, w')"
    by (cases t) (simp_all add: bind_udp_workers_def capabilities_def supports_reuse_port_balancing_def
        linux_supports_reuse_port_balancing_def bsd_supports_reuse_port_balancing_def)
  with udp_binder.collect_ok False show ?thesis by simp
qed

theorem udp_workers_bound_witness:
  "\<exists>ss w'. run_state (bind_udp_workers Linux (udp_config_new (SocketAddrV4 0 53)) 2) calm_world = (Inr ss, w') \<and>
     length ss = 2 \<and> length (w_calls w') = 10"
proof -
  let ?c = "udp_config_new (SocketAddrV4 0 53)"
  obtain ss w' where r: "run_state (bind_udp_workers Linux ?c 2) calm_world = (Inr ss, w')"
    by (simp add: bind_udp_workers_def capabilities_def supports_reuse_port_balancing_def
        linux_supports_reuse_port_balancing_def numeral_2_eq_2 bind_udp_def apply_common_options_def
        apply_socket_init_callback_def set_reuse_port_def linux_set_reuse_port_def
        unix_set_reuse_port_def transparent_defs udp_socket_config_def config_simps io_simps calm_defs)
  from udp_workers_bound [OF r]
  have len: "length ss = 2" and w': "w' = logged (concat (map (\<lambda>s. bind_calls Linux udp_socket_config
      (udp_create ?c) (udp_finish s ?c) s ?c) ss)) calm_world" by simp_all
  from len obtain a b where "ss = [a, b]" by (auto simp: numeral_2_eq_2 length_Suc_conv)
  with w' have "length (w_calls w') = 10"
    by (simp add: bind_calls_def before_transparent_def transparent_calls_def v4_calls_def v6_calls_def
        callback_calls_def reuse_port_calls_def udp_finish_def udp_socket_config_def config_simps
        calm_world_def)
  with r len show ?thesis by blast
qed

text \<open>C19. A socket whose configuration requires transparency is handed out only on Linux and Android, for
  an address of that family, and after the system accepted all three of its options.\<close>

theorem required_transparency_enforced:
  assumes "run_state (bind_tcp t config) w = (Inr s, w')"
    and "ipv4_transparent (tcp_socket_options config) = Required"
  shows "(t = Linux \<or> t = Android) \<and> is_ipv4 (tcp_bind_addr config) \<and>
         accepted (w_os w)
           (rev (before_transparent t tcp_socket_config (tcp_create config) s config) @ w_calls w)
           [SetIpTransparentV4 s True, SetSockOptInt s SOL_IP IP_ORIGDSTADDR 1,
            SetSockOptInt s SOL_IP IP_FREEBIND 1]"
  using tcp_binder.bind_ok [OF assms(1)] assms(2)
  by (auto simp: required_ok_def tcp_socket_config_def v4_calls_def)

theorem required_transparency_enforced_witness:
  "\<exists>s w'. run_state (bind_tcp Android (tcp_with_socket_options (tcp_config_new (SocketAddrV4 0 53))
       (SocketOptions_default\<lparr>ipv4_transparent := Required\<rparr>))) calm_world = (Inr s, w') \<and>
     accepted calm_os
       (rev (before_transparent Android tcp_socket_config
          (tcp_create (tcp_config_new (SocketAddrV4 0 53))) s (tcp_config_new (SocketAddrV4 0 53))))
       [SetIpTransparentV4 s True, SetSockOptInt s SOL_IP IP_ORIGDSTADDR 1,
        SetSockOptInt s SOL_IP IP_FREEBIND 1]"
proof -
  let ?c = "tcp_with_socket_options (tcp_config_new (SocketAddrV4 0 53))
       (SocketOptions_default\<lparr>ipv4_transparent := Required\<rparr>)"
  obtain s w' where r: "run_state (bind_tcp Android ?c) calm_world = (Inr s, w')"
    by (simp add: bind_tcp_def apply_common_options_def apply_socket_init_callback_def
        set_reuse_port_def linux_set_reuse_port_def unix_set_reuse_port_def transparent_defs
        tcp_socket_config_def config_simps io_simps calm_defs)
  have "ipv4_transparent (tcp_socket_options ?c) = Required" by (simp add: config_simps)
  from required_transparency_enforced [OF r this] r show ?thesis
    by (auto simp: before_transparent_def callback_calls_def tcp_create_def tcp_socket_config_def
        config_simps calm_world_def)
qed

text \<open>When the initialisation callback fails, its error text is reported as a callback error and the
  socket has been created and nothing more: no option was set and it was not bound.\<close>

lemma failed_callback_stops_bind:
  assumes "run_state (bind_udp t config) w = (Inl (SocketInitCallback m), w')"
  shows "\<exists>cb s e. udp_socket_init_callback config = Some cb \<and>
      os_callback (w_os w) (InitCallback cb s # udp_create config # w_calls w) = Inl e \<and>
      m = error_display e \<and> w' = logged [udp_create config, InitCallback cb s] w"
  using udp_binder.bind_callback_err [OF assms] by (simp add: udp_socket_config_def)

end
