(* ===== verification/Deploy.thy ===== *)
theory Deploy
  imports Server_Runtime Platform
begin

text \<open>
  What the three servers have in common when they are set up and torn down: locks around the
  registries of a server, the submission of a list of tasks to the workers of the runtime with
  registration of their handles, and cancellation. A handle refers to the executor it came from,
  so it carries the worker's index. A step of a server acts on the operating system, the runtime
  and the server's own state.
\<close>

section \<open>State\<close>

text \<open>A \<open>Mutex\<close>; locking it fails once a thread has panicked while holding it.\<close>

record 'a mutex =
  mx_value :: 'a
  mx_poisoned :: bool

definition mutex_new :: "'a \<Rightarrow> 'a mutex" where
  "mutex_new x = \<lparr>mx_value = x, mx_poisoned = False\<rparr>"

definition lock :: "'e \<Rightarrow> 'a mutex \<Rightarrow> 'e + 'a" where
  "lock e m = (if mx_poisoned m then Inl e else Inr (mx_value m))"

lemma lock_simps [simp]:
  "lock e (mutex_new x) = Inr x" "mx_poisoned (mutex_new x) = False" "mx_value (mutex_new x) = x"
  "\<not> mx_poisoned m \<Longrightarrow> lock e m = Inr (mx_value m)"
  by (simp_all add: lock_def mutex_new_def)

type_synonym 'h TaskHandle = "usize \<times> 'h"

record ('ex, 'sv) deployment =
  d_world :: world
  d_runtime :: "'ex ServerRuntime"
  d_server :: 'sv

type_synonym ('ex, 'sv, 'a) dep = "(('ex, 'sv) deployment, 'a) state"

definition on_world :: "'a io \<Rightarrow> ('ex, 'sv, 'a) dep" where
  "on_world m = State (\<lambda>d. case run_state m (d_world d) of (x, w) \<Rightarrow> (x, d\<lparr>d_world := w\<rparr>))"

definition on_server :: "('sv \<Rightarrow> 'a \<times> 'sv) \<Rightarrow> ('ex, 'sv, 'a) dep" where
  "on_server f = State (\<lambda>d. case f (d_server d) of (x, sv) \<Rightarrow> (x, d\<lparr>d_server := sv\<rparr>))"

definition attempt :: "('s, 'e + 'a) state \<Rightarrow> ('a \<Rightarrow> ('s, 'e + 'b) state) \<Rightarrow> ('s, 'e + 'b) state" where
  "attempt m f =
     State_Monad.bind m (\<lambda>r. case r of Inl e \<Rightarrow> State_Monad.return (Inl e) | Inr x \<Rightarrow> f x)"

definition with_runtime :: "('ex ServerRuntime \<Rightarrow> ('ex, 'sv, 'a) dep) \<Rightarrow> ('ex, 'sv, 'a) dep" where
  "with_runtime f = State (\<lambda>d. run_state (f (d_runtime d)) d)"

text \<open>Both runtimes can simulate balancing in user space.\<close>

definition SUPPORTS_USERSPACE_REUSEPORT_SIMULATION :: bool where
  "SUPPORTS_USERSPACE_REUSEPORT_SIMULATION = True"

section \<open>Submitting and cancelling\<close>

definition submit ::
    "(bool \<Rightarrow> 't \<Rightarrow> 'ex \<Rightarrow> 'h io_result \<times> 'ex) \<Rightarrow> nat \<Rightarrow> usize \<Rightarrow> 't \<Rightarrow>
     ('ex, 'sv, 'h TaskHandle result) dep" where
  "submit spawn current worker_id task =
     State (\<lambda>d. case submit_to_worker spawn current worker_id task (d_runtime d) of
       (r, rt) \<Rightarrow> (map_ok (\<lambda>h. (worker_id, h)) r, d\<lparr>d_runtime := rt\<rparr>))"

text \<open>The loop that submits one task after the other and registers the handles.\<close>

fun submit_all ::
    "(bool \<Rightarrow> 't \<Rightarrow> 'ex \<Rightarrow> 'h io_result \<times> 'ex) \<Rightarrow> nat \<Rightarrow>
     ('h TaskHandle \<Rightarrow> 'sv \<Rightarrow> unit result \<times> 'sv) \<Rightarrow> (usize \<times> 't) list \<Rightarrow> ('ex, 'sv, unit result) dep" where
  "submit_all spawn current register [] = State_Monad.return (Inr ())"
| "submit_all spawn current register ((worker_id, task) # ts) =
     attempt (submit spawn current worker_id task) (\<lambda>h.
     attempt (on_server (register h)) (\<lambda>_.
     submit_all spawn current register ts))"

definition cancel_task :: "('h \<Rightarrow> 'ex \<Rightarrow> 'ex) \<Rightarrow> 'h TaskHandle \<Rightarrow> 'ex ServerRuntime \<Rightarrow> 'ex ServerRuntime" where
  "cancel_task do_cancel h rt =
     (case h of (i, k) \<Rightarrow>
        if i < length (rt_workers rt)
        then rt\<lparr>rt_workers := (rt_workers rt)
               [i := (rt_workers rt ! i)\<lparr>wh_executor := do_cancel k (wh_executor (rt_workers rt ! i))\<rparr>]\<rparr>
        else rt)"

definition cancel_all :: "('h \<Rightarrow> 'ex \<Rightarrow> 'ex) \<Rightarrow> 'h TaskHandle list \<Rightarrow> 'ex ServerRuntime \<Rightarrow> 'ex ServerRuntime" where
  "cancel_all do_cancel hs rt = fold (cancel_task do_cancel) hs rt"

section \<open>Lemmas\<close>

named_theorems dep_simps

lemma run_attempt [dep_simps]:
  "run_state (attempt m f) s =
     (case run_state m s of (Inl e, s') \<Rightarrow> (Inl e, s') | (Inr x, s') \<Rightarrow> run_state (f x) s')"
  by (simp add: attempt_def split: prod.split sum.split)

lemma run_on [dep_simps]:
  "run_state (on_world m) d = (case run_state m (d_world d) of (x, w) \<Rightarrow> (x, d\<lparr>d_world := w\<rparr>))"
  "run_state (on_server f) d = (case f (d_server d) of (x, sv) \<Rightarrow> (x, d\<lparr>d_server := sv\<rparr>))"
  "run_state (with_runtime g) d = run_state (g (d_runtime d)) d"
  by (simp_all add: on_world_def on_server_def with_runtime_def)

lemma run_attempt_Inr:
  "run_state (attempt m f) s = (Inr y, s') \<longleftrightarrow>
     (\<exists>x s1. run_state m s = (Inr x, s1) \<and> run_state (f x) s1 = (Inr y, s'))"
  by (auto simp: dep_simps split: prod.splits sum.splits)

lemma attempt_assoc: "attempt (attempt m f) g = attempt m (\<lambda>x. attempt (f x) g)"
  by (rule state.expand) (auto simp: dep_simps fun_eq_iff split: prod.split sum.split)

lemma submit_all_append:
  "attempt (submit_all spawn current register xs) (\<lambda>_. submit_all spawn current register ys) =
     submit_all spawn current register (xs @ ys)"
proof (induction xs)
  case Nil
  then show ?case by (simp add: attempt_def)
next
  case (Cons x xs)
  then show ?case by (cases x) (simp add: attempt_assoc)
qed

lemma run_submit [dep_simps]:
  "run_state (submit spawn current i t) d =
     (case submit_to_worker spawn current i t (d_runtime d) of
       (r, rt) \<Rightarrow> (map_ok (\<lambda>h. (i, h)) r, d\<lparr>d_runtime := rt\<rparr>))"
  by (simp add: submit_def)

abbreviation exec_of :: "'ex ServerRuntime \<Rightarrow> nat \<Rightarrow> 'ex" where
  "exec_of rt i \<equiv> wh_executor (rt_workers rt ! i)"

text \<open>The commands of a list of submissions, and what belongs to one worker.\<close>

definition for_worker_id :: "nat \<Rightarrow> (nat \<times> 'a) list \<Rightarrow> 'a list" where
  "for_worker_id i xs = map snd (filter (\<lambda>(j, _). j = i) xs)"

lemma for_worker_id_simps [simp]:
  "for_worker_id i [] = []"
  "for_worker_id i ((j, x) # xs) = (if j = i then x # for_worker_id i xs else for_worker_id i xs)"
  "for_worker_id i (xs @ ys) = for_worker_id i xs @ for_worker_id i ys"
  by (simp_all add: for_worker_id_def)

definition all_open :: "'t executor ServerRuntime \<Rightarrow> bool" where
  "all_open rt \<longleftrightarrow> (\<forall>i < length (rt_workers rt). ex_open (exec_of rt i))"

text \<open>
  From \<open>rt\<close> to \<open>rt'\<close> the tasks \<open>ts\<close> were queued on the workers they name, with the handles \<open>hs\<close>.
\<close>

definition queued_on ::
    "'t executor ServerRuntime \<Rightarrow> 't executor ServerRuntime \<Rightarrow> nat TaskHandle list \<Rightarrow> (nat \<times> 't) list \<Rightarrow> bool" where
  "queued_on rt rt' hs ts \<longleftrightarrow>
     length (rt_workers rt') = length (rt_workers rt) \<and> map fst hs = map fst ts \<and>
     (\<forall>i < length (rt_workers rt).
        ex_commands (exec_of rt' i) =
          ex_commands (exec_of rt i) @ map2 Spawn (for_worker_id i hs) (for_worker_id i ts))"

lemma for_worker_id_length:
  "map fst hs = map fst ts \<Longrightarrow> length (for_worker_id i hs) = length (for_worker_id i ts)"
proof (induction hs arbitrary: ts)
  case (Cons h hs)
  then show ?case by (cases ts; cases h; cases "hd ts") auto
qed simp

lemma queued_on_refl: "queued_on rt rt [] []"
  by (simp add: queued_on_def)

lemma queued_on_trans:
  assumes "queued_on a b hs ts" and "queued_on b c hs' ts'"
  shows "queued_on a c (hs @ hs') (ts @ ts')"
  using assms for_worker_id_length [of hs ts] by (auto simp: queued_on_def zip_append)

lemma submit_open:
  assumes "i < length (rt_workers rt)" and "ex_open (exec_of rt i)"
  shows "\<exists>h rt'. submit_to_worker tokio_spawn current i t rt = (Inr h, rt') \<and>
           queued_on rt rt' [(i, h)] [(i, t)] \<and> rt_active rt' = rt_active rt \<and>
           (\<forall>j < length (rt_workers rt). ex_open (exec_of rt' j) \<longleftrightarrow> ex_open (exec_of rt j))"
proof -
  let ?w = "rt_workers rt ! i"
  obtain h ex where s: "spawn_task t (wh_executor ?w) = (Inr h, ex)"
    and ex: "ex_commands ex = ex_commands (wh_executor ?w) @ [Spawn h t]" "ex_open ex"
    using assms by (auto simp: spawn_task_def Let_def)
  let ?rt = "rt\<lparr>rt_workers := (rt_workers rt)[i := ?w\<lparr>wh_executor := ex\<rparr>]\<rparr>"
  have "submit_to_worker tokio_spawn current i t rt = (Inr h, ?rt)"
    using assms(1) s by (simp add: submit_to_worker_def worker_def tokio_spawn_def)
  moreover have "queued_on rt ?rt [(i, h)] [(i, t)]"
    using assms(1) ex by (auto simp: queued_on_def nth_list_update)
  moreover have "\<forall>j < length (rt_workers rt). ex_open (exec_of ?rt j) \<longleftrightarrow> ex_open (exec_of rt j)"
    using assms ex by (auto simp: nth_list_update)
  ultimately show ?thesis by (intro exI [of _ h] exI [of _ ?rt] conjI) simp_all
qed

lemma submit_tokio:
  assumes "i < length (rt_workers rt)" and "all_open rt"
  shows "\<exists>h rt'. submit_to_worker tokio_spawn current i t rt = (Inr h, rt') \<and>
           queued_on rt rt' [(i, h)] [(i, t)] \<and> all_open rt' \<and> rt_active rt' = rt_active rt"
  using submit_open [of i rt current t] assms by (fastforce simp: all_open_def queued_on_def)

lemma submit_closed:
  assumes "i < length (rt_workers rt)" and "\<not> ex_open (exec_of rt i)"
  shows "\<exists>e rt'. submit_to_worker tokio_spawn current i t rt = (Inl e, rt') \<and> queued_on rt rt' [] []"
  using assms
  by (auto simp: submit_to_worker_def worker_def tokio_spawn_def spawn_task_def Let_def queued_on_def nth_list_update)

lemma reuse_port_balancing_iff [simp]: "reuse_port_balancing (capabilities t) \<longleftrightarrow> t \<noteq> Windows"
  by (cases t) (simp_all add: capabilities_def supports_reuse_port_balancing_def
      linux_supports_reuse_port_balancing_def bsd_supports_reuse_port_balancing_def
      windows_supports_reuse_port_balancing_def)

lemma for_worker_id_enumerate:
  "for_worker_id i (enumerate k xs) = (if k \<le> i \<and> i < k + length xs then [xs ! (i - k)] else [])"
proof (induction xs arbitrary: k)
  case (Cons x xs)
  then show ?case by (auto simp: nth_Cons')
qed simp

lemma for_worker_id_each:
  "for_worker_id i (map (\<lambda>j. (j, f j)) [0..<n]) = (if i < n then [f i] else [])"
  by (induction n) (auto simp: less_Suc_eq)

section \<open>The registry of a server\<close>

text \<open>
  What the set-up relies on: while its lock is intact, a registry takes every handle and
  leaves the rest of the server's state alone.
\<close>

locale task_registry =
  fixes register :: "nat TaskHandle \<Rightarrow> 'sv \<Rightarrow> unit result \<times> 'sv"
    and handles :: "'sv \<Rightarrow> nat TaskHandle list"
    and intact :: "'sv \<Rightarrow> bool" and rest :: "'sv \<Rightarrow> 'sv"
  assumes register_ok: "intact sv \<Longrightarrow>
      \<exists>sv'. register h sv = (Inr (), sv') \<and> handles sv' = handles sv @ [h] \<and> intact sv' \<and> rest sv' = rest sv"
begin

lemma submit_all_ok:
  assumes "\<forall>(i, t) \<in> set ts. i < length (rt_workers (d_runtime d))"
    and "all_open (d_runtime d)" and "intact (d_server d)"
  shows "\<exists>d' hs. run_state (submit_all tokio_spawn current register ts) d = (Inr (), d') \<and>
           handles (d_server d') = handles (d_server d) @ hs \<and>
           queued_on (d_runtime d) (d_runtime d') hs ts \<and>
           all_open (d_runtime d') \<and> intact (d_server d') \<and> d_world d' = d_world d \<and>
           rest (d_server d') = rest (d_server d) \<and> rt_active (d_runtime d') = rt_active (d_runtime d)"
  using assms
proof (induction ts arbitrary: d)
  case Nil
  then show ?case by (auto intro!: exI [of _ "[]"] simp: queued_on_refl)
next
  case (Cons it ts)
  obtain i t where it: "it = (i, t)" by fastforce
  have i: "i < length (rt_workers (d_runtime d))" using Cons.prems(1) it by simp
  from submit_tokio [OF i Cons.prems(2), of current t] obtain h rt where
    sub: "submit_to_worker tokio_spawn current i t (d_runtime d) = (Inr h, rt)"
    and q: "queued_on (d_runtime d) rt [(i, h)] [(i, t)]" and op: "all_open rt"
    and act: "rt_active rt = rt_active (d_runtime d)" by blast
  from register_ok [OF Cons.prems(3), of "(i, h)"] obtain sv where
    reg: "register (i, h) (d_server d) = (Inr (), sv)"
    and hs: "handles sv = handles (d_server d) @ [(i, h)]" and ok: "intact sv"
    and rest: "rest sv = rest (d_server d)" by blast
  let ?d = "d\<lparr>d_runtime := rt, d_server := sv\<rparr>"
  have "\<forall>(i, t) \<in> set ts. i < length (rt_workers (d_runtime ?d))"
    using Cons.prems(1) q by (auto simp: queued_on_def)
  from Cons.IH [OF this] op ok obtain d' hs' where
    run: "run_state (submit_all tokio_spawn current register ts) ?d = (Inr (), d')"
    and more: "handles (d_server d') = handles sv @ hs'" "queued_on rt (d_runtime d') hs' ts"
      "all_open (d_runtime d')" "intact (d_server d')" "d_world d' = d_world d" "rest (d_server d') = rest sv"
      "rt_active (d_runtime d') = rt_active rt" by auto
  have "run_state (submit_all tokio_spawn current register (it # ts)) d = (Inr (), d')"
    using sub reg run by (simp add: it dep_simps)
  with more hs act rest queued_on_trans [OF q more(2)] show ?case
    by (intro exI [of _ d'] exI [of _ "(i, h) # hs'"]) (simp add: it)
qed

text \<open>A worker that does not take its task ends the set-up; what was submitted before stays queued.\<close>

lemma submit_all_stops:
  assumes "\<forall>(i, t) \<in> set ts. i < length (rt_workers (d_runtime d)) \<and> ex_open (exec_of (d_runtime d) i)"
    and "j < length (rt_workers (d_runtime d))" and "\<not> ex_open (exec_of (d_runtime d) j)" and "intact (d_server d)"
  shows "\<exists>e d' hs. run_state (submit_all tokio_spawn current register (ts @ (j, t) # us)) d = (Inl e, d') \<and>
           queued_on (d_runtime d) (d_runtime d') hs ts"
  using assms
proof (induction ts arbitrary: d)
  case Nil
  from submit_closed [OF Nil(2,3), of current t] obtain e rt where
    "submit_to_worker tokio_spawn current j t (d_runtime d) = (Inl e, rt)" "queued_on (d_runtime d) rt [] []" by blast
  then show ?case by (auto simp: dep_simps)
next
  case (Cons it ts)
  obtain i u where it: "it = (i, u)" by fastforce
  have i: "i < length (rt_workers (d_runtime d))" "ex_open (exec_of (d_runtime d) i)"
    using Cons.prems(1) it by simp_all
  from submit_open [OF i, of current u] obtain h rt where
    sub: "submit_to_worker tokio_spawn current i u (d_runtime d) = (Inr h, rt)"
    and q: "queued_on (d_runtime d) rt [(i, h)] [(i, u)]"
    and op: "\<forall>j < length (rt_workers (d_runtime d)). ex_open (exec_of rt j) \<longleftrightarrow> ex_open (exec_of (d_runtime d) j)" by blast
  from register_ok [OF Cons.prems(4), of "(i, h)"] obtain sv where
    reg: "register (i, h) (d_server d) = (Inr (), sv)" and ok: "intact sv" by blast
  let ?d = "d\<lparr>d_runtime := rt, d_server := sv\<rparr>"
  have len: "length (rt_workers rt) = length (rt_workers (d_runtime d))" using q by (simp add: queued_on_def)
  have "\<forall>(i, t) \<in> set ts. i < length (rt_workers (d_runtime ?d)) \<and> ex_open (exec_of (d_runtime ?d) i)"
    using Cons.prems(1) op len by fastforce
  from Cons.IH [OF this] Cons.prems(2,3) op len ok obtain e d' hs where
    run: "run_state (submit_all tokio_spawn current register (ts @ (j, t) # us)) ?d = (Inl e, d')"
    and more: "queued_on rt (d_runtime d') hs ts" by auto
  have "run_state (submit_all tokio_spawn current register ((it # ts) @ (j, t) # us)) d = (Inl e, d')"
    using sub reg run by (simp add: it dep_simps)
  with queued_on_trans [OF q more] show ?case by (auto simp: it)
qed

end

section \<open>Cancellation\<close>

lemma cancel_task_tokio:
  assumes "all_open rt"
  shows "all_open (cancel_task cancel h rt) \<and>
         length (rt_workers (cancel_task cancel h rt)) = length (rt_workers rt) \<and>
         (\<forall>i < length (rt_workers rt).
            ex_commands (exec_of (cancel_task cancel h rt) i) =
              ex_commands (exec_of rt i) @ map TaskCommand.Cancel (for_worker_id i [h]))"
  using assms
  by (cases h) (auto simp: cancel_task_def all_open_def nth_list_update cancel_def Let_def)

lemma cancel_all_tokio:
  assumes "all_open rt"
  shows "all_open (cancel_all cancel hs rt) \<and>
         length (rt_workers (cancel_all cancel hs rt)) = length (rt_workers rt) \<and>
         (\<forall>i < length (rt_workers rt).
            ex_commands (exec_of (cancel_all cancel hs rt) i) =
              ex_commands (exec_of rt i) @ map TaskCommand.Cancel (for_worker_id i hs))"
  using assms
proof (induction hs arbitrary: rt)
  case (Cons h hs)
  note one = cancel_task_tokio [OF Cons.prems, of h]
  note rest = Cons.IH [of "cancel_task cancel h rt"]
  have "for_worker_id i (h # hs) = for_worker_id i [h] @ for_worker_id i hs" for i
    by (cases h) simp
  with one rest show ?case by (simp add: cancel_all_def)
qed (simp add: cancel_all_def)

text \<open>Tasks that were queued and then cancelled: on every worker their cancellations follow them.\<close>

lemma queued_then_cancelled:
  assumes "queued_on rt rt1 hs ts" and "all_open rt1" and "i < length (rt_workers rt)"
  shows "ex_commands (exec_of (cancel_all cancel hs rt1) i) =
           ex_commands (exec_of rt i) @ map2 Spawn (for_worker_id i hs) (for_worker_id i ts) @
           map TaskCommand.Cancel (for_worker_id i hs)"
    and "length (for_worker_id i hs) = length (for_worker_id i ts)"
  using cancel_all_tokio [OF assms(2), of hs] assms for_worker_id_length [of hs ts i]
  by (simp_all add: queued_on_def)

section \<open>A concrete runtime\<close>

text \<open>Two idle workers on a system where every call succeeds, to run the model on.\<close>

definition two_workers :: "'t executor ServerRuntime" where
  "two_workers =
     \<lparr>rt_workers = map (\<lambda>k. \<lparr>wh_executor = executor_new, wh_owner = k, wh_shutdown = True, wh_join = True\<rparr>) [1, 2],
      rt_active = True, rt_next_worker = 0\<rparr>"

definition calm_deployment :: "'sv \<Rightarrow> ('t executor, 'sv) deployment" where
  "calm_deployment sv = \<lparr>d_world = calm_world, d_runtime = two_workers, d_server = sv\<rparr>"

lemma calm_deployment_simps [simp]:
  "d_world (calm_deployment sv) = calm_world" "d_runtime (calm_deployment sv) = two_workers"
  "d_server (calm_deployment sv) = sv" "worker_count two_workers = 2"
  "length (rt_workers two_workers) = 2" "rt_active two_workers"
  by (simp_all add: calm_deployment_def two_workers_def worker_count_def)

lemma all_open_two_workers [simp]: "all_open two_workers"
  by (auto simp: all_open_def two_workers_def executor_new_def nth_Cons')

lemma two_workers_idle [simp]: "i < 2 \<Longrightarrow> ex_commands (exec_of two_workers i) = []"
  by (auto simp: two_workers_def executor_new_def nth_Cons')

end
