(* ===== verification/Orig_Dst.thy ===== *)
theory Orig_Dst
  imports Platform
begin

text \<open>
  Receiving with the original destination (\<open>recv_udp_original_dst\<close> of \<open>src/platform\<close>): the
  answer of \<open>recvmsg\<close> is taken apart into the sender's address and, if the kernel attached one,
  the destination the datagram was sent to before it was redirected. C structures are their
  bytes; what the kernel and the \<open>CMSG\<close> macros of \<open>libc\<close> deliver is the argument.
\<close>

section \<open>Addresses as bytes\<close>

fun be_value :: "u8 list \<Rightarrow> nat" where
  "be_value [] = 0"
| "be_value (b # bs) = unat b * 256 ^ length bs + be_value bs"

definition of_be_bytes :: "u8 list \<Rightarrow> 'a::len word" where
  "of_be_bytes bs = word_of_nat (be_value bs)"

lemma to_be_bytes_Suc: "to_be_bytes (Suc n) w = be_byte n w # to_be_bytes n w"
  by (simp add: to_be_bytes_def)

lemma unat_be_byte: "unat (be_byte i w) = unat w div 256 ^ i mod 256"
proof -
  have "(2 :: nat) ^ (8 * i) = 256 ^ i" by (simp add: power_mult)
  moreover have "unat (be_byte i w) = drop_bit (8 * i) (unat w) mod 256"
    by (simp add: be_byte_def unsigned_ucast_eq unsigned_drop_bit_eq take_bit_eq_mod)
  ultimately show ?thesis by (simp add: drop_bit_eq_div)
qed

lemma be_value_to_be_bytes: "be_value (to_be_bytes n w) = unat w mod 256 ^ n"
proof (induction n)
  case 0
  then show ?case by (simp add: to_be_bytes_def)
next
  case (Suc n)
  have "unat w mod (256 ^ n * 256) = 256 ^ n * (unat w div 256 ^ n mod 256) + unat w mod 256 ^ n"
    by (rule mod_mult2_eq)
  with Suc show ?case by (simp add: to_be_bytes_Suc unat_be_byte mult.commute)
qed

lemma of_be_bytes_to_be_bytes:
  fixes w :: "'a::len word"
  assumes "LENGTH('a) \<le> 8 * n"
  shows "of_be_bytes (to_be_bytes n w) = w"
proof -
  have "unat w < 2 ^ LENGTH('a)" by (rule unsigned_less)
  also have "\<dots> \<le> 2 ^ (8 * n)" using assms by (simp add: power_increasing)
  also have "\<dots> = 256 ^ n" by (simp add: power_mult)
  finally show ?thesis by (simp add: of_be_bytes_def be_value_to_be_bytes)
qed

section \<open>Socket addresses of C\<close>

text \<open>
  \<open>sockaddr_storage\<close>: the address family and the 126 bytes that follow it. Seen as
  \<open>sockaddr_in\<close> (16 bytes with the family) these are the port and the address, both most
  significant byte first; seen as \<open>sockaddr_in6\<close> (28 bytes) they are the port, a flow label,
  the address and a scope.
\<close>

datatype family = AF_INET | AF_INET6 | AF_OTHER nat

record sockaddr_storage =
  ss_family :: family
  ss_bytes :: "u8 list"

definition sockaddr_storage_to_socket_addr :: "sockaddr_storage \<Rightarrow> SocketAddr io_result" where
  "sockaddr_storage_to_socket_addr addr =
     (case ss_family addr of
        AF_INET \<Rightarrow>
          let sin_port = take 2 (ss_bytes addr); sin_addr = take 4 (drop 2 (ss_bytes addr))
          in Inr (SocketAddr_new (V4 (of_be_bytes sin_addr)) (of_be_bytes sin_port))
      | AF_INET6 \<Rightarrow>
          let sin6_port = take 2 (ss_bytes addr); sin6_addr = take 16 (drop 6 (ss_bytes addr))
          in Inr (SocketAddr_new (V6 (of_be_bytes sin6_addr)) (of_be_bytes sin6_port))
      | AF_OTHER family \<Rightarrow>
          Inl \<lparr>error_kind = KindInvalidData,
               error_text = ''unsupported socket address family '' @ show_nat family\<rparr>)"

section \<open>Control messages\<close>

text \<open>A control message: its level and type, and its data, which starts with a family.\<close>

datatype cmsg_kind = CMSG_IP_ORIGDSTADDR | CMSG_IPV6_RECVORIGDSTADDR | CMSG_OTHER

record cmsg =
  cmsg_kind :: cmsg_kind
  cmsg_family :: family
  cmsg_bytes :: "u8 list"

definition copy_sockaddr :: "nat \<Rightarrow> cmsg \<Rightarrow> sockaddr_storage" where
  "copy_sockaddr copy_len c =
     \<lparr>ss_family = cmsg_family c,
      ss_bytes = copy_prefix (replicate 126 0) (take (copy_len - 2) (cmsg_bytes c))\<rparr>"

fun original_destination_addr :: "cmsg list \<Rightarrow> sockaddr_storage option" where
  "original_destination_addr [] = None"
| "original_destination_addr (c # cs) =
     (case cmsg_kind c of
        CMSG_IP_ORIGDSTADDR \<Rightarrow> Some (copy_sockaddr 16 c)
      | CMSG_IPV6_RECVORIGDSTADDR \<Rightarrow> Some (copy_sockaddr 28 c)
      | CMSG_OTHER \<Rightarrow> original_destination_addr cs)"

record message =
  msg_data :: "u8 list"
  msg_source :: sockaddr_storage
  msg_control :: "cmsg list"

definition recv_udp_original_dst_raw ::
    "message io_result \<Rightarrow> SocketAddr \<Rightarrow> (u8 list \<times> SocketAddr \<times> SocketAddr) io_result" where
  "recv_udp_original_dst_raw recvmsg fallback_local_addr =
     and_then recvmsg (\<lambda>message.
     and_then
       (case original_destination_addr (msg_control message) of
          Some destination \<Rightarrow> sockaddr_storage_to_socket_addr destination
        | None \<Rightarrow> Inr fallback_local_addr) (\<lambda>destination.
     and_then (sockaddr_storage_to_socket_addr (msg_source message)) (\<lambda>source.
     Inr (msg_data message, source, destination))))"

datatype runtime = Tokio | AsyncStd

abbreviation no_original_dst :: io_error where
  "no_original_dst \<equiv> \<lparr>error_kind = KindUnsupported,
     error_text = ''UDP original destination receive is unsupported by the selected platform or runtime''\<rparr>"

definition linux_recv_udp_original_dst ::
    "target \<Rightarrow> runtime \<Rightarrow> message io_result \<Rightarrow> SocketAddr \<Rightarrow>
     (u8 list \<times> SocketAddr \<times> SocketAddr) io_result" where
  "linux_recv_udp_original_dst t rt recvmsg fallback_local_addr =
     (if t = Linux \<and> rt = Tokio then recv_udp_original_dst_raw recvmsg fallback_local_addr
      else Inl no_original_dst)"

definition bsd_recv_udp_original_dst :: "(u8 list \<times> SocketAddr \<times> SocketAddr) io_result" where
  "bsd_recv_udp_original_dst = Inl no_original_dst"

definition windows_recv_udp_original_dst :: "(u8 list \<times> SocketAddr \<times> SocketAddr) io_result" where
  "windows_recv_udp_original_dst = Inl no_original_dst"

definition recv_udp_original_dst ::
    "target \<Rightarrow> runtime \<Rightarrow> message io_result \<Rightarrow> SocketAddr \<Rightarrow>
     (u8 list \<times> SocketAddr \<times> SocketAddr) io_result" where
  "recv_udp_original_dst t rt recvmsg fallback_local_addr =
     (case t of
        Bsd \<Rightarrow> bsd_recv_udp_original_dst
      | Windows \<Rightarrow> windows_recv_udp_original_dst
      | _ \<Rightarrow> linux_recv_udp_original_dst t rt recvmsg fallback_local_addr)"

lemmas recv_udp_original_dst_defs =
  recv_udp_original_dst_def linux_recv_udp_original_dst_def bsd_recv_udp_original_dst_def
  windows_recv_udp_original_dst_def

lemma recv_udp_original_dst_eq:
  "recv_udp_original_dst t rt recvmsg bound =
     (if t = Linux \<and> rt = Tokio then recv_udp_original_dst_raw recvmsg bound else Inl no_original_dst)"
  by (cases t) (simp_all add: recv_udp_original_dst_defs)

section \<open>What the kernel writes\<close>

text \<open>The structures the kernel fills in for an address.\<close>

fun sockaddr_bytes :: "SocketAddr \<Rightarrow> u8 list" where
  "sockaddr_bytes (SocketAddrV4 a p) = to_be_bytes 2 p @ to_be_bytes 4 a @ replicate 8 0"
| "sockaddr_bytes (SocketAddrV6 a p flow scope) =
     to_be_bytes 2 p @ to_be_bytes 4 flow @ to_be_bytes 16 a @ to_be_bytes 4 scope"

fun addr_family :: "SocketAddr \<Rightarrow> family" where
  "addr_family (SocketAddrV4 _ _) = AF_INET"
| "addr_family (SocketAddrV6 _ _ _ _) = AF_INET6"

definition source_sockaddr :: "SocketAddr \<Rightarrow> sockaddr_storage" where
  "source_sockaddr a =
     \<lparr>ss_family = addr_family a, ss_bytes = copy_prefix (replicate 126 0) (sockaddr_bytes a)\<rparr>"

definition origdst_cmsg :: "SocketAddr \<Rightarrow> cmsg" where
  "origdst_cmsg a =
     \<lparr>cmsg_kind = (if is_ipv4 a then CMSG_IP_ORIGDSTADDR else CMSG_IPV6_RECVORIGDSTADDR),
      cmsg_family = addr_family a, cmsg_bytes = sockaddr_bytes a\<rparr>"

lemma length_sockaddr_bytes:
  "length (sockaddr_bytes a) = (if is_ipv4 a then 14 else 26)"
  by (cases a) simp_all

lemma sockaddr_roundtrip:
  "sockaddr_storage_to_socket_addr (source_sockaddr a) = Inr (SocketAddr_new (ip a) (port a))"
  by (cases a)
    (simp_all add: sockaddr_storage_to_socket_addr_def source_sockaddr_def copy_prefix_def Let_def
      of_be_bytes_to_be_bytes)

lemma copy_origdst:
  "original_destination_addr (origdst_cmsg a # cs) = Some (source_sockaddr a)"
  by (cases a)
    (simp_all add: origdst_cmsg_def copy_sockaddr_def source_sockaddr_def)

lemma original_destination_first:
  "\<forall>c \<in> set before. cmsg_kind c = CMSG_OTHER \<Longrightarrow>
     original_destination_addr (before @ cs) = original_destination_addr cs"
  by (induction before) auto

section \<open>Properties\<close>

text \<open>C22. A datagram redirected from \<open>dst\<close> is reported with the peer's address and \<open>dst\<close>, whatever other
  control messages precede; without such a message the bound address stands in for it; and off
  Linux or on another runtime the receive is refused.\<close>

theorem original_destination_recovered:
  assumes "\<forall>c \<in> set before. cmsg_kind c = CMSG_OTHER"
  shows "recv_udp_original_dst Linux Tokio
           (Inr \<lparr>msg_data = data, msg_source = source_sockaddr peer,
                 msg_control = before @ origdst_cmsg dst # after\<rparr>) bound =
           Inr (data, SocketAddr_new (ip peer) (port peer), SocketAddr_new (ip dst) (port dst)) \<and>
         recv_udp_original_dst Linux Tokio
           (Inr \<lparr>msg_data = data, msg_source = source_sockaddr peer, msg_control = before\<rparr>) bound =
           Inr (data, SocketAddr_new (ip peer) (port peer), bound) \<and>
         (t \<noteq> Linux \<or> rt \<noteq> Tokio \<longrightarrow>
           (\<exists>e. recv_udp_original_dst t rt m bound = Inl e \<and> error_kind e = KindUnsupported))"
  using original_destination_first [OF assms, of "origdst_cmsg dst # after"]
    original_destination_first [OF assms, of "[]"]
  by (auto simp: recv_udp_original_dst_eq recv_udp_original_dst_raw_def copy_origdst sockaddr_roundtrip
      simp del: original_destination_addr.simps(2))

theorem original_destination_recovered_witness:
  "recv_udp_original_dst Linux Tokio
     (Inr \<lparr>msg_data = [1, 2], msg_source = source_sockaddr (SocketAddrV4 (ipv4 10 0 0 7) 5000),
           msg_control = [\<lparr>cmsg_kind = CMSG_OTHER, cmsg_family = AF_OTHER 0, cmsg_bytes = []\<rparr>,
             origdst_cmsg (SocketAddrV6 1 53 9 9)]\<rparr>) (SocketAddrV4 0 443) =
     Inr ([1, 2], SocketAddrV4 (ipv4 10 0 0 7) 5000, SocketAddrV6 1 53 0 0)"
  using original_destination_recovered
    [of "[\<lparr>cmsg_kind = CMSG_OTHER, cmsg_family = AF_OTHER 0, cmsg_bytes = []\<rparr>]" "[1, 2]"
      "SocketAddrV4 (ipv4 10 0 0 7) 5000" "SocketAddrV6 1 53 9 9" "[]" "SocketAddrV4 0 443"]
  by simp

end
