(* ===== verification/Udp_Socket.thy ===== *)
theory Udp_Socket
  imports Orig_Dst
begin

text \<open>
  Sockets as the servers and their users see them. First the thin layer over the two runtimes
  (\<open>src/runtime/tokio.rs\<close>, \<open>async_std.rs\<close>): conversion of standard sockets and receiving into a
  buffer. Then \<open>UdpSocket\<close> (\<open>src/core/udp.rs\<close>), which is either a socket of the runtime or the
  receiving end of a channel on which the dispatch loop puts the packets of one worker, with a
  shared socket to send from. What arrives, from the network or from the channel, is an
  argument: a datagram or error of the socket, and a packet or \<open>None\<close> for a closed channel.
\<close>

section \<open>The runtime's sockets\<close>

text \<open>Each function of the layer has a version per runtime; a feature of the crate selects one.\<close>

definition tokio_tcp_listener_from_std :: "fd \<Rightarrow> fd io_result io" where
  "tokio_tcp_listener_from_std listener =
     io_try (sys os_unit (SetNonblocking listener True)) (\<lambda>_.
     io_try (sys os_unit (FromStd listener)) (\<lambda>_. io_ok listener))"

definition async_tcp_listener_from_std :: "fd \<Rightarrow> fd io_result io" where
  "async_tcp_listener_from_std listener =
     io_try (sys os_unit (SetNonblocking listener True)) (\<lambda>_. io_ok listener)"

definition tcp_listener_from_std :: "runtime \<Rightarrow> fd \<Rightarrow> fd io_result io" where
  "tcp_listener_from_std rt listener =
     (case rt of Tokio \<Rightarrow> tokio_tcp_listener_from_std listener | AsyncStd \<Rightarrow> async_tcp_listener_from_std listener)"

definition tokio_tcp_stream_from_std :: "fd \<Rightarrow> fd io_result io" where
  "tokio_tcp_stream_from_std stream =
     io_try (sys os_unit (SetNonblocking stream True)) (\<lambda>_.
     io_try (sys os_unit (FromStd stream)) (\<lambda>_. io_ok stream))"

definition async_tcp_stream_from_std :: "fd \<Rightarrow> fd io_result io" where
  "async_tcp_stream_from_std stream =
     io_try (sys os_unit (SetNonblocking stream True)) (\<lambda>_. io_ok stream)"

definition tcp_stream_from_std :: "runtime \<Rightarrow> fd \<Rightarrow> fd io_result io" where
  "tcp_stream_from_std rt stream =
     (case rt of Tokio \<Rightarrow> tokio_tcp_stream_from_std stream | AsyncStd \<Rightarrow> async_tcp_stream_from_std stream)"

text \<open>On tokio a UDP socket can be registered only from inside a runtime.\<close>

definition tokio_udp_socket_from_std :: "fd \<Rightarrow> fd io_result io" where
  "tokio_udp_socket_from_std socket =
     io_try (sys os_unit (SetNonblocking socket True)) (\<lambda>_.
     State_Monad.bind (sys os_unit TryCurrent) (\<lambda>r.
     case r of
       Inl e \<Rightarrow> io_err \<lparr>error_kind = KindNotConnected, error_text = error_text e\<rparr>
     | Inr _ \<Rightarrow> io_try (sys os_unit (FromStd socket)) (\<lambda>_. io_ok socket)))"

definition async_udp_socket_from_std :: "fd \<Rightarrow> fd io_result io" where
  "async_udp_socket_from_std socket =
     io_try (sys os_unit (SetNonblocking socket True)) (\<lambda>_. io_ok socket)"

definition udp_socket_from_std :: "runtime \<Rightarrow> fd \<Rightarrow> fd io_result io" where
  "udp_socket_from_std rt socket =
     (case rt of Tokio \<Rightarrow> tokio_udp_socket_from_std socket | AsyncStd \<Rightarrow> async_udp_socket_from_std socket)"

lemmas socket_from_std_defs =
  udp_socket_from_std_def tokio_udp_socket_from_std_def async_udp_socket_from_std_def

text \<open>
  Receiving stores the datagram in the buffer, cut off at its end, and gives the number of bytes
  stored. \<open>udp_recv_from\<close> also gives the buffer back, in the model both do.
\<close>

definition store :: "u8 list \<Rightarrow> u8 list \<Rightarrow> nat \<times> u8 list" where
  "store buffer payload =
     (let len = min (length payload) (length buffer)
      in (len, copy_prefix buffer (take len payload)))"

definition udp_recv_from :: "(u8 list \<times> SocketAddr) io_result \<Rightarrow> u8 list \<Rightarrow> (nat \<times> SocketAddr \<times> u8 list) io_result" where
  "udp_recv_from arrival buffer =
     map_ok (\<lambda>(data, peer). let (len, buffer) = store buffer data in (len, peer, buffer)) arrival"

definition udp_recv_from_slice :: "(u8 list \<times> SocketAddr) io_result \<Rightarrow> u8 list \<Rightarrow> (nat \<times> SocketAddr \<times> u8 list) io_result" where
  "udp_recv_from_slice arrival buffer = udp_recv_from arrival buffer"

definition udp_send_to :: "fd \<Rightarrow> u8 list \<Rightarrow> SocketAddr \<Rightarrow> nat io_result io" where
  "udp_send_to socket buffer target = sys os_size (SendTo socket buffer target)"

datatype 'a Poll = Ready 'a | Not_Ready

definition tokio_udp_try_send_to :: "fd \<Rightarrow> u8 list \<Rightarrow> SocketAddr \<Rightarrow> nat io_result io" where
  "tokio_udp_try_send_to socket buffer target = sys os_size (SendTo socket buffer target)"

definition async_udp_try_send_to :: "fd \<Rightarrow> u8 list \<Rightarrow> SocketAddr \<Rightarrow> nat io_result io" where
  "async_udp_try_send_to socket buffer target =
     io_err \<lparr>error_kind = KindUnsupported,
       error_text = ''async-std UDP socket does not expose nonblocking send readiness''\<rparr>"

definition udp_try_send_to :: "runtime \<Rightarrow> fd \<Rightarrow> u8 list \<Rightarrow> SocketAddr \<Rightarrow> nat io_result io" where
  "udp_try_send_to rt socket buffer target =
     (case rt of
        Tokio \<Rightarrow> tokio_udp_try_send_to socket buffer target
      | AsyncStd \<Rightarrow> async_udp_try_send_to socket buffer target)"

definition async_udp_poll_send_ready :: "unit io_result Poll" where
  "async_udp_poll_send_ready = Ready (Inr ())"

definition udp_poll_send_ready :: "runtime \<Rightarrow> unit io_result Poll \<Rightarrow> unit io_result Poll" where
  "udp_poll_send_ready rt readiness =
     (case rt of Tokio \<Rightarrow> readiness | AsyncStd \<Rightarrow> async_udp_poll_send_ready)"

definition tokio_udp_poll_recv_from_slice ::
    "(u8 list \<times> SocketAddr) io_result Poll \<Rightarrow> u8 list \<Rightarrow> (nat \<times> SocketAddr \<times> u8 list) io_result Poll" where
  "tokio_udp_poll_recv_from_slice arrival buffer =
     (case arrival of
        Not_Ready \<Rightarrow> Not_Ready
      | Ready r \<Rightarrow> Ready (udp_recv_from r buffer))"

abbreviation no_poll_recv :: io_error where
  "no_poll_recv \<equiv> \<lparr>error_kind = KindUnsupported,
     error_text = ''async-std UDP socket does not expose poll-based recv readiness''\<rparr>"

definition async_udp_poll_recv_from_slice :: "u8 list \<Rightarrow> (nat \<times> SocketAddr \<times> u8 list) io_result Poll" where
  "async_udp_poll_recv_from_slice buffer = Ready (Inl no_poll_recv)"

definition udp_poll_recv_from_slice ::
    "runtime \<Rightarrow> (u8 list \<times> SocketAddr) io_result Poll \<Rightarrow> u8 list \<Rightarrow> (nat \<times> SocketAddr \<times> u8 list) io_result Poll" where
  "udp_poll_recv_from_slice rt arrival buffer =
     (case rt of
        Tokio \<Rightarrow> tokio_udp_poll_recv_from_slice arrival buffer
      | AsyncStd \<Rightarrow> async_udp_poll_recv_from_slice buffer)"

section \<open>Scattering a datagram over buffers\<close>

text \<open>The buffers that are left and the offset into the payload are the variables of the loop.\<close>

fun scatter_from :: "u8 list \<Rightarrow> nat \<Rightarrow> u8 list list \<Rightarrow> u8 list list" where
  "scatter_from payload offset [] = []"
| "scatter_from payload offset (buffer # buffers) =
     (if offset \<ge> length payload then buffer # buffers
      else
        let copy_len = min (length payload - offset) (length buffer)
        in copy_prefix buffer (take copy_len (drop offset payload)) #
           scatter_from payload (offset + copy_len) buffers)"

definition scatter_datagram :: "u8 list \<Rightarrow> u8 list list \<Rightarrow> u8 list list" where
  "scatter_datagram payload buffers = scatter_from payload 0 buffers"

definition tokio_udp_poll_recv_from_vectored ::
    "(u8 list \<times> SocketAddr) io_result Poll \<Rightarrow> u8 list list \<Rightarrow>
     (nat \<times> SocketAddr \<times> u8 list list) io_result Poll" where
  "tokio_udp_poll_recv_from_vectored arrival buffers =
     (case tokio_udp_poll_recv_from_slice arrival (replicate 65536 0) of
        Not_Ready \<Rightarrow> Not_Ready
      | Ready (Inl e) \<Rightarrow> Ready (Inl e)
      | Ready (Inr (len, peer, buffer)) \<Rightarrow>
          Ready (Inr (len, peer, scatter_datagram (take len buffer) buffers)))"

definition async_udp_poll_recv_from_vectored ::
    "u8 list list \<Rightarrow> (nat \<times> SocketAddr \<times> u8 list list) io_result Poll" where
  "async_udp_poll_recv_from_vectored buffers = Ready (Inl no_poll_recv)"

definition udp_poll_recv_from_vectored ::
    "runtime \<Rightarrow> (u8 list \<times> SocketAddr) io_result Poll \<Rightarrow> u8 list list \<Rightarrow>
     (nat \<times> SocketAddr \<times> u8 list list) io_result Poll" where
  "udp_poll_recv_from_vectored rt arrival buffers =
     (case rt of
        Tokio \<Rightarrow> tokio_udp_poll_recv_from_vectored arrival buffers
      | AsyncStd \<Rightarrow> async_udp_poll_recv_from_vectored buffers)"

section \<open>Routed sockets\<close>

record RoutedPacket =
  rp_payload :: "u8 list"
  rp_peer :: SocketAddr

record RoutedUdpSocket =
  ru_sender :: fd
  ru_local_addr :: SocketAddr

definition routed_closed :: io_error where
  "routed_closed = \<lparr>error_kind = KindUnexpectedEof, error_text = ''routed UDP socket closed''\<rparr>"

definition recv_packet :: "RoutedPacket option \<Rightarrow> RoutedPacket io_result" where
  "recv_packet delivery = ok_or routed_closed delivery"

definition routed_recv_from_slice ::
    "RoutedPacket option \<Rightarrow> u8 list \<Rightarrow> (nat \<times> SocketAddr \<times> u8 list) io_result" where
  "routed_recv_from_slice delivery buffer =
     and_then (recv_packet delivery) (\<lambda>packet.
       let len = min (length (rp_payload packet)) (length buffer)
       in Inr (len, rp_peer packet, copy_prefix buffer (take len (rp_payload packet))))"

definition routed_recv_from_vec ::
    "RoutedPacket option \<Rightarrow> u8 list \<Rightarrow> (nat \<times> SocketAddr \<times> u8 list) io_result" where
  "routed_recv_from_vec delivery buffer =
     and_then (recv_packet delivery) (\<lambda>packet.
       let len = min (length (rp_payload packet)) (length buffer)
       in Inr (len, rp_peer packet, copy_prefix buffer (take len (rp_payload packet))))"

definition poll_recv_packet :: "RoutedPacket option Poll \<Rightarrow> RoutedPacket io_result Poll" where
  "poll_recv_packet delivery =
     (case delivery of Not_Ready \<Rightarrow> Not_Ready | Ready packet \<Rightarrow> Ready (ok_or routed_closed packet))"

definition routed_poll_recv_from_slice ::
    "RoutedPacket option Poll \<Rightarrow> u8 list \<Rightarrow> (nat \<times> SocketAddr \<times> u8 list) io_result Poll" where
  "routed_poll_recv_from_slice delivery buffer =
     (case poll_recv_packet delivery of
        Not_Ready \<Rightarrow> Not_Ready
      | Ready (Inl e) \<Rightarrow> Ready (Inl e)
      | Ready (Inr packet) \<Rightarrow>
          let len = min (length (rp_payload packet)) (length buffer)
          in Ready (Inr (len, rp_peer packet, copy_prefix buffer (take len (rp_payload packet)))))"

definition routed_poll_recv_from_vectored ::
    "RoutedPacket option Poll \<Rightarrow> u8 list list \<Rightarrow> (nat \<times> SocketAddr \<times> u8 list list) io_result Poll" where
  "routed_poll_recv_from_vectored delivery buffers =
     (case poll_recv_packet delivery of
        Not_Ready \<Rightarrow> Not_Ready
      | Ready (Inl e) \<Rightarrow> Ready (Inl e)
      | Ready (Inr packet) \<Rightarrow>
          Ready (Inr (length (rp_payload packet), rp_peer packet,
                      scatter_datagram (rp_payload packet) buffers)))"

section \<open>UdpSocket\<close>

datatype UdpSocketInner = RuntimeSocket fd | Routed RoutedUdpSocket

definition recv_from ::
    "UdpSocketInner \<Rightarrow> (u8 list \<times> SocketAddr) io_result \<Rightarrow> RoutedPacket option \<Rightarrow> u8 list \<Rightarrow>
     (nat \<times> SocketAddr \<times> u8 list) result" where
  "recv_from inner arrival delivery buffer =
     (case inner of
        RuntimeSocket socket \<Rightarrow> map_err error_from (udp_recv_from_slice arrival buffer)
      | Routed socket \<Rightarrow> map_err error_from (routed_recv_from_slice delivery buffer))"

definition recv_from_vec ::
    "UdpSocketInner \<Rightarrow> (u8 list \<times> SocketAddr) io_result \<Rightarrow> RoutedPacket option \<Rightarrow> u8 list \<Rightarrow>
     (nat \<times> SocketAddr \<times> u8 list) result" where
  "recv_from_vec inner arrival delivery buffer =
     (case inner of
        RuntimeSocket socket \<Rightarrow> map_err error_from (udp_recv_from arrival buffer)
      | Routed socket \<Rightarrow> map_err error_from (routed_recv_from_vec delivery buffer))"

definition send_to :: "UdpSocketInner \<Rightarrow> u8 list \<Rightarrow> SocketAddr \<Rightarrow> nat result io" where
  "send_to inner buffer target =
     (case inner of
        RuntimeSocket socket \<Rightarrow> io_from (udp_send_to socket buffer target)
      | Routed socket \<Rightarrow> io_from (sys os_size (SendTo (ru_sender socket) buffer target)))"

definition socket_local_addr :: "UdpSocketInner \<Rightarrow> SocketAddr result io" where
  "socket_local_addr inner =
     (case inner of
        RuntimeSocket socket \<Rightarrow> io_from (sys os_addr (LocalAddr socket))
      | Routed socket \<Rightarrow> io_ok (ru_local_addr socket))"

definition try_send_to :: "runtime \<Rightarrow> UdpSocketInner \<Rightarrow> u8 list \<Rightarrow> SocketAddr \<Rightarrow> nat io_result io" where
  "try_send_to rt inner buffer target =
     (case inner of
        RuntimeSocket socket \<Rightarrow> udp_try_send_to rt socket buffer target
      | Routed socket \<Rightarrow> sys os_size (SendTo (ru_sender socket) buffer target))"

definition poll_send_ready :: "runtime \<Rightarrow> UdpSocketInner \<Rightarrow> unit io_result Poll \<Rightarrow> unit io_result Poll" where
  "poll_send_ready rt inner readiness =
     (case inner of
        RuntimeSocket socket \<Rightarrow> udp_poll_send_ready rt readiness
      | Routed socket \<Rightarrow> Ready (Inr ()))"

definition poll_recv_from ::
    "runtime \<Rightarrow> UdpSocketInner \<Rightarrow> (u8 list \<times> SocketAddr) io_result Poll \<Rightarrow> RoutedPacket option Poll \<Rightarrow>
     u8 list \<Rightarrow> (nat \<times> SocketAddr \<times> u8 list) io_result Poll" where
  "poll_recv_from rt inner arrival delivery buffer =
     (case inner of
        RuntimeSocket socket \<Rightarrow> udp_poll_recv_from_slice rt arrival buffer
      | Routed socket \<Rightarrow> routed_poll_recv_from_slice delivery buffer)"

definition poll_recv_from_vectored ::
    "runtime \<Rightarrow> UdpSocketInner \<Rightarrow> (u8 list \<times> SocketAddr) io_result Poll \<Rightarrow> RoutedPacket option Poll \<Rightarrow>
     u8 list list \<Rightarrow> (nat \<times> SocketAddr \<times> u8 list list) io_result Poll" where
  "poll_recv_from_vectored rt inner arrival delivery buffers =
     (case inner of
        RuntimeSocket socket \<Rightarrow> udp_poll_recv_from_vectored rt arrival buffers
      | Routed socket \<Rightarrow> routed_poll_recv_from_vectored delivery buffers)"

definition uses_transparent_receive :: "target \<Rightarrow> runtime \<Rightarrow> UdpServiceConfig \<Rightarrow> bool" where
  "uses_transparent_receive t rt config \<longleftrightarrow>
     t = Linux \<and> rt = Tokio \<and>
     (ipv4_transparent (udp_socket_options config) \<in> {Required, BestEffort} \<or>
      ipv6_transparent (udp_socket_options config) \<in> {Required, BestEffort})"

section \<open>Lemmas\<close>

lemma take_store [simp]: "take (fst (store buffer payload)) (snd (store buffer payload)) = take (length buffer) payload"
  by (simp add: store_def Let_def copy_prefix_def min_def)

lemma length_store [simp]:
  "length (snd (store buffer payload)) = length buffer"
  "fst (store buffer payload) = min (length payload) (length buffer)"
  by (simp_all add: store_def Let_def copy_prefix_def min_def)

lemma udp_recv_from_Inr:
  "udp_recv_from arrival buffer = Inr (len, peer, buffer') \<longleftrightarrow>
     (\<exists>data. arrival = Inr (data, peer) \<and> len = fst (store buffer data) \<and> buffer' = snd (store buffer data))"
  by (cases arrival) (auto simp: udp_recv_from_def store_def Let_def)

lemma scatter_from_eq:
  "offset \<le> length payload \<Longrightarrow>
     concat (scatter_from payload offset buffers) =
       copy_prefix (concat buffers) (take (length (concat buffers)) (drop offset payload)) \<and>
     map length (scatter_from payload offset buffers) = map length buffers"
proof (induction buffers arbitrary: offset)
  case (Cons b bs)
  let ?k = "min (length payload - offset) (length b)"
  show ?case
  proof (cases "offset = length payload")
    case False
    with Cons.prems have lt: "offset < length payload" by simp
    have IH: "concat (scatter_from payload (offset + ?k) bs) =
        copy_prefix (concat bs) (take (length (concat bs)) (drop (offset + ?k) payload))"
      "map length (scatter_from payload (offset + ?k) bs) = map length bs"
      using Cons.IH [of "offset + ?k"] Cons.prems by auto
    show ?thesis
    proof (cases "length payload - offset \<le> length b")
      case True
      with IH lt show ?thesis by (simp add: Let_def copy_prefix_def min_def)
    next
      case long: False
      with IH lt show ?thesis
        by (simp add: Let_def copy_prefix_def min_def take_add add.commute [of offset] drop_drop [symmetric] del: drop_drop)
    qed
  qed (simp add: copy_prefix_def)
qed (simp add: copy_prefix_def)

section \<open>Properties\<close>

text \<open>Scattering a datagram over a list of buffers is writing it into their concatenation from the front:
  the bytes that fit are stored in order, what follows them keeps its old contents, and no
  buffer changes its length.\<close>

lemma scatter_datagram_fills_in_order:
  "concat (scatter_datagram payload buffers) =
     copy_prefix (concat buffers) (take (length (concat buffers)) payload) \<and>
   map length (scatter_datagram payload buffers) = map length buffers"
  using scatter_from_eq [of 0 payload buffers] by (simp add: scatter_datagram_def)

text \<open>Receiving from either kind of socket stores a prefix of the payload, as much as fits, reports
  exactly the number of bytes stored and leaves the rest of the buffer alone, so nothing of an
  earlier datagram is ever reported; a closed channel is an error.\<close>

lemma receive_reports_what_is_stored:
  assumes "recv_from_vec inner arrival delivery buffer = Inr (len, peer, buffer')"
  shows "\<exists>payload. (case inner of
             RuntimeSocket _ \<Rightarrow> arrival = Inr (payload, peer)
           | Routed _ \<Rightarrow> delivery = Some \<lparr>rp_payload = payload, rp_peer = peer\<rparr>) \<and>
           len = min (length payload) (length buffer) \<and>
           take len buffer' = take (length buffer) payload \<and> drop len buffer' = drop len buffer"
proof (cases inner)
  case (RuntimeSocket s)
  with assms show ?thesis
    by (auto simp: recv_from_vec_def result_simps udp_recv_from_Inr store_def copy_prefix_def Let_def min_def)
next
  case (Routed s)
  with assms obtain p where p: "delivery = Some p" "len = min (length (rp_payload p)) (length buffer)"
    "peer = rp_peer p" "buffer' = copy_prefix buffer (take len (rp_payload p))"
    by (auto simp: recv_from_vec_def routed_recv_from_vec_def recv_packet_def result_simps Let_def)
  then show ?thesis
    using Routed by (intro exI [of _ "rp_payload p"]) (auto simp: copy_prefix_def min_def)
qed

text \<open>C30. The vectored receive of a routed packet differs: it reports the length of the whole payload even
  when the buffers together are shorter, so fewer bytes are stored than reported.\<close>

theorem vectored_receive_overreports:
  assumes "length (concat buffers) < length payload"
  shows "\<exists>bs. poll_recv_from_vectored rt (Routed socket) arrival
           (Ready (Some \<lparr>rp_payload = payload, rp_peer = peer\<rparr>)) buffers =
             Ready (Inr (length payload, peer, bs)) \<and>
           concat bs = take (length (concat buffers)) payload \<and> length (concat bs) < length payload"
  using assms scatter_from_eq [of 0 payload buffers]
  by (auto simp: poll_recv_from_vectored_def routed_poll_recv_from_vectored_def poll_recv_packet_def
      scatter_datagram_def copy_prefix_def)

theorem vectored_receive_overreports_witness:
  "poll_recv_from_vectored Tokio (Routed \<lparr>ru_sender = 3, ru_local_addr = SocketAddrV4 0 53\<rparr>) Not_Ready
     (Ready (Some \<lparr>rp_payload = [1, 2, 3, 4], rp_peer = SocketAddrV4 1 9\<rparr>)) [[0], [0, 0]] =
     Ready (Inr (4, SocketAddrV4 1 9, [[1], [2, 3]]))"
proof -
  have "length (concat [[0], [0, 0 :: u8]]) < length [1, 2, 3, 4 :: u8]" by simp
  from vectored_receive_overreports [OF this, of Tokio "\<lparr>ru_sender = 3, ru_local_addr = SocketAddrV4 0 53\<rparr>"
      Not_Ready "SocketAddrV4 1 9"]
  show ?thesis
    by (auto simp: poll_recv_from_vectored_def routed_poll_recv_from_vectored_def poll_recv_packet_def
        scatter_datagram_def copy_prefix_def Let_def)
qed

end
