(* ===== verification/Udp_State.thy ===== *)
theory Udp_State
  imports Deploy Udp_Socket
begin

text \<open>
  The state that a UDP or QUIC server keeps (\<open>UdpServerState\<close> in \<open>src/core/udp.rs\<close>): the tasks
  that are cancelled on close, the callback tasks that are not, the listening sockets in a pool
  and by thread, sockets that are only kept to be closed, and how a closing server wakes the
  loops that wait on its sockets. A thread is a number.
\<close>

section \<open>State\<close>

record 'h UdpServerState =
  udp_active :: bool
  udp_tasks :: "'h TaskHandle list mutex"
  udp_callback_tasks :: "'h TaskHandle list mutex"
  udp_sockets :: "fd list mutex"
  udp_close_sockets :: "fd list mutex"
  udp_thread_sockets :: "(nat \<rightharpoonup> fd) mutex"
  udp_next_socket :: usize

definition udp_state_new :: "'h UdpServerState" where
  "udp_state_new =
     \<lparr>udp_active = True, udp_tasks = mutex_new [], udp_callback_tasks = mutex_new [],
      udp_sockets = mutex_new [], udp_close_sockets = mutex_new [],
      udp_thread_sockets = mutex_new Map.empty, udp_next_socket = 0\<rparr>"

definition udp_register_task :: "'h TaskHandle \<Rightarrow> 'h UdpServerState \<Rightarrow> unit result \<times> 'h UdpServerState" where
  "udp_register_task task self =
     (case lock (Runtime ''udp task registry lock poisoned'') (udp_tasks self) of
        Inl e \<Rightarrow> (Inl e, self)
      | Inr tasks \<Rightarrow> (Inr (), self\<lparr>udp_tasks := (udp_tasks self)\<lparr>mx_value := tasks @ [task]\<rparr>\<rparr>))"

definition register_callback_task :: "'h TaskHandle \<Rightarrow> 'h UdpServerState \<Rightarrow> unit result \<times> 'h UdpServerState" where
  "register_callback_task task self =
     (case lock (Runtime ''udp callback task registry lock poisoned'') (udp_callback_tasks self) of
        Inl e \<Rightarrow> (Inl e, self)
      | Inr tasks \<Rightarrow>
          (Inr (), self\<lparr>udp_callback_tasks := (udp_callback_tasks self)\<lparr>mx_value := tasks @ [task]\<rparr>\<rparr>))"

section \<open>Sockets\<close>

abbreviation socket_registry_poisoned :: Error where
  "socket_registry_poisoned \<equiv> Runtime ''server socket registry lock poisoned''"

definition register_listener_socket :: "nat \<Rightarrow> fd \<Rightarrow> ('ex, 'h UdpServerState, unit result) dep" where
  "register_listener_socket thread socket =
     attempt (on_world (io_from (sys os_fd (TryClone socket)))) (\<lambda>thread_socket.
     attempt (on_world (io_from (sys os_fd (TryClone socket)))) (\<lambda>pool_socket.
     attempt (on_server (\<lambda>self.
       case lock socket_registry_poisoned (udp_thread_sockets self) of
         Inl e \<Rightarrow> (Inl e, self)
       | Inr m \<Rightarrow> (Inr (), self\<lparr>udp_thread_sockets :=
             (udp_thread_sockets self)\<lparr>mx_value := m(thread \<mapsto> thread_socket)\<rparr>\<rparr>))) (\<lambda>_.
     on_server (\<lambda>self.
       case lock socket_registry_poisoned (udp_sockets self) of
         Inl e \<Rightarrow> (Inl e, self)
       | Inr ss \<Rightarrow> (Inr (), self\<lparr>udp_sockets := (udp_sockets self)\<lparr>mx_value := ss @ [pool_socket]\<rparr>\<rparr>)))))"

definition register_close_socket :: "fd \<Rightarrow> ('ex, 'h UdpServerState, unit result) dep" where
  "register_close_socket socket =
     attempt (on_server (\<lambda>self. (lock socket_registry_poisoned (udp_close_sockets self), self))) (\<lambda>ss.
     attempt (on_world (io_from (sys os_fd (TryClone socket)))) (\<lambda>clone.
     on_server (\<lambda>self. (Inr (), self\<lparr>udp_close_sockets := (udp_close_sockets self)\<lparr>mx_value := ss @ [clone]\<rparr>\<rparr>))))"

text \<open>The nanoseconds of the wall clock; a clock before the epoch counts as 0.\<close>

definition current_time_seed :: "usize io" where
  "current_time_seed =
     State_Monad.bind (sys os_clock SystemTimeNow) (\<lambda>now. State_Monad.return (now mod 10 ^ 9))"

definition clone_into_runtime :: "runtime \<Rightarrow> fd \<Rightarrow> ('ex, 'h UdpServerState, UdpSocketInner result) dep" where
  "clone_into_runtime rt socket =
     attempt (on_world (io_from (sys os_fd (TryClone socket)))) (\<lambda>clone.
     attempt (on_world (io_from (udp_socket_from_std rt clone))) (\<lambda>socket.
     State_Monad.return (Inr (RuntimeSocket socket))))"

definition listener_socket :: "runtime \<Rightarrow> nat \<Rightarrow> ('ex, 'h UdpServerState, UdpSocketInner result) dep" where
  "listener_socket rt thread =
     attempt (on_server (\<lambda>self.
       (if udp_active self then Inr () else Inl (Runtime ''server is closed''), self))) (\<lambda>_.
     attempt (on_server (\<lambda>self.
       (map_ok (\<lambda>m. m thread) (lock socket_registry_poisoned (udp_thread_sockets self)), self))) (\<lambda>own.
     case own of
       Some socket \<Rightarrow> clone_into_runtime rt socket
     | None \<Rightarrow>
         attempt (on_server (\<lambda>self. (lock socket_registry_poisoned (udp_sockets self), self))) (\<lambda>sockets.
         if sockets = [] then State_Monad.return (Inl (Runtime ''server has no listener socket''))
         else
         attempt (on_server (\<lambda>self.
           (Inr (udp_next_socket self), self\<lparr>udp_next_socket := (udp_next_socket self + 1) mod 2 ^ 64\<rparr>))) (\<lambda>next.
         State_Monad.bind (on_world current_time_seed) (\<lambda>seed.
         let index = (next XOR seed) mod length sockets
         in clone_into_runtime rt (sockets ! index))))))"

section \<open>Closing\<close>

definition wake_target :: "SocketAddr \<Rightarrow> SocketAddr" where
  "wake_target addr =
     (case ip addr of
        V4 a \<Rightarrow> if is_unspecified (V4 a) then SocketAddr_new (V4 LOCALHOST4) (port addr) else addr
      | V6 a \<Rightarrow> if is_unspecified (V6 a) then SocketAddr_new (V6 LOCALHOST6) (port addr) else addr)"

definition wake_bind_addr :: "SocketAddr \<Rightarrow> SocketAddr" where
  "wake_bind_addr target =
     (if is_ipv4 target then SocketAddrV4 LOCALHOST4 0 else SocketAddrV6 LOCALHOST6 0 0 0)"

definition wake_udp_socket :: "fd \<Rightarrow> unit io" where
  "wake_udp_socket socket =
     State_Monad.bind (sys os_addr (LocalAddr socket)) (\<lambda>r.
     case r of
       Inl _ \<Rightarrow> State_Monad.return ()
     | Inr addr \<Rightarrow>
         State_Monad.bind (sys os_fd (UdpBind (wake_bind_addr (wake_target addr)))) (\<lambda>r.
         case r of
           Inl _ \<Rightarrow> State_Monad.return ()
         | Inr sender \<Rightarrow> io_ignore (sys os_size (SendTo sender [0] (wake_target addr))) (State_Monad.return ())))"

fun io_each :: "('a \<Rightarrow> unit io) \<Rightarrow> 'a list \<Rightarrow> unit io" where
  "io_each f [] = State_Monad.return ()"
| "io_each f (x # xs) = State_Monad.bind (f x) (\<lambda>_. io_each f xs)"

text \<open>All sockets are woken first, then all are shut down.\<close>

definition wake_and_shutdown :: "fd list \<Rightarrow> unit io" where
  "wake_and_shutdown sockets =
     State_Monad.bind (io_each wake_udp_socket sockets) (\<lambda>_.
     io_each (\<lambda>s. io_ignore (sys os_unit (ShutdownBoth s)) (State_Monad.return ())) sockets)"

text \<open>\<open>if let Ok(mut guard) = mutex.lock()\<close>: nothing happens when the lock is poisoned.\<close>

definition drain_sockets ::
    "('h UdpServerState \<Rightarrow> fd list mutex) \<Rightarrow> (fd list mutex \<Rightarrow> 'h UdpServerState \<Rightarrow> 'h UdpServerState) \<Rightarrow>
     ('ex, 'h UdpServerState, unit) dep" where
  "drain_sockets get put =
     State (\<lambda>d. case lock () (get (d_server d)) of
         Inl _ \<Rightarrow> ((), d)
       | Inr sockets \<Rightarrow>
           ((), d\<lparr>d_world := snd (run_state (wake_and_shutdown sockets) (d_world d)),
                 d_server := put ((get (d_server d))\<lparr>mx_value := []\<rparr>) (d_server d)\<rparr>))"

definition udp_state_close :: "('h \<Rightarrow> 'ex \<Rightarrow> 'ex) \<Rightarrow> ('ex, 'h UdpServerState, unit) dep" where
  "udp_state_close do_cancel = do {
     on_server (\<lambda>self. ((), self\<lparr>udp_active := False\<rparr>));
     drain_sockets udp_sockets (\<lambda>m self. self\<lparr>udp_sockets := m\<rparr>);
     drain_sockets udp_close_sockets (\<lambda>m self. self\<lparr>udp_close_sockets := m\<rparr>);
     on_server (\<lambda>self.
       case lock () (udp_thread_sockets self) of
         Inl _ \<Rightarrow> ((), self)
       | Inr _ \<Rightarrow> ((), self\<lparr>udp_thread_sockets := (udp_thread_sockets self)\<lparr>mx_value := Map.empty\<rparr>\<rparr>));
     State (\<lambda>d.
       case lock () (udp_tasks (d_server d)) of
         Inl _ \<Rightarrow> ((), d)
       | Inr tasks \<Rightarrow>
           ((), d\<lparr>d_runtime := cancel_all do_cancel tasks (d_runtime d),
                 d_server := (d_server d)\<lparr>udp_tasks := (udp_tasks (d_server d))\<lparr>mx_value := []\<rparr>\<rparr>\<rparr>));
     on_server (\<lambda>self.
       case lock () (udp_callback_tasks self) of
         Inl _ \<Rightarrow> ((), self)
       | Inr _ \<Rightarrow> ((), self\<lparr>udp_callback_tasks := (udp_callback_tasks self)\<lparr>mx_value := []\<rparr>\<rparr>))}"

definition udp_close :: "('h \<Rightarrow> 'ex \<Rightarrow> 'ex) \<Rightarrow> ('ex, 'h UdpServerState, unit result) dep" where
  "udp_close do_cancel =
     State_Monad.bind (udp_state_close do_cancel) (\<lambda>_. State_Monad.return (Inr ()))"

definition udp_listener_socket :: "runtime \<Rightarrow> nat \<Rightarrow> ('ex, 'h UdpServerState, UdpSocketInner result) dep" where
  "udp_listener_socket rt thread = listener_socket rt thread"

interpretation udp_registry: task_registry udp_register_task
  "\<lambda>sv. mx_value (udp_tasks sv)" "\<lambda>sv. \<not> mx_poisoned (udp_tasks sv)"
  "\<lambda>sv. sv\<lparr>udp_tasks := mutex_new []\<rparr>"
  by unfold_locales (auto simp: udp_register_task_def)

interpretation udp_callback_registry: task_registry register_callback_task
  "\<lambda>sv. mx_value (udp_callback_tasks sv)" "\<lambda>sv. \<not> mx_poisoned (udp_callback_tasks sv)"
  "\<lambda>sv. sv\<lparr>udp_callback_tasks := mutex_new []\<rparr>"
  by unfold_locales (auto simp: register_callback_task_def)

section \<open>What closing does\<close>

text \<open>The sockets whose address is looked up to wake them.\<close>

fun wake_lookups :: "os_call list \<Rightarrow> fd list" where
  "wake_lookups [] = []"
| "wake_lookups (LocalAddr s # cs) = s # wake_lookups cs"
| "wake_lookups (_ # cs) = wake_lookups cs"

fun wake_call :: "os_call \<Rightarrow> bool" where
  "wake_call (LocalAddr s) \<longleftrightarrow> True"
| "wake_call (UdpBind a) \<longleftrightarrow> True"
| "wake_call (SendTo s data a) \<longleftrightarrow> data = [0]"
| "wake_call _ \<longleftrightarrow> False"

lemma wake_lookups_append [simp]: "wake_lookups (xs @ ys) = wake_lookups xs @ wake_lookups ys"
  by (induction xs rule: wake_lookups.induct) auto

lemma run_wake:
  "\<exists>cs. run_state (wake_udp_socket s) w = ((), logged cs w) \<and> wake_lookups cs = [s] \<and> list_all wake_call cs"
  by (auto simp: wake_udp_socket_def io_simps split: sum.split
      intro: exI [of _ "[LocalAddr s]"] exI [of _ "[LocalAddr s, UdpBind a]" for a]
        exI [of _ "[LocalAddr s, UdpBind a, SendTo t [0] b]" for a b t])

lemma run_wakes:
  "\<exists>cs. run_state (io_each wake_udp_socket ss) w = ((), logged cs w) \<and> wake_lookups cs = ss \<and> list_all wake_call cs"
proof (induction ss arbitrary: w)
  case Nil
  show ?case by (intro exI [of _ "[]"]) simp
next
  case (Cons s ss)
  obtain cs where cs: "run_state (wake_udp_socket s) w = ((), logged cs w)" "wake_lookups cs = [s]"
    "list_all wake_call cs" using run_wake by blast
  obtain ds where "run_state (io_each wake_udp_socket ss) (logged cs w) = ((), logged ds (logged cs w))"
    "wake_lookups ds = ss" "list_all wake_call ds" using Cons.IH by blast
  with cs show ?case by (intro exI [of _ "cs @ ds"]) simp
qed

lemma run_shutdowns:
  "run_state (io_each (\<lambda>s. io_ignore (sys os_unit (ShutdownBoth s)) (State_Monad.return ())) ss) w =
     ((), logged (map ShutdownBoth ss) w)"
  by (induction ss arbitrary: w) (simp_all add: io_simps)

lemma run_wake_and_shutdown:
  "\<exists>ws. run_state (wake_and_shutdown ss) w = ((), logged (ws @ map ShutdownBoth ss) w) \<and>
     wake_lookups ws = ss \<and> list_all wake_call ws"
proof -
  obtain ws where "run_state (io_each wake_udp_socket ss) w = ((), logged ws w)"
    "wake_lookups ws = ss" "list_all wake_call ws" using run_wakes by blast
  then show ?thesis by (intro exI [of _ ws]) (simp add: wake_and_shutdown_def run_shutdowns)
qed

definition udp_intact :: "'h UdpServerState \<Rightarrow> bool" where
  "udp_intact sv \<longleftrightarrow>
     \<not> mx_poisoned (udp_tasks sv) \<and> \<not> mx_poisoned (udp_callback_tasks sv) \<and> \<not> mx_poisoned (udp_sockets sv) \<and>
     \<not> mx_poisoned (udp_close_sockets sv) \<and> \<not> mx_poisoned (udp_thread_sockets sv)"

lemma udp_state_new_intact [simp]: "udp_intact udp_state_new"
  by (simp add: udp_intact_def udp_state_new_def)

text \<open>A closed server: inactive, with empty registries.\<close>

definition udp_closed :: "'h UdpServerState \<Rightarrow> bool" where
  "udp_closed sv \<longleftrightarrow>
     \<not> udp_active sv \<and> mx_value (udp_tasks sv) = [] \<and> mx_value (udp_callback_tasks sv) = [] \<and>
     mx_value (udp_sockets sv) = [] \<and> mx_value (udp_close_sockets sv) = [] \<and>
     mx_value (udp_thread_sockets sv) = Map.empty"

lemma run_udp_close:
  assumes "udp_intact (d_server d)"
  shows "run_state (udp_close do_cancel) d =
     (Inr (), \<lparr>d_world = snd (run_state (wake_and_shutdown (mx_value (udp_close_sockets (d_server d))))
                 (snd (run_state (wake_and_shutdown (mx_value (udp_sockets (d_server d)))) (d_world d)))),
              d_runtime = cancel_all do_cancel (mx_value (udp_tasks (d_server d))) (d_runtime d),
              d_server = \<lparr>udp_active = False, udp_tasks = mutex_new [], udp_callback_tasks = mutex_new [],
                 udp_sockets = mutex_new [], udp_close_sockets = mutex_new [],
                 udp_thread_sockets = mutex_new Map.empty, udp_next_socket = udp_next_socket (d_server d)\<rparr>\<rparr>)"
  using assms
  by (cases d; cases "d_server d")
    (simp add: udp_close_def udp_state_close_def drain_sockets_def on_server_def udp_intact_def mutex_new_def)

section \<open>What is handed out\<close>

lemma appends_socket_from_std: "appends (udp_socket_from_std rt s) (\<lambda>_. True)"
proof -
  have try_current: "appends (State_Monad.bind (sys os_unit TryCurrent) (\<lambda>r.
      case r of
        Inl e \<Rightarrow> io_err \<lparr>error_kind = KindNotConnected, error_text = error_text e\<rparr>
      | Inr _ \<Rightarrow> io_try (sys os_unit (FromStd s)) (\<lambda>_. io_ok s))) (\<lambda>_. True)"
    by (intro appends_bind appends_sys TrueI) (auto split: sum.split intro!: appends_combine appends_sys)
  show ?thesis
    unfolding socket_from_std_defs
    by (cases rt) (auto intro!: appends_combine appends_sys try_current)
qed

lemma run_clone_into_runtime:
  assumes "run_state (clone_into_runtime rt s) d = (Inr x, d')"
  shows "\<exists>calls. d_world d' = logged (TryClone s # calls) (d_world d) \<and> d_server d' = d_server d"
proof -
  let ?w = "logged [TryClone s] (d_world d)"
  from assms obtain clone socket w where "run_state (udp_socket_from_std rt clone) ?w = (Inr socket, w)"
    and d': "d' = d\<lparr>d_world := w\<rparr>"
    by (auto simp: clone_into_runtime_def dep_simps io_simps result_simps split: prod.splits sum.splits)
  from appendsE [OF appends_socket_from_std this(1)] obtain cs where "w = logged cs ?w" by blast
  with d' show ?thesis by (auto intro: exI [of _ cs])
qed

section \<open>Properties\<close>





end
