(* ===== verification/Concurrency.thy ===== *)
theory Concurrency
  imports Reuseport_Prelude
begin

text \<open>
  The per-worker concurrency limit (\<open>src/core/concurrency.rs\<close>): an atomic counter of
  permits with one registered waker. The operations are modelled at the grain of their
  atomic accesses, so that any number of tasks may interleave inside them: \<open>try_acquire\<close>,
  \<open>AcquirePermit::poll\<close> and the \<open>Drop\<close> of a permit are state machines with one step per
  load, compare-and-exchange, \<open>register\<close> and \<open>wake\<close>. A weak compare-and-exchange may
  fail for no reason; its step takes that choice as a flag. \<open>AtomicWaker\<close> belongs to another
  crate and is a parameter.
\<close>

section \<open>WorkerConcurrencyLimit\<close>

text \<open>\<open>inner\<close> is \<open>None\<close> for no limit, else the positive maximum.\<close>

record WorkerConcurrencyLimit =
  inner_max :: "usize option"

definition limit_new :: "usize option \<Rightarrow> WorkerConcurrencyLimit" where
  "limit_new max_opt =
     (case max_opt of
        Some m \<Rightarrow> if m > 0 then \<lparr>inner_max = Some m\<rparr> else \<lparr>inner_max = None\<rparr>
      | None \<Rightarrow> \<lparr>inner_max = None\<rparr>)"

definition worker_limits :: "usize \<Rightarrow> usize option \<Rightarrow> WorkerConcurrencyLimit list" where
  "worker_limits worker_count max_opt = map (\<lambda>_. limit_new max_opt) [0..<worker_count]"

section \<open>Atomic steps\<close>

text \<open>
  Where a task stands in an operation on the limit. \<open>TryCas a\<close>, \<open>PollCas a\<close> and
  \<open>DropCas a\<close> carry the value of the counter it last saw.
\<close>

datatype ctl =
    Idle
  | TryLoad | TryCas usize
  | PollLoad | PollCas usize | PollRegister | PollRecheck | Pending
  | DropLoad | DropCas usize | DropWake

text \<open>\<open>permits\<close> counts the permits a task owns, one under destruction included.\<close>

record task =
  ctl :: ctl
  permits :: nat
  notified :: bool

record 'c waker_ops =
  aw_register :: "nat \<Rightarrow> 'c \<Rightarrow> 'c"
  aw_wake :: "'c \<Rightarrow> 'c \<times> nat option"

text \<open>What \<open>AtomicWaker\<close> documents: \<open>wake\<close> wakes the waker registered last.\<close>

definition wakes_last_registered :: "'c waker_ops \<Rightarrow> bool" where
  "wakes_last_registered ops \<longleftrightarrow> (\<forall>w c. snd (aw_wake ops (aw_register ops w c)) = Some w)"

definition try_acquire_step :: "usize \<Rightarrow> bool \<Rightarrow> usize \<Rightarrow> task \<Rightarrow> (usize \<times> task) option" where
  "try_acquire_step limit cas_ok active th =
     (case ctl th of
        TryLoad \<Rightarrow>
          if active \<ge> limit then Some (active, th\<lparr>ctl := Idle\<rparr>)
          else Some (active, th\<lparr>ctl := TryCas active\<rparr>)
      | TryCas a \<Rightarrow>
          if cas_ok \<and> active = a
          then Some (a + 1, th\<lparr>ctl := Idle, permits := permits th + 1\<rparr>)
          else Some (active, th\<lparr>ctl := TryLoad\<rparr>)
      | _ \<Rightarrow> None)"

definition poll_step ::
    "'c waker_ops \<Rightarrow> usize \<Rightarrow> bool \<Rightarrow> nat \<Rightarrow> usize \<Rightarrow> 'c \<Rightarrow> task \<Rightarrow> (usize \<times> 'c \<times> task) option" where
  "poll_step ops limit cas_ok self active cell th =
     (case ctl th of
        PollLoad \<Rightarrow>
          if active < limit then Some (active, cell, th\<lparr>ctl := PollCas active\<rparr>)
          else Some (active, cell, th\<lparr>ctl := PollRegister\<rparr>)
      | PollCas a \<Rightarrow>
          if cas_ok \<and> active = a
          then Some (a + 1, cell, th\<lparr>ctl := Idle, permits := permits th + 1\<rparr>)
          else Some (active, cell, th\<lparr>ctl := PollLoad\<rparr>)
      | PollRegister \<Rightarrow> Some (active, aw_register ops self cell, th\<lparr>ctl := PollRecheck\<rparr>)
      | PollRecheck \<Rightarrow>
          if active < limit then Some (active, cell, th\<lparr>ctl := PollLoad\<rparr>)
          else Some (active, cell, th\<lparr>ctl := Pending\<rparr>)
      | _ \<Rightarrow> None)"

definition drop_step ::
    "'c waker_ops \<Rightarrow> bool \<Rightarrow> usize \<Rightarrow> 'c \<Rightarrow> task \<Rightarrow> (usize \<times> 'c \<times> task \<times> nat option) option" where
  "drop_step ops cas_ok active cell th =
     (case ctl th of
        DropLoad \<Rightarrow>
          if active > 0 then Some (active, cell, th\<lparr>ctl := DropCas active\<rparr>, None)
          else Some (active, cell, th\<lparr>ctl := Idle, permits := permits th - 1\<rparr>, None)
      | DropCas a \<Rightarrow>
          if cas_ok \<and> active = a
          then Some (a - 1, cell, th\<lparr>ctl := DropWake, permits := permits th - 1\<rparr>, None)
          else if active > 0 then Some (active, cell, th\<lparr>ctl := DropCas active\<rparr>, None)
          else Some (active, cell, th\<lparr>ctl := Idle, permits := permits th - 1\<rparr>, None)
      | DropWake \<Rightarrow>
          (case aw_wake ops cell of (cell', w) \<Rightarrow> Some (active, cell', th\<lparr>ctl := Idle\<rparr>, w))
      | _ \<Rightarrow> None)"

section \<open>Interleaving\<close>

record 'c limit_state =
  st_active :: usize
  st_cell :: 'c
  st_tasks :: "task list"

definition set_task :: "'c limit_state \<Rightarrow> nat \<Rightarrow> task \<Rightarrow> 'c limit_state" where
  "set_task s i th = s\<lparr>st_tasks := (st_tasks s)[i := th]\<rparr>"

fun notify :: "task list \<Rightarrow> nat option \<Rightarrow> task list" where
  "notify ths None = ths"
| "notify ths (Some w) = (if w < length ths then ths[w := (ths ! w)\<lparr>notified := True\<rparr>] else ths)"

text \<open>
  One step of one task. Only the task \<open>waiter\<close> polls: a limit belongs to one listener loop,
  the only place that awaits \<open>acquire()\<close>. A pending task may be polled again at any time,
  woken or not, or be cancelled; an owned permit may be handed to another task, as when a
  handler is spawned.
\<close>

inductive limit_step ::
    "'c waker_ops \<Rightarrow> usize \<Rightarrow> nat \<Rightarrow> 'c limit_state \<Rightarrow> 'c limit_state \<Rightarrow> bool"
  for ops :: "'c waker_ops" and limit :: usize and waiter :: nat where
  begin_try: "i < length (st_tasks s) \<Longrightarrow> th = st_tasks s ! i \<Longrightarrow> ctl th = Idle \<Longrightarrow>
     limit_step ops limit waiter s (set_task s i (th\<lparr>ctl := TryLoad\<rparr>))"
| begin_poll: "waiter < length (st_tasks s) \<Longrightarrow> th = st_tasks s ! waiter \<Longrightarrow>
     ctl th = Idle \<or> ctl th = Pending \<Longrightarrow>
     limit_step ops limit waiter s (set_task s waiter (th\<lparr>ctl := PollLoad, notified := False\<rparr>))"
| cancel: "waiter < length (st_tasks s) \<Longrightarrow> th = st_tasks s ! waiter \<Longrightarrow> ctl th = Pending \<Longrightarrow>
     limit_step ops limit waiter s (set_task s waiter (th\<lparr>ctl := Idle\<rparr>))"
| begin_drop: "i < length (st_tasks s) \<Longrightarrow> th = st_tasks s ! i \<Longrightarrow> ctl th = Idle \<Longrightarrow> permits th > 0 \<Longrightarrow>
     limit_step ops limit waiter s (set_task s i (th\<lparr>ctl := DropLoad\<rparr>))"
| hand_over: "i < length (st_tasks s) \<Longrightarrow> j < length (st_tasks s) \<Longrightarrow> i \<noteq> j \<Longrightarrow>
     ctl (st_tasks s ! i) = Idle \<Longrightarrow> permits (st_tasks s ! i) > 0 \<Longrightarrow>
     limit_step ops limit waiter s
       (set_task (set_task s i ((st_tasks s ! i)\<lparr>permits := permits (st_tasks s ! i) - 1\<rparr>))
          j ((st_tasks s ! j)\<lparr>permits := permits (st_tasks s ! j) + 1\<rparr>))"
| try_go: "i < length (st_tasks s) \<Longrightarrow>
     try_acquire_step limit cas_ok (st_active s) (st_tasks s ! i) = Some (a, th) \<Longrightarrow>
     limit_step ops limit waiter s (set_task (s\<lparr>st_active := a\<rparr>) i th)"
| poll_go: "waiter < length (st_tasks s) \<Longrightarrow>
     poll_step ops limit cas_ok waiter (st_active s) (st_cell s) (st_tasks s ! waiter) = Some (a, c, th) \<Longrightarrow>
     limit_step ops limit waiter s (set_task (s\<lparr>st_active := a, st_cell := c\<rparr>) waiter th)"
| drop_go: "i < length (st_tasks s) \<Longrightarrow>
     drop_step ops cas_ok (st_active s) (st_cell s) (st_tasks s ! i) = Some (a, c, th, w) \<Longrightarrow>
     limit_step ops limit waiter s
       (s\<lparr>st_active := a, st_cell := c, st_tasks := notify ((st_tasks s)[i := th]) w\<rparr>)"

definition limit_init :: "nat \<Rightarrow> 'c \<Rightarrow> 'c limit_state" where
  "limit_init n cell =
     \<lparr>st_active = 0, st_cell = cell,
      st_tasks = replicate n \<lparr>ctl = Idle, permits = 0, notified = False\<rparr>\<rparr>"

inductive limit_reachable ::
    "'c waker_ops \<Rightarrow> usize \<Rightarrow> nat \<Rightarrow> 'c limit_state \<Rightarrow> bool"
  for ops :: "'c waker_ops" and limit :: usize and waiter :: nat where
  start: "limit_reachable ops limit waiter (limit_init n cell)"
| step: "limit_reachable ops limit waiter s \<Longrightarrow> limit_step ops limit waiter s t \<Longrightarrow>
     limit_reachable ops limit waiter t"

section \<open>The counter counts the permits\<close>

definition total_permits :: "task list \<Rightarrow> nat" where
  "total_permits ths = sum_list (map permits ths)"

definition task_ok :: "usize \<Rightarrow> task \<Rightarrow> bool" where
  "task_ok limit th \<longleftrightarrow>
     (case ctl th of
        TryCas a \<Rightarrow> a < limit
      | PollCas a \<Rightarrow> a < limit
      | DropLoad \<Rightarrow> permits th > 0
      | DropCas a \<Rightarrow> permits th > 0 \<and> a > 0
      | _ \<Rightarrow> True)"

definition count_inv :: "usize \<Rightarrow> 'c limit_state \<Rightarrow> bool" where
  "count_inv limit s \<longleftrightarrow>
     st_active s = total_permits (st_tasks s) \<and> st_active s \<le> limit \<and>
     (\<forall>i < length (st_tasks s). task_ok limit (st_tasks s ! i))"

lemma total_permits_update:
  assumes "i < length ths"
  shows "total_permits (ths[i := th]) + permits (ths ! i) = total_permits ths + permits th"
proof -
  have le: "permits (ths ! i) \<le> sum_list (map permits ths)"
    using assms by (simp add: member_le_sum_list)
  then show ?thesis
    using assms by (simp add: total_permits_def map_update sum_list_update)
qed

lemma permits_le_total: "i < length ths \<Longrightarrow> permits (ths ! i) \<le> total_permits ths"
  by (simp add: total_permits_def member_le_sum_list)

lemma set_task_simps [simp]:
  "st_active (set_task s i th) = st_active s" "st_cell (set_task s i th) = st_cell s"
  "st_tasks (set_task s i th) = (st_tasks s)[i := th]"
  by (simp_all add: set_task_def)

text \<open>Only \<open>notified\<close> changes when a task is woken.\<close>

lemma length_notify [simp]: "length (notify ths w) = length ths"
  by (cases w) simp_all

lemma ctl_notify [simp]: "ctl (notify ths w ! i) = ctl (ths ! i)"
  by (cases w; cases "w = Some i") (auto simp: nth_list_update)

lemma permits_notify [simp]: "permits (notify ths w ! i) = permits (ths ! i)"
  by (cases w; cases "w = Some i") (auto simp: nth_list_update)

lemma total_permits_notify [simp]: "total_permits (notify ths w) = total_permits ths"
  by (simp add: total_permits_def) (rule arg_cong [of _ _ sum_list], rule nth_equalityI, simp_all)

lemma task_ok_notify [simp]: "task_ok limit (notify ths w ! i) = task_ok limit (ths ! i)"
  by (simp add: task_ok_def split: ctl.split)

text \<open>A step that moves one task and the counter together keeps the invariant.\<close>

lemma count_inv_move:
  assumes inv: "count_inv limit s" and i: "i < length (st_tasks s)"
    and a: "a + permits (st_tasks s ! i) = st_active s + permits th"
    and le: "a \<le> limit" and ok: "task_ok limit th"
  shows "count_inv limit (s\<lparr>st_active := a, st_cell := c, st_tasks := notify ((st_tasks s)[i := th]) w\<rparr>)"
proof -
  have "total_permits ((st_tasks s)[i := th]) = a"
    using total_permits_update [OF i, of th] inv a by (simp add: count_inv_def)
  moreover have "task_ok limit ((st_tasks s)[i := th] ! j)" if "j < length (st_tasks s)" for j
    using inv ok that by (cases "i = j") (simp_all add: count_inv_def)
  ultimately show ?thesis using le by (simp add: count_inv_def)
qed

lemma count_inv_move_task:
  assumes "count_inv limit s" and "i < length (st_tasks s)"
    and "permits th = permits (st_tasks s ! i)" and "task_ok limit th"
  shows "count_inv limit (set_task s i th)"
  using count_inv_move [OF assms(1,2), where a = "st_active s" and th = th and c = "st_cell s" and w = None] assms
  by (simp add: set_task_def count_inv_def)

lemma try_acquire_step_keeps:
  assumes "try_acquire_step limit cas_ok active th = Some (a, th')"
    and "active \<le> limit" and "task_ok limit th"
  shows "a + permits th = active + permits th' \<and> a \<le> limit \<and> task_ok limit th'"
  using assms by (auto simp: try_acquire_step_def task_ok_def split: ctl.splits if_splits)

lemma poll_step_keeps:
  assumes "poll_step ops limit cas_ok i active cell th = Some (a, c, th')"
    and "active \<le> limit" and "task_ok limit th"
  shows "a + permits th = active + permits th' \<and> a \<le> limit \<and> task_ok limit th'"
  using assms by (auto simp: poll_step_def task_ok_def split: ctl.splits if_splits)

text \<open>
  The loop of \<open>drop\<close> runs while the counter is positive. A task that owns a permit keeps it
  positive, so the exits without a decrement are never taken.
\<close>

lemma drop_step_keeps:
  assumes "drop_step ops cas_ok active cell th = Some (a, c, th', w)"
    and "active \<le> limit" and "permits th \<le> active" and "task_ok limit th"
  shows "a + permits th = active + permits th' \<and> a \<le> limit \<and> task_ok limit th'"
  using assms by (auto simp: drop_step_def task_ok_def split: ctl.splits if_splits prod.splits)

lemma count_inv_hand_over:
  assumes inv: "count_inv limit s" and ij: "i < length (st_tasks s)" "j < length (st_tasks s)" "i \<noteq> j"
    and idle: "ctl (st_tasks s ! i) = Idle" "permits (st_tasks s ! i) > 0"
  shows "count_inv limit
       (set_task (set_task s i ((st_tasks s ! i)\<lparr>permits := permits (st_tasks s ! i) - 1\<rparr>))
          j ((st_tasks s ! j)\<lparr>permits := permits (st_tasks s ! j) + 1\<rparr>))"
    (is "count_inv limit (set_task (set_task s i ?ti) j ?tj)")
proof -
  have "total_permits ((st_tasks s)[i := ?ti]) + 1 = total_permits (st_tasks s)"
    using total_permits_update [OF ij(1), of ?ti] idle(2) permits_le_total [OF ij(1)] by simp
  moreover have "total_permits ((st_tasks s)[i := ?ti, j := ?tj]) =
      total_permits ((st_tasks s)[i := ?ti]) + 1"
    using total_permits_update [of j "(st_tasks s)[i := ?ti]" ?tj] ij by simp
  moreover have "task_ok limit ((st_tasks s)[i := ?ti, j := ?tj] ! k)" if "k < length (st_tasks s)" for k
    using inv idle ij that
    by (auto simp: count_inv_def nth_list_update task_ok_def split: ctl.splits)
  ultimately show ?thesis using inv by (simp add: count_inv_def)
qed

lemma limit_step_count_inv:
  assumes "limit_step ops limit waiter s t" and inv: "count_inv limit s"
  shows "count_inv limit t"
  using assms(1)
proof cases
  case (begin_try i th)
  with inv show ?thesis by (simp add: count_inv_move_task task_ok_def)
next
  case (begin_poll th)
  with inv show ?thesis by (simp add: count_inv_move_task task_ok_def)
next
  case (cancel th)
  with inv show ?thesis by (simp add: count_inv_move_task task_ok_def)
next
  case (begin_drop i th)
  with inv show ?thesis by (simp add: count_inv_move_task task_ok_def)
next
  case (hand_over i j)
  with inv show ?thesis by (simp add: count_inv_hand_over del: One_nat_def add_Suc_right)
next
  case (try_go i cas_ok a th)
  with inv try_acquire_step_keeps [OF try_go(3)] show ?thesis
    using count_inv_move [OF inv try_go(2), where a = a and th = th and c = "st_cell s" and w = None]
    by (simp add: set_task_def count_inv_def)
next
  case (poll_go cas_ok a c th)
  with inv poll_step_keeps [OF poll_go(3)] show ?thesis
    using count_inv_move [OF inv poll_go(2), where a = a and th = th and c = c and w = None]
    by (simp add: set_task_def count_inv_def)
next
  case (drop_go i cas_ok a c th w)
  have "permits (st_tasks s ! i) \<le> st_active s"
    using inv permits_le_total [OF drop_go(2)] by (simp add: count_inv_def)
  then have keeps: "a + permits (st_tasks s ! i) = st_active s + permits th \<and> a \<le> limit \<and>
      task_ok limit th"
    using drop_step_keeps [OF drop_go(3), of limit] inv drop_go(2) by (simp add: count_inv_def)
  then show ?thesis
    unfolding drop_go(1) using inv drop_go(2) by (intro count_inv_move) simp_all
qed

lemma limit_init_count_inv: "count_inv limit (limit_init n cell)"
  by (simp add: count_inv_def limit_init_def total_permits_def task_ok_def sum_list_replicate)

lemma limit_reachable_count_inv:
  "limit_reachable ops limit waiter s \<Longrightarrow> count_inv limit s"
  by (induction rule: limit_reachable.induct)
    (auto intro: limit_init_count_inv limit_step_count_inv)

section \<open>No wake-up is lost\<close>

text \<open>
  The task waits when it is past its registration and has not been woken since. While it
  waits its waker is in the cell; and once it is pending, a free permit means that the task
  that freed it is just about to wake it.
\<close>

definition waiting :: "task \<Rightarrow> bool" where
  "waiting th \<longleftrightarrow> (ctl th = PollRecheck \<or> ctl th = Pending) \<and> \<not> notified th"

definition wake_inv :: "'c waker_ops \<Rightarrow> usize \<Rightarrow> nat \<Rightarrow> 'c limit_state \<Rightarrow> bool" where
  "wake_inv ops limit waiter s \<longleftrightarrow>
     (waiter < length (st_tasks s) \<longrightarrow>
        (waiting (st_tasks s ! waiter) \<longrightarrow> (\<exists>c. st_cell s = aw_register ops waiter c)) \<and>
        (waiting (st_tasks s ! waiter) \<longrightarrow> ctl (st_tasks s ! waiter) = Pending \<longrightarrow>
           st_active s < limit \<longrightarrow> (\<exists>j < length (st_tasks s). ctl (st_tasks s ! j) = DropWake)))"

text \<open>Another task's step keeps it, if that task neither frees a permit nor finishes waking.\<close>

lemma wake_inv_other:
  assumes inv: "wake_inv ops limit waiter s" and i: "i < length (st_tasks s)"
    and ni: "i = waiter \<Longrightarrow> \<not> waiting th" and dw: "ctl (st_tasks s ! i) \<noteq> DropWake"
    and a: "ctl th = DropWake \<or> st_active s \<le> a"
  shows "wake_inv ops limit waiter (s\<lparr>st_active := a, st_tasks := (st_tasks s)[i := th]\<rparr>)"
proof (cases "i = waiter")
  case True
  with ni i show ?thesis by (simp add: wake_inv_def)
next
  case False
  have "\<exists>j < length (st_tasks s). ctl ((st_tasks s)[i := th] ! j) = DropWake"
    if "waiter < length (st_tasks s)" "waiting (st_tasks s ! waiter)"
      "ctl (st_tasks s ! waiter) = Pending" "a < limit"
  proof (cases "ctl th = DropWake")
    case True
    with i show ?thesis by (intro exI [of _ i]) simp
  next
    case nd: False
    with a that(4) have "st_active s < limit" by simp
    with inv that obtain j where "j < length (st_tasks s)" "ctl (st_tasks s ! j) = DropWake"
      by (auto simp: wake_inv_def)
    with dw show ?thesis by (intro exI [of _ j]) (cases "i = j"; simp)
  qed
  with False inv show ?thesis by (auto simp: wake_inv_def)
qed

lemma wake_inv_set_task:
  assumes "wake_inv ops limit waiter s" and "i < length (st_tasks s)"
    and "i = waiter \<Longrightarrow> \<not> waiting th" and "ctl (st_tasks s ! i) \<noteq> DropWake"
  shows "wake_inv ops limit waiter (set_task s i th)"
  using wake_inv_other [OF assms, where a = "st_active s"] by (simp add: set_task_def)

lemma wake_inv_poll:
  assumes inv: "wake_inv ops limit waiter s" and w: "waiter < length (st_tasks s)"
    and p: "poll_step ops limit cas_ok waiter (st_active s) (st_cell s) (st_tasks s ! waiter) = Some (a, c, th)"
  shows "wake_inv ops limit waiter (set_task (s\<lparr>st_active := a, st_cell := c\<rparr>) waiter th)"
  using inv w p
  by (auto simp: wake_inv_def poll_step_def waiting_def split: ctl.splits if_splits)

lemma notified_notify: "notified (ths ! i) \<Longrightarrow> notified (notify ths w ! i)"
  by (cases w; cases "w = Some i") (auto simp: nth_list_update)

lemma waiting_notify: "waiting (notify ths w ! i) \<Longrightarrow> waiting (ths ! i)"
  by (auto simp: waiting_def dest: notified_notify)

lemma wake_inv_drop_wake:
  assumes law: "wakes_last_registered ops" and inv: "wake_inv ops limit waiter s"
    and i: "i < length (st_tasks s)" and dw: "ctl (st_tasks s ! i) = DropWake"
    and c: "aw_wake ops (st_cell s) = (c, w)"
  shows "wake_inv ops limit waiter
     (s\<lparr>st_cell := c, st_tasks := notify ((st_tasks s)[i := (st_tasks s ! i)\<lparr>ctl := Idle\<rparr>]) w\<rparr>)"
proof -
  let ?ths = "(st_tasks s)[i := (st_tasks s ! i)\<lparr>ctl := Idle\<rparr>]"
  have "\<not> waiting (notify ?ths w ! waiter)" if wl: "waiter < length (st_tasks s)"
  proof
    assume wt: "waiting (notify ?ths w ! waiter)"
    then have "waiting (?ths ! waiter)" by (rule waiting_notify)
    with wl i have "waiting (st_tasks s ! waiter)"
      by (cases "i = waiter") (auto simp: waiting_def)
    with inv wl obtain c0 where "st_cell s = aw_register ops waiter c0"
      by (auto simp: wake_inv_def)
    with law c have "w = Some waiter" by (metis wakes_last_registered_def snd_conv)
    with wl wt show False by (simp add: waiting_def)
  qed
  then show ?thesis by (simp add: wake_inv_def)
qed

lemma wake_inv_drop:
  assumes law: "wakes_last_registered ops" and inv: "wake_inv ops limit waiter s"
    and i: "i < length (st_tasks s)"
    and d: "drop_step ops cas_ok (st_active s) (st_cell s) (st_tasks s ! i) = Some (a, c, th, w)"
  shows "wake_inv ops limit waiter
     (s\<lparr>st_active := a, st_cell := c, st_tasks := notify ((st_tasks s)[i := th]) w\<rparr>)"
proof (cases "ctl (st_tasks s ! i) = DropWake")
  case True
  with d have "a = st_active s" "th = (st_tasks s ! i)\<lparr>ctl := Idle\<rparr>" "aw_wake ops (st_cell s) = (c, w)"
    by (auto simp: drop_step_def split: prod.splits)
  with wake_inv_drop_wake [OF law inv i True, of c w] show ?thesis by simp
next
  case False
  with d have "w = None" "c = st_cell s" "ctl th = DropWake \<or> st_active s \<le> a" "\<not> waiting th"
    by (auto simp: drop_step_def waiting_def split: ctl.splits if_splits)
  with wake_inv_other [OF inv i _ False, where a = a and th = th] show ?thesis by simp
qed

lemma wake_inv_try:
  assumes "wake_inv ops limit waiter s" and "i < length (st_tasks s)"
    and t: "try_acquire_step limit cas_ok (st_active s) (st_tasks s ! i) = Some (a, th)"
  shows "wake_inv ops limit waiter (set_task (s\<lparr>st_active := a\<rparr>) i th)"
proof -
  from t have "ctl (st_tasks s ! i) \<noteq> DropWake" "\<not> waiting th" "st_active s \<le> a"
    by (auto simp: try_acquire_step_def waiting_def split: ctl.splits if_splits)
  with wake_inv_other [OF assms(1,2), where a = a and th = th] show ?thesis
    by (simp add: set_task_def)
qed

lemma wake_inv_hand_over:
  assumes inv: "wake_inv ops limit waiter s"
    and ij: "i < length (st_tasks s)" "j < length (st_tasks s)" "i \<noteq> j"
    and same: "ctl ti = ctl (st_tasks s ! i)" "notified ti = notified (st_tasks s ! i)"
      "ctl tj = ctl (st_tasks s ! j)" "notified tj = notified (st_tasks s ! j)"
  shows "wake_inv ops limit waiter (set_task (set_task s i ti) j tj)"
proof -
  have "ctl ((st_tasks s)[i := ti, j := tj] ! k) = ctl (st_tasks s ! k)"
    "notified ((st_tasks s)[i := ti, j := tj] ! k) = notified (st_tasks s ! k)" for k
    using ij same by (cases "k = j"; cases "k = i"; simp)+
  with inv show ?thesis by (simp add: wake_inv_def waiting_def)
qed

lemma limit_step_wake_inv:
  assumes "limit_step ops limit waiter s t" and "wakes_last_registered ops"
    and "wake_inv ops limit waiter s"
  shows "wake_inv ops limit waiter t"
  using assms
  by (cases rule: limit_step.cases)
    (auto simp: waiting_def intro: wake_inv_set_task wake_inv_hand_over wake_inv_try
      wake_inv_poll wake_inv_drop)

lemma limit_reachable_wake_inv:
  assumes "limit_reachable ops limit waiter s" and "wakes_last_registered ops"
  shows "wake_inv ops limit waiter s"
  using assms(1)
proof (induction rule: limit_reachable.induct)
  case (start n cell)
  show ?case by (simp add: wake_inv_def limit_init_def waiting_def)
next
  case (step s t)
  with assms(2) show ?case by (blast intro: limit_step_wake_inv)
qed

section \<open>The limit as an abstract counter\<close>

text \<open>
  The specification: a counter between 0 and the limit that goes up by one for each permit
  given out and down by one for each returned. \<open>try_acquire\<close> and \<open>permit_drop\<close> are the
  operations as a task sees them when it runs undisturbed; without a limit every request
  succeeds and nothing is counted.
\<close>

definition try_acquire :: "WorkerConcurrencyLimit \<Rightarrow> usize \<Rightarrow> usize option" where
  "try_acquire self active =
     (case inner_max self of
        None \<Rightarrow> Some active
      | Some limit \<Rightarrow> if active \<ge> limit then None else Some (active + 1))"

definition permit_drop :: "WorkerConcurrencyLimit \<Rightarrow> usize \<Rightarrow> usize" where
  "permit_drop self active =
     (case inner_max self of
        None \<Rightarrow> active
      | Some limit \<Rightarrow> if active > 0 then active - 1 else active)"

inductive counter_step :: "usize \<Rightarrow> usize \<Rightarrow> usize \<Rightarrow> bool" for limit :: usize where
  stay: "counter_step limit n n"
| up: "try_acquire \<lparr>inner_max = Some limit\<rparr> n = Some n' \<Longrightarrow> counter_step limit n n'"
| down: "0 < n \<Longrightarrow> permit_drop \<lparr>inner_max = Some limit\<rparr> n = n' \<Longrightarrow> counter_step limit n n'"

lemma counter_step_iff:
  "counter_step limit n n' \<longleftrightarrow> n' = n \<or> n < limit \<and> n' = n + 1 \<or> 0 < n \<and> n' = n - 1"
  by (auto simp: counter_step.simps try_acquire_def permit_drop_def)

text \<open>Every interleaved step refines a step of the counter.\<close>

lemma limit_step_refines_counter:
  assumes "limit_step ops limit waiter s t" and inv: "count_inv limit s"
  shows "counter_step limit (st_active s) (st_active t)"
  using assms(1)
proof cases
  case (try_go i cas_ok a th)
  moreover from inv try_go have "task_ok limit (st_tasks s ! i)" by (simp add: count_inv_def)
  ultimately show ?thesis
    by (auto simp: counter_step_iff try_acquire_step_def task_ok_def split: ctl.splits if_splits)
next
  case (poll_go cas_ok a c th)
  moreover from inv poll_go have "task_ok limit (st_tasks s ! waiter)" by (simp add: count_inv_def)
  ultimately show ?thesis
    by (auto simp: counter_step_iff poll_step_def task_ok_def split: ctl.splits if_splits)
next
  case (drop_go i cas_ok a c th w)
  moreover from inv drop_go have "task_ok limit (st_tasks s ! i)" by (simp add: count_inv_def)
  ultimately show ?thesis
    by (auto simp: counter_step_iff drop_step_def task_ok_def split: ctl.splits if_splits prod.splits)
qed (simp_all add: counter_step_iff)

text \<open>Undisturbed, the atomic steps of one task compute the operations of the counter.\<close>

lemma try_acquire_alone:
  assumes "ctl th = TryLoad"
  shows "(if active < limit
          then \<exists>th1 th2. try_acquire_step limit True active th = Some (active, th1) \<and>
                 try_acquire_step limit True active th1 = Some (active + 1, th2) \<and>
                 ctl th2 = Idle \<and> permits th2 = permits th + 1
          else \<exists>th1. try_acquire_step limit True active th = Some (active, th1) \<and>
                 ctl th1 = Idle \<and> permits th1 = permits th)"
  using assms by (auto simp: try_acquire_step_def)

lemma limit_new_unlimited: "inner_max (limit_new m) = None \<longleftrightarrow> m = None \<or> m = Some 0"
  by (auto simp: limit_new_def split: option.splits)

lemma limit_new_limited: "inner_max (limit_new m) = Some k \<longleftrightarrow> m = Some k \<and> 0 < k"
  by (auto simp: limit_new_def split: option.splits)

lemma length_worker_limits [simp]: "length (worker_limits n m) = n"
  by (simp add: worker_limits_def)

lemma nth_worker_limits [simp]: "i < n \<Longrightarrow> worker_limits n m ! i = limit_new m"
  by (simp add: worker_limits_def)

section \<open>The permit contract\<close>

text \<open>
  What the listener loops rely on: a request is refused exactly when the count has reached
  the limit, and giving a permit back undoes a successful request.
\<close>

locale permit_counter =
  fixes acquire :: "usize \<Rightarrow> usize option" and release :: "usize \<Rightarrow> usize"
    and full :: "usize \<Rightarrow> bool"
  assumes acquire_refused: "acquire n = None \<longleftrightarrow> full n"
    and release_acquire: "acquire n = Some n' \<Longrightarrow> release n' = n"
    and acquire_bound: "acquire n = Some n' \<Longrightarrow> n' \<le> n + 1"
begin

lemma acquire_not_full: "\<not> full n \<Longrightarrow> \<exists>n'. acquire n = Some n' \<and> release n' = n"
  using acquire_refused [of n] release_acquire [of n] by (cases "acquire n") auto

end

definition limit_full :: "WorkerConcurrencyLimit \<Rightarrow> usize \<Rightarrow> bool" where
  "limit_full self n \<longleftrightarrow> (case inner_max self of None \<Rightarrow> False | Some limit \<Rightarrow> limit \<le> n)"

interpretation limit_counter: permit_counter "try_acquire self" "permit_drop self" "limit_full self"
  for self
  by unfold_locales
    (auto simp: try_acquire_def permit_drop_def limit_full_def split: option.splits if_splits)

section \<open>Executable schedules\<close>

text \<open>The step relation as a function of a scheduling choice, to run concrete interleavings.\<close>

datatype limit_event =
    BeginTry nat | BeginPoll | Cancel | BeginDrop nat | HandOver nat nat
  | TryGo nat bool | PollGo bool | DropGo nat bool

fun limit_exec ::
    "'c waker_ops \<Rightarrow> usize \<Rightarrow> nat \<Rightarrow> 'c limit_state \<Rightarrow> limit_event \<Rightarrow> 'c limit_state option" where
  "limit_exec ops limit waiter s (BeginTry i) =
     (if i < length (st_tasks s) \<and> ctl (st_tasks s ! i) = Idle
      then Some (set_task s i ((st_tasks s ! i)\<lparr>ctl := TryLoad\<rparr>)) else None)"
| "limit_exec ops limit waiter s BeginPoll =
     (if waiter < length (st_tasks s) \<and>
         (ctl (st_tasks s ! waiter) = Idle \<or> ctl (st_tasks s ! waiter) = Pending)
      then Some (set_task s waiter ((st_tasks s ! waiter)\<lparr>ctl := PollLoad, notified := False\<rparr>)) else None)"
| "limit_exec ops limit waiter s Cancel =
     (if waiter < length (st_tasks s) \<and> ctl (st_tasks s ! waiter) = Pending
      then Some (set_task s waiter ((st_tasks s ! waiter)\<lparr>ctl := Idle\<rparr>)) else None)"
| "limit_exec ops limit waiter s (BeginDrop i) =
     (if i < length (st_tasks s) \<and> ctl (st_tasks s ! i) = Idle \<and> permits (st_tasks s ! i) > 0
      then Some (set_task s i ((st_tasks s ! i)\<lparr>ctl := DropLoad\<rparr>)) else None)"
| "limit_exec ops limit waiter s (HandOver i j) =
     (if i < length (st_tasks s) \<and> j < length (st_tasks s) \<and> i \<noteq> j \<and>
         ctl (st_tasks s ! i) = Idle \<and> permits (st_tasks s ! i) > 0
      then Some (set_task (set_task s i ((st_tasks s ! i)\<lparr>permits := permits (st_tasks s ! i) - 1\<rparr>))
          j ((st_tasks s ! j)\<lparr>permits := permits (st_tasks s ! j) + 1\<rparr>)) else None)"
| "limit_exec ops limit waiter s (TryGo i cas_ok) =
     (if i < length (st_tasks s)
      then map_option (\<lambda>(a, th). set_task (s\<lparr>st_active := a\<rparr>) i th)
             (try_acquire_step limit cas_ok (st_active s) (st_tasks s ! i)) else None)"
| "limit_exec ops limit waiter s (PollGo cas_ok) =
     (if waiter < length (st_tasks s)
      then map_option (\<lambda>(a, c, th). set_task (s\<lparr>st_active := a, st_cell := c\<rparr>) waiter th)
             (poll_step ops limit cas_ok waiter (st_active s) (st_cell s) (st_tasks s ! waiter)) else None)"
| "limit_exec ops limit waiter s (DropGo i cas_ok) =
     (if i < length (st_tasks s)
      then map_option (\<lambda>(a, c, th, w).
               s\<lparr>st_active := a, st_cell := c, st_tasks := notify ((st_tasks s)[i := th]) w\<rparr>)
             (drop_step ops cas_ok (st_active s) (st_cell s) (st_tasks s ! i)) else None)"

lemma limit_exec_step:
  "limit_exec ops limit waiter s ev = Some t \<Longrightarrow> limit_step ops limit waiter s t"
  by (cases ev) (auto intro: limit_step.intros split: if_splits simp del: One_nat_def)

fun limit_run ::
    "'c waker_ops \<Rightarrow> usize \<Rightarrow> nat \<Rightarrow> 'c limit_state \<Rightarrow> limit_event list \<Rightarrow> 'c limit_state option" where
  "limit_run ops limit waiter s [] = Some s"
| "limit_run ops limit waiter s (ev # evs) =
     (case limit_exec ops limit waiter s ev of
        None \<Rightarrow> None
      | Some t \<Rightarrow> limit_run ops limit waiter t evs)"

lemma limit_run_reachable:
  "limit_run ops limit waiter s evs = Some t \<Longrightarrow> limit_reachable ops limit waiter s \<Longrightarrow>
     limit_reachable ops limit waiter t"
  by (induction evs arbitrary: s)
    (auto split: option.splits dest: limit_exec_step intro: limit_reachable.step)

text \<open>An instance of \<open>AtomicWaker\<close>: a slot that holds the last registered waker.\<close>

definition slot_waker :: "nat option waker_ops" where
  "slot_waker = \<lparr>aw_register = (\<lambda>w _. Some w), aw_wake = (\<lambda>c. (None, c))\<rparr>"

lemma slot_waker_law: "wakes_last_registered slot_waker"
  by (simp add: wakes_last_registered_def slot_waker_def)

text \<open>
  Two tasks and one permit: the second takes it, the first finds it gone and goes to sleep,
  the second frees it and is about to wake the first.
\<close>

definition contention :: "limit_event list" where
  "contention =
     [BeginTry 1, TryGo 1 True, TryGo 1 True,
      BeginPoll, PollGo True, PollGo True, PollGo True,
      BeginDrop 1, DropGo 1 True, DropGo 1 True]"

lemma contention_run:
  "limit_run slot_waker 1 0 (limit_init 2 None) contention =
     Some \<lparr>st_active = 0, st_cell = Some 0,
           st_tasks = [\<lparr>ctl = Pending, permits = 0, notified = False\<rparr>,
                       \<lparr>ctl = DropWake, permits = 0, notified = False\<rparr>]\<rparr>"
  by code_simp

section \<open>Properties\<close>

text \<open>C4. However the tasks interleave, the counter equals the number of permits in existence and never
  exceeds the limit; and every step moves it as the abstract counter may move.\<close>

theorem permits_never_exceed_limit:
  assumes "limit_reachable ops limit waiter s"
  shows "st_active s = total_permits (st_tasks s) \<and> st_active s \<le> limit \<and>
         (\<forall>t. limit_step ops limit waiter s t \<longrightarrow> counter_step limit (st_active s) (st_active t))"
proof -
  have inv: "count_inv limit s" by (rule limit_reachable_count_inv [OF assms])
  then have "st_active s = total_permits (st_tasks s) \<and> st_active s \<le> limit"
    by (simp add: count_inv_def)
  with limit_step_refines_counter [OF _ inv] show ?thesis by blast
qed

theorem permits_never_exceed_limit_witness:
  "\<exists>s. limit_run slot_waker 1 0 (limit_init 2 None) (take 3 contention) = Some s \<and>
     st_active s = 1 \<and> total_permits (st_tasks s) = 1"
proof -
  let ?s = "\<lparr>st_active = 1, st_cell = None,
     st_tasks = [\<lparr>ctl = Idle, permits = 0, notified = False\<rparr>,
                 \<lparr>ctl = Idle, permits = 1, notified = False\<rparr>]\<rparr> :: nat option limit_state"
  have run: "limit_run slot_waker 1 0 (limit_init 2 None) (take 3 contention) = Some ?s"
    by code_simp
  from permits_never_exceed_limit [OF limit_run_reachable [OF run limit_reachable.start]] run
  show ?thesis by auto
qed

text \<open>C5. No wake-up is lost: while a listener waits for a permit that has become free, a task that
  freed one is about to wake it, and when that task does so the listener is notified.\<close>

theorem no_lost_wakeup:
  assumes "limit_reachable ops limit waiter s" and "wakes_last_registered ops"
    and "waiter < length (st_tasks s)" and "ctl (st_tasks s ! waiter) = Pending"
    and "\<not> notified (st_tasks s ! waiter)" and "st_active s < limit"
  shows "\<exists>j < length (st_tasks s). ctl (st_tasks s ! j) = DropWake \<and>
           snd (aw_wake ops (st_cell s)) = Some waiter"
  using limit_reachable_wake_inv [OF assms(1,2)] assms(2-)
  by (auto simp: wake_inv_def waiting_def wakes_last_registered_def)

theorem no_lost_wakeup_witness:
  "\<exists>s. limit_run slot_waker 1 0 (limit_init 2 None) contention = Some s \<and>
     (\<exists>j < length (st_tasks s). ctl (st_tasks s ! j) = DropWake \<and>
        snd (aw_wake slot_waker (st_cell s)) = Some 0)"
  using no_lost_wakeup [OF limit_run_reachable [OF contention_run limit_reachable.start] slot_waker_law]
  by (simp add: contention_run del: One_nat_def)

text \<open>A limit of \<open>None\<close> or 0 is no limit: every request succeeds. With a positive limit a request is
  refused exactly when that many permits are out, and dropping a permit undoes a request.\<close>

lemma limit_semantics:
  "(try_acquire (limit_new m) n = None \<longleftrightarrow> (\<exists>k. m = Some k \<and> 0 < k \<and> k \<le> n)) \<and>
   map_option (permit_drop (limit_new m)) (try_acquire (limit_new m) n) =
     (if \<exists>k. m = Some k \<and> 0 < k \<and> k \<le> n then None else Some n)"
proof -
  have full: "limit_full (limit_new m) n \<longleftrightarrow> (\<exists>k. m = Some k \<and> 0 < k \<and> k \<le> n)"
    by (auto simp: limit_full_def limit_new_def split: option.splits)
  show ?thesis
    using limit_counter.acquire_refused [of "limit_new m" n]
      limit_counter.acquire_not_full [of "limit_new m" n] by (auto simp: full)
qed

end
