(* ===== verification/Serve_Loop.thy ===== *)
theory Serve_Loop
  imports Orig_Dst Concurrency "HOL-Library.Multiset" "HOL-Library.Sublist"
begin

text \<open>
  The asynchronous loops of the servers (\<open>src/core/tcp.rs\<close>, \<open>udp.rs\<close>, \<open>quic.rs\<close>) share a small
  set of effects: they read two flags that other threads may clear at any moment, wait for a
  permit, a connection, a datagram or a work item, and hand work to a handler or to another
  worker. Here a loop is a state transformer that records each effect with its outcome in a
  trace, newest first. What happens outside the loop is a parameter: a record of answers, each
  a function of the trace so far, so every interleaving with the other threads is some answer.
  An answer \<open>None\<close> to an \<open>await\<close> says that the task is dropped while it waits there.
\<close>

section \<open>Effects\<close>

text \<open>A permit of a limit, or \<open>None\<close> for the permit of an absent limit (\<open>ConcurrencyPermit\<close>).\<close>

type_synonym permit = "nat option"

text \<open>
  \<open>Taken\<close> is the receipt of a work item from another worker, \<open>Sent\<close> the transfer of one with its
  permit, \<open>Routed\<close> that of a packet without one, \<open>Spawned\<close> the start of a handler, \<open>Released\<close> the
  drop of a permit; the last flag tells whether the operation succeeded. \<open>Cut\<close> is the end of
  the task at an \<open>await\<close>.
\<close>

datatype 'w event =
    LoadRuntime bool
  | LoadServer bool
  | Acquired permit
  | TryAcquired nat "permit option"
  | Accepted "(nat \<times> SocketAddr) io_result"
  | Received "(u8 list \<times> SocketAddr) io_result"
  | ReceivedMsg "message io_result"
  | LocalAddrRead "SocketAddr io_result"
  | Taken "('w \<times> permit) option"
  | Sent nat 'w permit bool
  | Routed nat 'w bool
  | Spawned 'w permit bool
  | Released permit
  | Cut

record 'w env =
  env_runtime_active :: "'w event list \<Rightarrow> bool"
  env_server_active :: "'w event list \<Rightarrow> bool"
  env_acquire :: "'w event list \<Rightarrow> nat option"
  env_try_acquire :: "'w event list \<Rightarrow> nat option"
  env_accept :: "'w event list \<Rightarrow> (nat \<times> SocketAddr) io_result option"
  env_recv :: "'w event list \<Rightarrow> (u8 list \<times> SocketAddr) io_result option"
  env_recvmsg :: "'w event list \<Rightarrow> message io_result option"
  env_local_addr :: "'w event list \<Rightarrow> SocketAddr io_result"
  env_work :: "'w event list \<Rightarrow> ('w \<times> permit) option option"
  env_send :: "'w event list \<Rightarrow> bool option"
  env_spawn :: "'w event list \<Rightarrow> bool"

record 'w scene =
  sc_env :: "'w env"
  sc_trace :: "'w event list"

type_synonym ('w, 'a) act = "('w scene, 'a) state"

definition observe :: "('w env \<Rightarrow> 'w event list \<Rightarrow> 'a) \<Rightarrow> ('a \<Rightarrow> 'w event) \<Rightarrow> ('w, 'a) act" where
  "observe answer ev =
     State (\<lambda>s. let x = answer (sc_env s) (sc_trace s) in (x, s\<lparr>sc_trace := ev x # sc_trace s\<rparr>))"

definition await :: "('w env \<Rightarrow> 'w event list \<Rightarrow> 'a option) \<Rightarrow> ('a \<Rightarrow> 'w event) \<Rightarrow> ('w, 'a option) act" where
  "await answer ev = observe answer (\<lambda>x. case x of None \<Rightarrow> Cut | Some y \<Rightarrow> ev y)"

definition release :: "permit \<Rightarrow> ('w, unit) act" where
  "release p = observe (\<lambda>_ _. ()) (\<lambda>_. Released p)"

definition is_active :: "('w, bool) act" where
  "is_active =
     State_Monad.bind (observe env_runtime_active LoadRuntime) (\<lambda>r.
       if r then observe env_server_active LoadServer else State_Monad.return False)"

text \<open>An absent limit gives a permit at once; else the outcome depends on the other tasks.\<close>

definition acquire :: "WorkerConcurrencyLimit \<Rightarrow> ('w, permit option) act" where
  "acquire limit =
     (case inner_max limit of
        None \<Rightarrow> observe (\<lambda>_ _. Some None) (\<lambda>p. Acquired None)
      | Some _ \<Rightarrow> await (\<lambda>e tr. map_option Some (env_acquire e tr)) Acquired)"

definition try_acquire :: "nat \<Rightarrow> WorkerConcurrencyLimit \<Rightarrow> ('w, permit option) act" where
  "try_acquire worker_id limit =
     (case inner_max limit of
        None \<Rightarrow> observe (\<lambda>_ _. Some None) (TryAcquired worker_id)
      | Some _ \<Rightarrow> observe (\<lambda>e tr. map_option Some (env_try_acquire e tr)) (TryAcquired worker_id))"

text \<open>
  A failed transfer returns the work item in the error, which is dropped with its permit; a
  handler that could not be spawned is dropped with its permit.
\<close>

definition send_work :: "nat \<Rightarrow> 'w \<Rightarrow> permit \<Rightarrow> ('w, bool) act" where
  "send_work worker_id work p =
     State_Monad.bind (await env_send (Sent worker_id work p)) (\<lambda>r.
       if r = Some True then State_Monad.return True
       else State_Monad.bind (release p) (\<lambda>_. State_Monad.return False))"

text \<open>A closed channel ends the loop, as the end of the task does.\<close>

definition recv_work :: "('w, ('w \<times> permit) option) act" where
  "recv_work = State_Monad.bind (await env_work Taken) (\<lambda>w. State_Monad.return (Option.bind w (\<lambda>x. x)))"

definition spawn_handler :: "'w \<Rightarrow> permit \<Rightarrow> ('w, bool) act" where
  "spawn_handler work p =
     State_Monad.bind (observe env_spawn (Spawned work p)) (\<lambda>r.
       if r then State_Monad.return True
       else State_Monad.bind (release p) (\<lambda>_. State_Monad.return False))"

section \<open>Loops\<close>

text \<open>One turn of a loop on its local variables; \<open>loop_run n\<close> is at most \<open>n\<close> turns.\<close>

datatype 'b flow = Continue 'b | Break

fun loop_run :: "nat \<Rightarrow> ('b \<Rightarrow> ('w, 'b flow) act) \<Rightarrow> 'b \<Rightarrow> ('w, 'b flow) act" where
  "loop_run 0 turn b = State_Monad.return (Continue b)"
| "loop_run (Suc n) turn b =
     State_Monad.bind (turn b) (\<lambda>r.
       case r of Continue b' \<Rightarrow> loop_run n turn b' | Break \<Rightarrow> State_Monad.return Break)"

named_theorems act_simps

lemma run_observe [act_simps]:
  "run_state (observe answer ev) s =
     (let x = answer (sc_env s) (sc_trace s) in (x, s\<lparr>sc_trace := ev x # sc_trace s\<rparr>))"
  by (simp add: observe_def)

lemma run_act_bind [act_simps]:
  "run_state (State_Monad.bind m f) s = (case run_state m s of (x, s') \<Rightarrow> run_state (f x) s')"
  by (simp split: prod.split)

section \<open>Reasoning about all answers\<close>

text \<open>
  \<open>ensures m tr Q\<close>: started on the trace \<open>tr\<close>, whatever the answers, \<open>m\<close> ends in \<open>Q\<close> and leaves
  the parameter alone. One rule per effect takes a loop's body apart.
\<close>

definition ensures :: "('w, 'a) act \<Rightarrow> 'w event list \<Rightarrow> ('a \<Rightarrow> 'w event list \<Rightarrow> bool) \<Rightarrow> bool" where
  "ensures m tr Q \<longleftrightarrow>
     (\<forall>s. sc_trace s = tr \<longrightarrow>
        (case run_state m s of (x, s') \<Rightarrow> Q x (sc_trace s') \<and> sc_env s' = sc_env s))"

lemma ensuresD:
  "ensures m (sc_trace s) Q \<Longrightarrow> run_state m s = (x, s') \<Longrightarrow> Q x (sc_trace s') \<and> sc_env s' = sc_env s"
  by (auto simp: ensures_def)

named_theorems ensures_rules

lemma ensures_return [ensures_rules]: "Q x tr \<Longrightarrow> ensures (State_Monad.return x) tr Q"
  by (simp add: ensures_def)

lemma ensures_bind [ensures_rules]:
  fixes m :: "('w, 'a) act"
  shows "ensures m tr (\<lambda>x tr'. ensures (f x) tr' Q) \<Longrightarrow> ensures (State_Monad.bind m f) tr Q"
  unfolding ensures_def
proof (intro allI impI)
  fix s :: "'w scene"
  assume m: "\<forall>s. sc_trace s = tr \<longrightarrow> (case run_state m s of (x, s') \<Rightarrow>
      (\<forall>t. sc_trace t = sc_trace s' \<longrightarrow> (case run_state (f x) t of (y, t') \<Rightarrow>
         Q y (sc_trace t') \<and> sc_env t' = sc_env t)) \<and> sc_env s' = sc_env s)"
    and s: "sc_trace s = tr"
  obtain x s' where r: "run_state m s = (x, s')" by fastforce
  obtain y t' where r2: "run_state (f x) s' = (y, t')" by fastforce
  from m [rule_format, OF s] r r2
  have "Q y (sc_trace t') \<and> sc_env t' = sc_env s' \<and> sc_env s' = sc_env s" by auto
  with r r2 show "case run_state (State_Monad.bind m f) s of (x, s') \<Rightarrow>
      Q x (sc_trace s') \<and> sc_env s' = sc_env s" by simp
qed

lemma ensures_observe: "(\<And>x. Q x (ev x # tr)) \<Longrightarrow> ensures (observe answer ev) tr Q"
  by (simp add: ensures_def run_observe Let_def)

lemma ensures_await [ensures_rules]:
  "Q None (Cut # tr) \<Longrightarrow> (\<And>x. Q (Some x) (ev x # tr)) \<Longrightarrow> ensures (await answer ev) tr Q"
  unfolding await_def by (rule ensures_observe) (simp split: option.split)

lemma ensures_release [ensures_rules]: "Q () (Released p # tr) \<Longrightarrow> ensures (release p) tr Q"
  unfolding release_def by (rule ensures_observe) simp

lemma ensures_server_flag [ensures_rules]:
  "Q True (LoadServer True # tr) \<Longrightarrow> Q False (LoadServer False # tr) \<Longrightarrow>
     ensures (observe env_server_active LoadServer) tr Q"
proof (rule ensures_observe)
  fix x
  show "Q True (LoadServer True # tr) \<Longrightarrow> Q False (LoadServer False # tr) \<Longrightarrow> Q x (LoadServer x # tr)"
    by (cases x) simp_all
qed

lemma ensures_is_active [ensures_rules]:
  assumes "Q True (LoadServer True # LoadRuntime True # tr)"
    and "Q False (LoadServer False # LoadRuntime True # tr)" and "Q False (LoadRuntime False # tr)"
  shows "ensures is_active tr Q"
  unfolding is_active_def
proof (intro ensures_bind ensures_observe)
  fix x
  show "ensures (if x then observe env_server_active LoadServer else State_Monad.return False)
      (LoadRuntime x # tr) Q"
    using assms by (cases x) (simp_all add: ensures_server_flag ensures_return)
qed

lemma ensures_acquire [ensures_rules]:
  "Q None (Cut # tr) \<Longrightarrow> (\<And>p. Q (Some p) (Acquired p # tr)) \<Longrightarrow> ensures (acquire limit) tr Q"
  unfolding acquire_def by (cases "inner_max limit") (simp_all add: ensures_await, simp add: ensures_def run_observe)

lemma ensures_try_acquire [ensures_rules]:
  "Q None (TryAcquired i None # tr) \<Longrightarrow> (\<And>p. Q (Some p) (TryAcquired i (Some p) # tr)) \<Longrightarrow>
     ensures (try_acquire i limit) tr Q"
  unfolding try_acquire_def
proof (cases "inner_max limit")
  case (Some m)
  assume none: "Q None (TryAcquired i None # tr)" and some: "\<And>p. Q (Some p) (TryAcquired i (Some p) # tr)"
  have "Q x (TryAcquired i x # tr)" for x using none some by (cases x) simp_all
  then have "ensures (observe (\<lambda>e tr. map_option Some (env_try_acquire e tr)) (TryAcquired i)) tr Q"
    by (rule ensures_observe)
  with Some show "ensures (case inner_max limit of
        None \<Rightarrow> observe (\<lambda>_ _. Some None) (TryAcquired i)
      | Some _ \<Rightarrow> observe (\<lambda>e tr. map_option Some (env_try_acquire e tr)) (TryAcquired i)) tr Q" by simp
qed (simp add: ensures_def run_observe Let_def)

lemma ensures_send_work [ensures_rules]:
  "Q True (Sent i w p True # tr) \<Longrightarrow> Q False (Released p # Sent i w p False # tr) \<Longrightarrow>
     Q False (Released p # Cut # tr) \<Longrightarrow> ensures (send_work i w p) tr Q"
  unfolding send_work_def by (intro ensures_bind ensures_await) (auto intro: ensures_rules)

lemma ensures_recv_work [ensures_rules]:
  "Q None (Cut # tr) \<Longrightarrow> (\<And>w. Q w (Taken w # tr)) \<Longrightarrow> ensures recv_work tr Q"
  unfolding recv_work_def by (intro ensures_bind ensures_await) (auto intro: ensures_rules)

lemma ensures_spawn_handler [ensures_rules]:
  "Q True (Spawned w p True # tr) \<Longrightarrow> Q False (Released p # Spawned w p False # tr) \<Longrightarrow>
     ensures (spawn_handler w p) tr Q"
  unfolding spawn_handler_def by (intro ensures_bind ensures_observe) (auto intro: ensures_rules)

section \<open>Reading a trace\<close>

text \<open>Permits that came to the loop, that it gave away with work, and that it dropped.\<close>

fun gained :: "'w event list \<Rightarrow> permit multiset" where
  "gained [] = {#}"
| "gained (Acquired p # tr) = add_mset p (gained tr)"
| "gained (TryAcquired i (Some p) # tr) = add_mset p (gained tr)"
| "gained (Taken (Some (w, p)) # tr) = add_mset p (gained tr)"
| "gained (_ # tr) = gained tr"

fun given :: "'w event list \<Rightarrow> permit multiset" where
  "given [] = {#}"
| "given (Sent i w p True # tr) = add_mset p (given tr)"
| "given (Spawned w p True # tr) = add_mset p (given tr)"
| "given (_ # tr) = given tr"

fun released :: "'w event list \<Rightarrow> permit multiset" where
  "released [] = {#}"
| "released (Released p # tr) = add_mset p (released tr)"
| "released (_ # tr) = released tr"

definition balanced :: "'w event list \<Rightarrow> bool" where
  "balanced tr \<longleftrightarrow> gained tr = given tr + released tr"

text \<open>
  Work that was handed over, oldest first, with the worker it went to (\<open>None\<close> for the loop's
  own), and the workers for which a permit was refused.
\<close>

fun delivered :: "'w event list \<Rightarrow> (nat option \<times> 'w) list" where
  "delivered [] = []"
| "delivered (Sent i w p True # tr) = delivered tr @ [(Some i, w)]"
| "delivered (Routed i w True # tr) = delivered tr @ [(Some i, w)]"
| "delivered (Spawned w p True # tr) = delivered tr @ [(None, w)]"
| "delivered (_ # tr) = delivered tr"

fun refused :: "'w event list \<Rightarrow> nat option multiset" where
  "refused [] = {#}"
| "refused (TryAcquired i None # tr) = add_mset (Some i) (refused tr)"
| "refused (_ # tr) = refused tr"

text \<open>
  What should be handed over: \<open>offer\<close> looks at the newest events and tells where the work that
  they complete has to go.
\<close>

fun offered :: "('w event list \<Rightarrow> (nat option \<times> 'w) option) \<Rightarrow> 'w event list \<Rightarrow> (nat option \<times> 'w) list" where
  "offered offer [] = []"
| "offered offer (e # tr) =
     offered offer tr @ (case offer (e # tr) of None \<Rightarrow> [] | Some x \<Rightarrow> [x])"

text \<open>A flag that was read as cleared, and that after it nothing happens but dropping permits.\<close>

fun cleared :: "'w event \<Rightarrow> bool" where
  "cleared (LoadRuntime b) \<longleftrightarrow> \<not> b"
| "cleared (LoadServer b) \<longleftrightarrow> \<not> b"
| "cleared _ \<longleftrightarrow> False"

fun quiet :: "'w event list \<Rightarrow> bool" where
  "quiet [] \<longleftrightarrow> True"
| "quiet (Released p # tr) \<longleftrightarrow> quiet tr"
| "quiet (e # tr) \<longleftrightarrow> list_all (\<lambda>e. \<not> cleared e) tr"

lemma quiet_Cons:
  "list_all (\<lambda>e. \<not> cleared e) tr \<Longrightarrow> quiet (e # tr)"
  by (cases e) (auto elim: quiet.elims, induction tr rule: quiet.induct, auto)

section \<open>The contract of a loop\<close>

text \<open>
  Between two turns: no permit is held, no flag was seen cleared, and the work on offer was
  handed over in order except what was refused, worker by worker. At the end: the same up to
  one item, and nothing happened after a flag was seen cleared.
\<close>

definition listening :: "('w event list \<Rightarrow> (nat option \<times> 'w) option) \<Rightarrow> 'w event list \<Rightarrow> bool" where
  "listening offer tr \<longleftrightarrow>
     balanced tr \<and> list_all (\<lambda>e. \<not> cleared e) tr \<and>
     subseq (delivered tr) (offered offer tr) \<and>
     mset (map fst (offered offer tr)) = mset (map fst (delivered tr)) + refused tr"

definition ended :: "('w event list \<Rightarrow> (nat option \<times> 'w) option) \<Rightarrow> 'w event list \<Rightarrow> bool" where
  "ended offer tr \<longleftrightarrow>
     balanced tr \<and> quiet tr \<and> subseq (delivered tr) (offered offer tr) \<and>
     length (offered offer tr) \<le> length (delivered tr) + size (refused tr) + 1"

lemma listening_Nil [simp]: "listening offer []"
  by (simp add: listening_def balanced_def)

lemma subseq_snoc_right: "subseq xs ys \<Longrightarrow> subseq xs (ys @ [y])"
  by (metis append_Nil2 list_emb_append_mono list_emb_Nil)

lemma subseq_set: "subseq xs ys \<Longrightarrow> set xs \<subseteq> set ys"
  by (auto dest: list_emb_set)

lemma offered_set: "x \<in> set (offered offer tr) \<Longrightarrow> \<exists>tr'. offer tr' = Some x"
  by (induction tr) (auto split: option.splits)

lemma size_mset_offered:
  "mset (map fst xs) = mset (map fst ys) + r \<Longrightarrow> length xs = length ys + size r"
  by (metis length_map size_mset size_union)

lemma quiet_uncleared: "list_all (\<lambda>e. \<not> cleared e) tr \<Longrightarrow> quiet tr"
  by (induction tr) (auto intro: quiet_Cons)

lemmas contract_simps =
  listening_def ended_def balanced_def subseq_snoc_right size_mset_offered quiet_Cons
  quiet_uncleared

lemmas turn_splits = option.split sum.split prod.split

locale serving_loop =
  fixes turn :: "'b \<Rightarrow> ('w, 'b flow) act"
    and offer :: "'w event list \<Rightarrow> (nat option \<times> 'w) option"
    and ok :: "'b \<Rightarrow> 'w event list \<Rightarrow> bool"
  assumes turn_contract: "ok b tr \<Longrightarrow> listening offer tr \<Longrightarrow>
      ensures (turn b) tr (\<lambda>r tr'. case r of
        Continue b' \<Rightarrow> ok b' tr' \<and> listening offer tr' | Break \<Rightarrow> ended offer tr')"
    and turn_stops: "\<forall>tr. \<not> env_server_active (sc_env s) tr \<Longrightarrow>
      run_state (turn b) s = (r, s') \<Longrightarrow> r = Break \<and> delivered (sc_trace s') = delivered (sc_trace s)"
begin

lemma loop_contract:
  assumes "ok b (sc_trace s)" and "listening offer (sc_trace s)" and "run_state (loop_run n turn b) s = (r, s')"
  shows "(case r of Continue b' \<Rightarrow> ok b' (sc_trace s') \<and> listening offer (sc_trace s') | Break \<Rightarrow> ended offer (sc_trace s'))"
  using assms
proof (induction n arbitrary: b s)
  case (Suc n)
  obtain f s1 where f: "run_state (turn b) s = (f, s1)" by fastforce
  note turn = ensuresD [OF turn_contract [OF Suc.prems(1,2)] f]
  show ?case
  proof (cases f)
    case (Continue b1)
    with Suc.prems f turn show ?thesis by (intro Suc.IH [of b1 s1]) (auto simp: act_simps)
  next
    case Break
    with Suc.prems f turn show ?thesis by (auto simp: act_simps)
  qed
qed auto

lemma loop_from_start:
  assumes "ok b []" and "run_state (loop_run n turn b) \<lparr>sc_env = e, sc_trace = []\<rparr> = (r, s')"
  shows "balanced (sc_trace s') \<and> quiet (sc_trace s') \<and>
         subseq (delivered (sc_trace s')) (offered offer (sc_trace s')) \<and>
         (r \<noteq> Break \<longrightarrow> mset (map fst (offered offer (sc_trace s'))) =
            mset (map fst (delivered (sc_trace s'))) + refused (sc_trace s'))"
proof -
  have "case r of Continue b' \<Rightarrow> ok b' (sc_trace s') \<and> listening offer (sc_trace s') | Break \<Rightarrow> ended offer (sc_trace s')"
    using loop_contract [OF _ _ assms(2)] assms(1) by simp
  then show ?thesis by (cases r) (auto simp: listening_def ended_def quiet_uncleared)
qed

lemma loop_stops:
  assumes "\<forall>tr. \<not> env_server_active (sc_env s) tr"
    and "run_state (loop_run (Suc n) turn b) s = (r, s')"
  shows "r = Break \<and> delivered (sc_trace s') = delivered (sc_trace s)"
proof -
  obtain f s1 where f: "run_state (turn b) s = (f, s1)" by fastforce
  with turn_stops [OF assms(1) f] assms(2) show ?thesis by (simp add: act_simps)
qed

lemma loop_safe:
  assumes "ok b []" and "run_state (loop_run n turn b) \<lparr>sc_env = e, sc_trace = []\<rparr> = (r, s')"
  shows "gained (sc_trace s') = given (sc_trace s') + released (sc_trace s') \<and> quiet (sc_trace s') \<and>
         ((\<forall>tr. \<not> env_server_active e tr) \<and> 0 < n \<longrightarrow> r = Break \<and> delivered (sc_trace s') = [])"
proof (intro conjI impI)
  assume "(\<forall>tr. \<not> env_server_active e tr) \<and> 0 < n"
  moreover from this obtain m where "n = Suc m" by (auto simp: gr0_conv_Suc)
  ultimately have "r = Break \<and> delivered (sc_trace s') = delivered []"
    using loop_stops [of "\<lparr>sc_env = e, sc_trace = []\<rparr>" m b r s'] assms(2) by (auto simp del: loop_run.simps)
  then show "r = Break" "delivered (sc_trace s') = []" by simp_all
qed (use loop_from_start [OF assms] in \<open>auto simp: balanced_def\<close>)

end

section \<open>Shared by the servers\<close>

text \<open>A dispatch loop has to hand over the work items it takes from its channel.\<close>

fun work_offer :: "'w event list \<Rightarrow> (nat option \<times> 'w) option" where
  "work_offer (Taken (Some (w, p)) # _) = Some (None, w)"
| "work_offer _ = None"

text \<open>A loop whose turn begins with the two flags ends when the server is closed.\<close>

lemma inactive_stops:
  assumes "\<forall>tr. \<not> env_server_active (sc_env s) tr"
  shows "fst (run_state is_active s) = False \<and>
         delivered (sc_trace (snd (run_state is_active s))) = delivered (sc_trace s)"
  using assms by (simp add: is_active_def act_simps Let_def)

lemma inactive_turn:
  assumes "\<forall>tr. \<not> env_server_active (sc_env s) tr"
    and "run_state (State_Monad.bind is_active (\<lambda>a. if \<not> a then State_Monad.return Break else m)) s = (r, s')"
  shows "r = Break \<and> delivered (sc_trace s') = delivered (sc_trace s)"
  using inactive_stops [OF assms(1)] assms(2) by (auto simp: act_simps split: prod.splits)

section \<open>A concrete environment\<close>

text \<open>
  Everything succeeds, and a connection or datagram is always there: the connection is numbered
  by the length of the trace. To run the loops on.
\<close>

definition busy_env :: "'w env" where
  "busy_env =
     \<lparr>env_runtime_active = (\<lambda>_. True), env_server_active = (\<lambda>_. True),
      env_acquire = (\<lambda>tr. Some (length tr)), env_try_acquire = (\<lambda>tr. Some (length tr)),
      env_accept = (\<lambda>tr. Some (Inr (length tr, SocketAddrV4 (ipv4 10 0 0 7) 5000))),
      env_recv = (\<lambda>tr. Some (Inr ([0x40, 0, 1], SocketAddrV4 (ipv4 10 0 0 7) 5000))),
      env_recvmsg = (\<lambda>_. None),
      env_local_addr = (\<lambda>_. Inr (SocketAddrV4 (ipv4 127 0 0 1) 4433)),
      env_work = (\<lambda>_. None), env_send = (\<lambda>_. Some True), env_spawn = (\<lambda>_. True)\<rparr>"

lemmas run_loops =
  busy_env_def numeral_2_eq_2 act_simps Let_def await_def release_def is_active_def acquire_def
  try_acquire_def send_work_def recv_work_def spawn_handler_def limit_new_def

lemma inactive_server_turn:
  assumes "\<forall>tr. \<not> env_server_active (sc_env s) tr"
    and "run_state (State_Monad.bind (observe env_server_active LoadServer)
      (\<lambda>a. if \<not> a then State_Monad.return Break else m)) s = (r, s')"
  shows "r = Break \<and> delivered (sc_trace s') = delivered (sc_trace s)"
  using assms by (auto simp: act_simps)

end
