(* ===== verification/Udp_Loops.thy ===== *)
theory Udp_Loops
  imports Udp_Socket Serve_Loop Schedule
begin

text \<open>
  The loops of the UDP server (\<open>src/core/udp.rs\<close>). A worker with a socket of its own starts a
  handler per datagram; without kernel balancing one loop receives everything and sends each
  datagram, with a permit of the target's limit, to the worker its addresses select; and for
  servers that hand out sockets, a loop puts packets on the channel of the worker that a
  routing function names. The receive buffer is a variable of the loop: it is reused from turn
  to turn, and only its first \<open>len\<close> bytes belong to the datagram at hand.
\<close>

section \<open>Receiving\<close>

definition new_buffer :: "u8 list" where
  "new_buffer = replicate 65536 0"

text \<open>
  \<open>recv_packet_with_local_addr\<close> on a socket of the runtime. The transparent path exists on
  Linux with tokio only (\<open>uses_transparent_receive\<close>); \<open>None\<close> is the end of the task in the
  \<open>await\<close>.
\<close>

definition recv_packet_with_local_addr ::
    "bool \<Rightarrow> u8 list \<Rightarrow> ('w, (nat \<times> SocketAddr \<times> SocketAddr \<times> u8 list) result option) act" where
  "recv_packet_with_local_addr transparent_receive buffer =
     (if transparent_receive then do {
        a \<leftarrow> observe env_local_addr LocalAddrRead;
        case a of
          Inl e \<Rightarrow> State_Monad.return (Some (Inl (error_from e)))
        | Inr fallback_local_addr \<Rightarrow> do {
        m \<leftarrow> await env_recvmsg ReceivedMsg;
        State_Monad.return (map_option (\<lambda>m.
          map_err error_from (map_ok (\<lambda>(data, peer, destination).
            let (len, buffer) = store buffer data in (len, peer, destination, buffer))
            (recv_udp_original_dst Linux Tokio m fallback_local_addr))) m)}}
      else do {
        m \<leftarrow> await env_recv Received;
        case m of
          None \<Rightarrow> State_Monad.return None
        | Some m \<Rightarrow>
        (case map_err error_from (udp_recv_from m buffer) of
          Inl e \<Rightarrow> State_Monad.return (Some (Inl e))
        | Inr (len, peer, buffer) \<Rightarrow> do {
        a \<leftarrow> observe env_local_addr LocalAddrRead;
        State_Monad.return (Some (map_err error_from (map_ok (\<lambda>bound. (len, peer, bound, buffer)) a)))})})"

section \<open>Loops\<close>

type_synonym udp_work = "PacketMeta \<times> u8 list"

definition spawn_udp_handler :: "PacketMeta \<Rightarrow> u8 list \<Rightarrow> permit \<Rightarrow> (udp_work, bool) act" where
  "spawn_udp_handler meta payload permit = spawn_handler (meta, payload) permit"

definition send_routed_packet :: "usize \<Rightarrow> RoutedPacket \<Rightarrow> (RoutedPacket, bool) act" where
  "send_routed_packet sender packet = do {
     r \<leftarrow> await env_send (Routed sender packet);
     State_Monad.return (r = Some True)}"

lemma ensures_spawn_udp_handler [ensures_rules]:
  "Q True (Spawned (meta, payload) p True # tr) \<Longrightarrow> Q False (Released p # Spawned (meta, payload) p False # tr) \<Longrightarrow>
     ensures (spawn_udp_handler meta payload p) tr Q"
  unfolding spawn_udp_handler_def by (rule ensures_spawn_handler)

lemma ensures_send_routed_packet [ensures_rules]:
  "(\<And>b. Q b (Routed i w b # tr)) \<Longrightarrow> Q False (Cut # tr) \<Longrightarrow> ensures (send_routed_packet i w) tr Q"
  unfolding send_routed_packet_def by (intro ensures_bind ensures_await) (auto intro: ensures_rules)

definition udp_listener_turn ::
    "WorkerConcurrencyLimit \<Rightarrow> bool \<Rightarrow> u8 list \<Rightarrow> (udp_work, u8 list flow) act" where
  "udp_listener_turn limit transparent_receive buffer = do {
     a \<leftarrow> is_active;
     if \<not> a then State_Monad.return Break else do {
     p \<leftarrow> acquire limit;
     case p of
       None \<Rightarrow> State_Monad.return Break
     | Some permit \<Rightarrow> do {
     a \<leftarrow> is_active;
     if \<not> a then do {release permit; State_Monad.return Break} else do {
     r \<leftarrow> recv_packet_with_local_addr transparent_receive buffer;
     case r of
       None \<Rightarrow> do {release permit; State_Monad.return Break}
     | Some (Inl _) \<Rightarrow> do {
         a \<leftarrow> is_active;
         release permit;
         State_Monad.return (if a then Continue new_buffer else Break)}
     | Some (Inr (len, peer, bound, buffer)) \<Rightarrow> do {
         a \<leftarrow> is_active;
         if \<not> a then do {release permit; State_Monad.return Break} else do {
         r \<leftarrow> spawn_udp_handler \<lparr>peer_addr = Some peer, local_addr = Some bound\<rparr> (take len buffer) permit;
         State_Monad.return (if r then Continue buffer else Break)}}}}}}"

definition simulated_udp_listener_turn ::
    "usize \<Rightarrow> usize list \<Rightarrow> WorkerConcurrencyLimit list \<Rightarrow> bool \<Rightarrow> u8 list \<Rightarrow> (udp_work, u8 list flow) act" where
  "simulated_udp_listener_turn workers senders limits transparent_receive buffer = do {
     a \<leftarrow> is_active;
     if \<not> a then State_Monad.return Break else do {
     r \<leftarrow> recv_packet_with_local_addr transparent_receive buffer;
     case r of
       None \<Rightarrow> State_Monad.return Break
     | Some (Inl _) \<Rightarrow> do {
         a \<leftarrow> is_active;
         State_Monad.return (if a then Continue new_buffer else Break)}
     | Some (Inr (len, peer, bound, buffer)) \<Rightarrow> do {
         a \<leftarrow> is_active;
         if \<not> a then State_Monad.return Break else
         let meta = \<lparr>peer_addr = Some peer, local_addr = Some bound\<rparr> in
         case linux_reuseport_select meta workers of
           Inl _ \<Rightarrow> State_Monad.return Break
         | Inr worker_id \<Rightarrow>
         (case slice_get limits worker_id of
           None \<Rightarrow> State_Monad.return Break
         | Some limit \<Rightarrow> do {
         p \<leftarrow> try_acquire worker_id limit;
         case p of
           None \<Rightarrow> State_Monad.return (Continue buffer)
         | Some permit \<Rightarrow>
         (case slice_get senders worker_id of
           None \<Rightarrow> do {release permit; State_Monad.return Break}
         | Some sender \<Rightarrow> do {
         r \<leftarrow> send_work sender (meta, take len buffer) permit;
         State_Monad.return (if r then Continue buffer else Break)})})}}}"

definition udp_dispatch_turn :: "unit \<Rightarrow> (udp_work, unit flow) act" where
  "udp_dispatch_turn _ = do {
     a \<leftarrow> observe env_server_active LoadServer;
     if \<not> a then State_Monad.return Break else do {
     w \<leftarrow> recv_work;
     case w of
       Some ((meta, payload), permit) \<Rightarrow> do {
         a \<leftarrow> observe env_server_active LoadServer;
         if \<not> a then do {release permit; State_Monad.return Break} else do {
         r \<leftarrow> spawn_udp_handler meta payload permit;
         State_Monad.return (if r then Continue () else Break)}}
     | _ \<Rightarrow> State_Monad.return Break}}"

text \<open>
  The loop behind socket callbacks has no limits and, unlike the others, does not look at the
  flag again between receiving a packet and passing it on.
\<close>

definition dispatch_socket_only_turn ::
    "SocketAddr \<Rightarrow> usize \<Rightarrow> (u8 list \<Rightarrow> PacketMeta \<Rightarrow> usize \<Rightarrow> usize option) \<Rightarrow> usize list \<Rightarrow> bool \<Rightarrow>
     u8 list \<Rightarrow> (RoutedPacket, u8 list flow) act" where
  "dispatch_socket_only_turn fallback_local_addr workers route_packet senders transparent_receive buffer = do {
     a \<leftarrow> observe env_server_active LoadServer;
     if \<not> a then State_Monad.return Break else do {
     r \<leftarrow> recv_packet_with_local_addr transparent_receive buffer;
     case r of
       None \<Rightarrow> State_Monad.return Break
     | Some (Inl _) \<Rightarrow> do {
         a \<leftarrow> observe env_server_active LoadServer;
         State_Monad.return (if a then Continue new_buffer else Break)}
     | Some (Inr (len, peer, bound, buffer)) \<Rightarrow>
         (let meta = \<lparr>peer_addr = Some peer,
                     local_addr = Some (if transparent_receive then bound else fallback_local_addr)\<rparr> in
         case route_packet (take len buffer) meta workers of
           None \<Rightarrow> State_Monad.return (Continue buffer)
         | Some worker_id \<Rightarrow>
         (case slice_get senders worker_id of
           None \<Rightarrow> State_Monad.return Break
         | Some sender \<Rightarrow> do {
         r \<leftarrow> send_routed_packet sender \<lparr>rp_payload = take len buffer, rp_peer = peer\<rparr>;
         State_Monad.return (if r then Continue buffer else Break)}))}}"

section \<open>What arrives\<close>

text \<open>The peer, the local address and the payload of the datagram that the newest events complete.\<close>

fun arrived :: "'w event list \<Rightarrow> (SocketAddr \<times> SocketAddr \<times> u8 list) option" where
  "arrived (LocalAddrRead (Inr bound) # Received (Inr (data, peer)) # _) =
     Some (peer, bound, take 65536 data)"
| "arrived (ReceivedMsg (Inr m) # LocalAddrRead (Inr bound) # _) =
     (case recv_udp_original_dst Linux Tokio (Inr m) bound of
        Inl _ \<Rightarrow> None
      | Inr (data, peer, destination) \<Rightarrow> Some (peer, destination, take 65536 data))"
| "arrived _ = None"

definition arrival_offer ::
    "(SocketAddr \<times> SocketAddr \<times> u8 list \<Rightarrow> (nat option \<times> 'w) option) \<Rightarrow> 'w event list \<Rightarrow> (nat option \<times> 'w) option" where
  "arrival_offer g tr = Option.bind (arrived tr) g"

text \<open>
  From \<open>tr\<close> to \<open>tr'\<close> at most a datagram arrived, and nothing else happened that matters.
\<close>

definition arrives :: "'w event list \<Rightarrow> 'w event list \<Rightarrow> (SocketAddr \<times> SocketAddr \<times> u8 list) option \<Rightarrow> bool" where
  "arrives tr tr' x \<longleftrightarrow>
     gained tr' = gained tr \<and> given tr' = given tr \<and> released tr' = released tr \<and>
     delivered tr' = delivered tr \<and> refused tr' = refused tr \<and>
     list_all (\<lambda>e. \<not> cleared e) tr' = list_all (\<lambda>e. \<not> cleared e) tr \<and>
     (\<forall>g. offered (arrival_offer g) tr' =
        offered (arrival_offer g) tr @ (case Option.bind x g of None \<Rightarrow> [] | Some y \<Rightarrow> [y]))"

text \<open>Receiving, whatever the socket does: an end, an error that completes nothing, or a datagram.\<close>

lemma recv_original_dst_Inl: "recv_udp_original_dst Linux Tokio (Inl e) bound = Inl e"
  by (simp add: recv_udp_original_dst_eq recv_udp_original_dst_raw_def)

lemma arrives_nothing:
  "arrives tr (Cut # tr) None" "arrives tr (Received (Inl e) # tr) None"
  "arrives tr (LocalAddrRead (Inl e) # Received m # tr) None"
  by (simp_all add: arrives_def arrival_offer_def)

lemma arrives_nothing_transparent:
  assumes "\<And>b. arrived (LocalAddrRead b # tr) = None"
  shows "arrives tr (LocalAddrRead (Inl e) # tr) None" "arrives tr (Cut # LocalAddrRead b # tr) None"
    "recv_udp_original_dst Linux Tokio m bound = Inl e \<Longrightarrow>
       arrives tr (ReceivedMsg m # LocalAddrRead (Inr bound) # tr) None"
proof -
  show "arrives tr (LocalAddrRead (Inl e) # tr) None" "arrives tr (Cut # LocalAddrRead b # tr) None"
    using assms by (simp_all add: arrives_def arrival_offer_def)
  assume "recv_udp_original_dst Linux Tokio m bound = Inl e"
  then show "arrives tr (ReceivedMsg m # LocalAddrRead (Inr bound) # tr) None"
    using assms by (cases m) (simp_all add: arrives_def arrival_offer_def)
qed

lemma arrives_datagram:
  "arrives tr (LocalAddrRead (Inr bound) # Received (Inr (data, peer)) # tr) (Some (peer, bound, take 65536 data))"
  by (simp add: arrives_def arrival_offer_def)

lemma arrives_message:
  assumes "\<And>b. arrived (LocalAddrRead b # tr) = None"
    and "recv_udp_original_dst Linux Tokio m bound = Inr (data, peer, destination)"
  shows "arrives tr (ReceivedMsg m # LocalAddrRead (Inr bound) # tr) (Some (peer, destination, take 65536 data))"
  using assms by (cases m) (simp_all add: arrives_def arrival_offer_def recv_original_dst_Inl)

lemma take_stored:
  assumes "length buffer = 65536"
  shows "take (fst (store buffer data)) (snd (store buffer data)) = take 65536 data"
    and "length (snd (store buffer data)) = 65536"
  using assms take_store [of buffer data] by (simp_all only: length_store(1) assms)

lemma ensures_recv_transparent:
  assumes buffer: "length buffer = 65536" and fresh: "\<And>b. arrived (LocalAddrRead b # tr) = None"
    and cut: "\<And>tr'. arrives tr tr' None \<Longrightarrow> Q None tr'"
    and err: "\<And>tr' e. arrives tr tr' None \<Longrightarrow> Q (Some (Inl e)) tr'"
    and ok: "\<And>tr' len peer bound buffer'. arrives tr tr' (Some (peer, bound, take len buffer')) \<Longrightarrow>
       length buffer' = 65536 \<Longrightarrow> Q (Some (Inr (len, peer, bound, buffer'))) tr'"
  shows "ensures (recv_packet_with_local_addr True buffer) tr Q"
proof -
  have "Q (Some (map_err error_from (map_ok (\<lambda>(data, peer, destination).
          let (len, buffer) = store buffer data in (len, peer, destination, buffer))
          (recv_udp_original_dst Linux Tokio m bound)))) (ReceivedMsg m # LocalAddrRead (Inr bound) # tr)" for m bound
  proof (cases "recv_udp_original_dst Linux Tokio m bound")
    case (Inl e)
    with err arrives_nothing_transparent(3) [OF fresh Inl] show ?thesis by simp
  next
    case (Inr x)
    obtain data peer destination where x: "x = (data, peer, destination)" by (cases x)
    with Inr have "arrives tr (ReceivedMsg m # LocalAddrRead (Inr bound) # tr)
        (Some (peer, destination, take 65536 data))" by (intro arrives_message [OF fresh]) simp
    with ok [where peer = peer and bound = destination and len = "fst (store buffer data)"
        and buffer' = "snd (store buffer data)"] take_stored [OF buffer] Inr x
    show ?thesis by (simp add: case_prod_unfold Let_def)
  qed
  with cut err arrives_nothing_transparent(1,2) [OF fresh] show ?thesis
    unfolding recv_packet_with_local_addr_def
    by (auto intro!: ensures_rules ensures_observe split: sum.split)
qed

lemma ensures_recv_plain:
  assumes buffer: "length buffer = 65536"
    and cut: "\<And>tr'. arrives tr tr' None \<Longrightarrow> Q None tr'"
    and err: "\<And>tr' e. arrives tr tr' None \<Longrightarrow> Q (Some (Inl e)) tr'"
    and ok: "\<And>tr' len peer bound buffer'. arrives tr tr' (Some (peer, bound, take len buffer')) \<Longrightarrow>
       length buffer' = 65536 \<Longrightarrow> Q (Some (Inr (len, peer, bound, buffer'))) tr'"
  shows "ensures (recv_packet_with_local_addr False buffer) tr Q"
proof -
  note stored = take_stored [OF buffer]
  have "Q (Some (map_err error_from (map_ok (\<lambda>bound. (fst (store buffer data), peer, bound, snd (store buffer data))) a)))
      (LocalAddrRead a # Received (Inr (data, peer)) # tr)" for a data peer
    using err [OF arrives_nothing(3)] ok [OF arrives_datagram [folded stored(1)] stored(2)] by (cases a) simp_all
  then have step: "ensures (case map_err error_from (udp_recv_from m buffer) of
      Inl e \<Rightarrow> State_Monad.return (Some (Inl e))
    | Inr (len, peer, buffer) \<Rightarrow> do {
        a \<leftarrow> observe env_local_addr LocalAddrRead;
        State_Monad.return (Some (map_err error_from (map_ok (\<lambda>bound. (len, peer, bound, buffer)) a)))})
      (Received m # tr) Q" for m
    using err [OF arrives_nothing(2)]
    by (cases m) (auto simp: udp_recv_from_def case_prod_unfold Let_def
        intro!: ensures_bind ensures_observe ensures_return)
  then show ?thesis
    using cut [OF arrives_nothing(1)] unfolding recv_packet_with_local_addr_def
    by (auto intro!: ensures_bind ensures_await ensures_return)
qed

lemma ensures_recv_packet:
  assumes "length buffer = 65536" and "\<And>b. arrived (LocalAddrRead b # tr) = None"
    and "\<And>tr'. arrives tr tr' None \<Longrightarrow> Q None tr'"
    and "\<And>tr' e. arrives tr tr' None \<Longrightarrow> Q (Some (Inl e)) tr'"
    and "\<And>tr' len peer bound buffer'. arrives tr tr' (Some (peer, bound, take len buffer')) \<Longrightarrow>
       length buffer' = 65536 \<Longrightarrow> Q (Some (Inr (len, peer, bound, buffer'))) tr'"
  shows "ensures (recv_packet_with_local_addr transparent buffer) tr Q"
  using ensures_recv_transparent [OF assms] ensures_recv_plain [OF assms(1,3-5)] by (cases transparent) simp_all

section \<open>Loops keep the contract\<close>

abbreviation meta_of :: "SocketAddr \<Rightarrow> SocketAddr \<Rightarrow> PacketMeta" where
  "meta_of peer bound \<equiv> \<lparr>peer_addr = Some peer, local_addr = Some bound\<rparr>"

definition udp_offer :: "udp_work event list \<Rightarrow> (nat option \<times> udp_work) option" where
  "udp_offer = arrival_offer (\<lambda>(peer, bound, payload). Some (None, meta_of peer bound, payload))"

definition udp_route :: "usize \<Rightarrow> udp_work event list \<Rightarrow> (nat option \<times> udp_work) option" where
  "udp_route n = arrival_offer (\<lambda>(peer, bound, payload).
     map_option (\<lambda>i. (Some i, meta_of peer bound, payload))
       (to_ok (linux_reuseport_select (meta_of peer bound) n)))"

definition packet_route ::
    "SocketAddr \<Rightarrow> usize \<Rightarrow> (u8 list \<Rightarrow> PacketMeta \<Rightarrow> usize \<Rightarrow> usize option) \<Rightarrow> bool \<Rightarrow>
     RoutedPacket event list \<Rightarrow> (nat option \<times> RoutedPacket) option" where
  "packet_route fallback n route transparent = arrival_offer (\<lambda>(peer, bound, payload).
     map_option (\<lambda>i. (Some i, \<lparr>rp_payload = payload, rp_peer = peer\<rparr>))
       (route payload (meta_of peer (if transparent then bound else fallback)) n))"

lemma length_new_buffer [simp]: "length new_buffer = 65536"
  by (simp add: new_buffer_def)

lemmas arrival_simps = arrives_def arrival_offer_def udp_offer_def udp_route_def packet_route_def

lemma udp_listener_contract:
  assumes "length b = 65536" and "listening udp_offer tr"
  shows "ensures (udp_listener_turn limit transparent b) tr (\<lambda>r tr'. case r of
      Continue b' \<Rightarrow> length b' = 65536 \<and> listening udp_offer tr' | Break \<Rightarrow> ended udp_offer tr')"
  using assms unfolding udp_listener_turn_def
  by (auto intro!: ensures_rules ensures_recv_packet split: turn_splits)
    (simp_all add: contract_simps arrival_simps)

lemma simulated_udp_contract:
  assumes "length b = 65536" and "listening (udp_route n) tr"
  shows "ensures (simulated_udp_listener_turn n [0..<n] limits transparent b) tr (\<lambda>r tr'. case r of
      Continue b' \<Rightarrow> length b' = 65536 \<and> listening (udp_route n) tr' | Break \<Rightarrow> ended (udp_route n) tr')"
  using assms unfolding simulated_udp_listener_turn_def Let_def
  by (auto intro!: ensures_rules ensures_recv_packet split: turn_splits)
    (simp_all add: contract_simps arrival_simps byte_simps)

lemma udp_dispatch_contract:
  assumes "listening work_offer tr"
  shows "ensures (udp_dispatch_turn b) tr (\<lambda>r tr'. case r of
      Continue b' \<Rightarrow> True \<and> listening work_offer tr' | Break \<Rightarrow> ended work_offer tr')"
  using assms unfolding udp_dispatch_turn_def
  by (auto intro!: ensures_rules split: turn_splits) (simp_all add: contract_simps)

lemma dispatch_socket_only_contract:
  assumes "length b = 65536" and "listening (packet_route fallback n route transparent) tr"
  shows "ensures (dispatch_socket_only_turn fallback n route [0..<n] transparent b) tr (\<lambda>r tr'. case r of
      Continue b' \<Rightarrow> length b' = 65536 \<and> listening (packet_route fallback n route transparent) tr'
    | Break \<Rightarrow> ended (packet_route fallback n route transparent) tr')"
  using assms unfolding dispatch_socket_only_turn_def Let_def
  by (cases transparent; auto intro!: ensures_rules ensures_recv_packet split: turn_splits)
    (simp_all add: contract_simps arrival_simps byte_simps)

interpretation udp_native: serving_loop "udp_listener_turn limit transparent" udp_offer "\<lambda>b _. length b = 65536"
  by unfold_locales (auto simp: udp_listener_contract, (auto simp: udp_listener_turn_def dest: inactive_turn)+)

interpretation udp_simulated: serving_loop
  "simulated_udp_listener_turn n [0..<n] limits transparent" "udp_route n" "\<lambda>b _. length b = 65536"
  by unfold_locales
    (auto simp: simulated_udp_contract, (auto simp: simulated_udp_listener_turn_def dest: inactive_turn)+)

interpretation udp_dispatch: serving_loop udp_dispatch_turn work_offer "\<lambda>_ _. True"
  by unfold_locales
    (auto simp: udp_dispatch_contract [simplified], (auto simp: udp_dispatch_turn_def dest: inactive_server_turn)+)

interpretation udp_socket_only: serving_loop
  "dispatch_socket_only_turn fallback n route [0..<n] transparent" "packet_route fallback n route transparent"
  "\<lambda>b _. length b = 65536"
  by unfold_locales
    (auto simp: dispatch_socket_only_contract,
      (auto simp: dispatch_socket_only_turn_def dest: inactive_server_turn)+)

section \<open>Properties\<close>

lemma take_new_store [simp]:
  "length buffer = 65536 \<Longrightarrow> take (min (length data) 65536) (snd (store buffer data)) = take 65536 data"
  using take_store [of buffer data] by (simp add: min.commute del: take_store)

lemma udp_recv_from_datagram:
  "udp_recv_from (Inr (data, peer)) buffer = Inr (fst (store buffer data), peer, snd (store buffer data))"
  by (simp add: udp_recv_from_def case_prod_unfold Let_def)

lemma arrival_offer_Some:
  "arrival_offer g tr = Some x \<Longrightarrow> \<exists>peer bound data. g (peer, bound, take 65536 data) = Some x"
  unfolding arrival_offer_def
  by (cases tr rule: arrived.cases) (auto split: sum.splits, blast)

lemma all_delivered:
  "subseq xs ys \<Longrightarrow> mset (map fst ys) = mset (map fst xs) + {#} \<Longrightarrow> xs = ys"
  by (drule size_mset_offered) (simp add: subseq_same_length)

text \<open>C16. Without kernel balancing, every datagram goes with its addresses and its bytes, cut off at 64 KiB, to
  the worker its addresses select, in the order of arrival: what the loop hands over is a
  subsequence of what it should, and as long as it runs the only datagrams left out are those
  for which the worker's limit refused a permit. The buffer that all turns share never leaks
  bytes of an earlier datagram.\<close>

theorem udp_loop_routes:
  assumes "run_state (loop_run k (simulated_udp_listener_turn n [0..<n] limits transparent) new_buffer)
      \<lparr>sc_env = e, sc_trace = []\<rparr> = (r, s)"
  shows "subseq (delivered (sc_trace s)) (offered (udp_route n) (sc_trace s)) \<and>
         (r \<noteq> Break \<longrightarrow> mset (map fst (offered (udp_route n) (sc_trace s))) =
            mset (map fst (delivered (sc_trace s))) + refused (sc_trace s)) \<and>
         (\<forall>(w, meta, payload) \<in> set (delivered (sc_trace s)).
            \<exists>i<n. w = Some i \<and> linux_reuseport_select meta n = Inr i \<and> length payload \<le> 65536)"
proof -
  let ?tr = "sc_trace s"
  note c = udp_simulated.loop_from_start [OF length_new_buffer assms]
  have route: "\<exists>i<n. w = Some i \<and> linux_reuseport_select meta n = Inr i \<and> length payload \<le> 65536"
    if "udp_route n tr = Some (w, meta, payload)" for w meta payload tr
    using arrival_offer_Some [OF that [unfolded udp_route_def]]
    by (auto simp: result_simps linux_reuseport_select_eq split: if_splits)
  from c have "set (delivered ?tr) \<subseteq> set (offered (udp_route n) ?tr)"
    by (blast dest: subseq_set)
  with route have "\<forall>(w, meta, payload) \<in> set (delivered ?tr).
      \<exists>i<n. w = Some i \<and> linux_reuseport_select meta n = Inr i \<and> length payload \<le> 65536"
    by (auto dest!: subsetD offered_set)
  with c show ?thesis by simp
qed

theorem udp_loop_routes_witness:
  "\<exists>r s. run_state (loop_run 1 (simulated_udp_listener_turn 1 [0..<1] (worker_limits 1 None) False) new_buffer)
       \<lparr>sc_env = busy_env, sc_trace = []\<rparr> = (r, s) \<and> r \<noteq> Break \<and>
     delivered (sc_trace s) = offered (udp_route 1) (sc_trace s) \<and> length (delivered (sc_trace s)) = 1"
proof -
  have select: "linux_reuseport_select meta (Suc 0) = Inr 0" for meta
    by (simp add: linux_reuseport_select_def Let_def)
  obtain r s where r: "run_state (loop_run 1 (simulated_udp_listener_turn 1 [0..<1] (worker_limits 1 None) False) new_buffer)
      \<lparr>sc_env = busy_env, sc_trace = []\<rparr> = (r, s)"
    and d: "r \<noteq> Break" "refused (sc_trace s) = {#}" "length (delivered (sc_trace s)) = 1"
    using select by (simp add: simulated_udp_listener_turn_def recv_packet_with_local_addr_def
        udp_recv_from_datagram worker_limits_def slice_get_def run_loops)
  have "delivered (sc_trace s) = offered (udp_route 1) (sc_trace s)"
    using udp_loop_routes [OF r] d(1,2) by (intro all_delivered) simp_all
  with r d show ?thesis by blast
qed

text \<open>The loop behind socket callbacks passes on every packet that its routing function places, to the
  worker it names and in the order of arrival; while it runs none is left out. It never holds a
  permit.\<close>

lemma socket_only_loop_routes:
  assumes "run_state (loop_run k (dispatch_socket_only_turn fallback n route [0..<n] transparent) new_buffer)
      \<lparr>sc_env = e, sc_trace = []\<rparr> = (r, s)"
  shows "subseq (delivered (sc_trace s)) (offered (packet_route fallback n route transparent) (sc_trace s)) \<and>
         (r \<noteq> Break \<longrightarrow> mset (map fst (offered (packet_route fallback n route transparent) (sc_trace s))) =
            mset (map fst (delivered (sc_trace s))) + refused (sc_trace s)) \<and>
         (\<forall>(w, packet) \<in> set (delivered (sc_trace s)).
            \<exists>i meta. w = Some i \<and> peer_addr meta = Some (rp_peer packet) \<and>
              route (rp_payload packet) meta n = Some i)"
proof -
  let ?tr = "sc_trace s" and ?route = "packet_route fallback n route transparent"
  note c = udp_socket_only.loop_from_start [OF length_new_buffer assms]
  have route: "\<exists>i meta. w = Some i \<and> peer_addr meta = Some (rp_peer packet) \<and> route (rp_payload packet) meta n = Some i"
    if "?route tr = Some (w, packet)" for w packet tr
    using arrival_offer_Some [OF that [unfolded packet_route_def]]
    by (auto intro!: exI [of _ "\<lparr>peer_addr = Some _, local_addr = _\<rparr>"])
  from c have "set (delivered ?tr) \<subseteq> set (offered ?route ?tr)"
    by (blast dest: subseq_set)
  with route have "\<forall>(w, packet) \<in> set (delivered ?tr). \<exists>i meta. w = Some i \<and>
      peer_addr meta = Some (rp_peer packet) \<and> route (rp_payload packet) meta n = Some i"
    by (auto dest!: subsetD offered_set)
  with c show ?thesis by simp
qed



end
