(* ===== verification/Udp_Server.thy ===== *)
theory Udp_Server
  imports Udp_State Udp_Loops
begin

text \<open>
  The UDP server (\<open>src/core/udp.rs\<close>): how \<open>serve\<close> and \<open>serve_socket\<close> set up their sockets and
  tasks. The tasks that the QUIC server submits to the same workers are listed here too.
\<close>

section \<open>Tasks\<close>

text \<open>What is submitted to a worker: the captured values of the closures in the source.\<close>

datatype udp_task =
    UdpListenTask fd WorkerConcurrencyLimit bool
  | UdpDispatchTask usize
  | UdpSimulatedTask fd usize "usize list" "WorkerConcurrencyLimit list" bool
  | UdpCallbackTask fd usize
  | UdpRoutedCallbackTask RoutedUdpSocket usize
  | UdpSocketOnlyTask fd SocketAddr usize "u8 list \<Rightarrow> PacketMeta \<Rightarrow> usize \<Rightarrow> usize option" "usize list" bool
  | QuicRoutedTask fd usize "usize list" "WorkerConcurrencyLimit list"
  | QuicBpfTask fd usize WorkerConcurrencyLimit

text \<open>
  How a task with a listening socket begins, on the worker's thread: it registers the socket and
  makes it a socket of the runtime; a failure ends the task.
\<close>

definition start_listener :: "runtime \<Rightarrow> nat \<Rightarrow> fd \<Rightarrow> ('ex, 'h UdpServerState, bool) dep" where
  "start_listener rt thread socket =
     State_Monad.bind (register_listener_socket thread socket) (\<lambda>r.
     if \<not> is_ok r then State_Monad.return False
     else State_Monad.bind (on_world (io_from (udp_socket_from_std rt socket))) (\<lambda>r.
       State_Monad.return (is_ok r)))"

section \<open>Setting up\<close>

abbreviation no_workers :: Error where
  "no_workers \<equiv> InvalidConfig ''worker count must be greater than zero''"

abbreviation no_simulation :: Error where
  "no_simulation \<equiv> UnsupportedPlatformOption ''selected runtime requires native reuse-port worker sockets''"

type_synonym ('t, 'ex, 'h) spawner = "bool \<Rightarrow> 't \<Rightarrow> 'ex \<Rightarrow> 'h io_result \<times> 'ex"

definition udp_add_reuse_port_listener ::
    "(udp_task, 'ex, 'h) spawner \<Rightarrow> nat \<Rightarrow> target \<Rightarrow> runtime \<Rightarrow> UdpServiceConfig \<Rightarrow>
     ('ex, 'h UdpServerState, unit result) dep" where
  "udp_add_reuse_port_listener spawn current t rt config =
     with_runtime (\<lambda>server.
     attempt (on_world (bind_udp_workers t config (worker_count server))) (\<lambda>sockets.
     if sockets = [] then State_Monad.return (Inl no_workers)
     else submit_all spawn current udp_register_task
       (enumerate 0 (map (\<lambda>socket. UdpListenTask socket (limit_new (udp_max_concurrency config))
          (uses_transparent_receive t rt config)) sockets))))"

definition add_socket_callback_reuse_port_listener ::
    "(udp_task, 'ex, 'h) spawner \<Rightarrow> nat \<Rightarrow> target \<Rightarrow> UdpServiceConfig \<Rightarrow>
     ('ex, 'h UdpServerState, unit result) dep" where
  "add_socket_callback_reuse_port_listener spawn current t config =
     with_runtime (\<lambda>server.
     attempt (on_world (bind_udp_workers t config (worker_count server))) (\<lambda>sockets.
     if sockets = [] then State_Monad.return (Inl no_workers)
     else submit_all spawn current register_callback_task
       (enumerate 0 (map2 UdpCallbackTask sockets [0..<length sockets]))))"

definition udp_add_simulated_listener ::
    "(udp_task, 'ex, 'h) spawner \<Rightarrow> nat \<Rightarrow> target \<Rightarrow> runtime \<Rightarrow> UdpServiceConfig \<Rightarrow>
     ('ex, 'h UdpServerState, unit result) dep" where
  "udp_add_simulated_listener spawn current t rt config =
     (if \<not> SUPPORTS_USERSPACE_REUSEPORT_SIMULATION then State_Monad.return (Inl no_simulation)
      else
     attempt (on_world (bind_udp t config)) (\<lambda>socket.
     with_runtime (\<lambda>server.
     let workers = length (worker_executors server);
         limits = worker_limits workers (udp_max_concurrency config);
         senders = [0..<workers]
     in
     attempt (submit_all spawn current udp_register_task
       (map (\<lambda>worker_id. (worker_id, UdpDispatchTask worker_id)) [0..<workers])) (\<lambda>_.
     submit_all spawn current udp_register_task
       [(0, UdpSimulatedTask socket workers senders limits (uses_transparent_receive t rt config))]))))"

text \<open>The loop that gives every worker a routed socket with a clone of the real one to send from.\<close>

fun submit_routed_callbacks ::
    "(udp_task, 'ex, 'h) spawner \<Rightarrow> nat \<Rightarrow> fd \<Rightarrow> SocketAddr \<Rightarrow> usize list \<Rightarrow>
     ('ex, 'h UdpServerState, unit result) dep" where
  "submit_routed_callbacks spawn current socket addr [] = State_Monad.return (Inr ())"
| "submit_routed_callbacks spawn current socket addr (worker_id # ids) =
     attempt (on_world (io_from (sys os_fd (TryClone socket)))) (\<lambda>sender.
     attempt (submit spawn current worker_id
       (UdpRoutedCallbackTask \<lparr>ru_sender = sender, ru_local_addr = addr\<rparr> worker_id)) (\<lambda>h.
     attempt (on_server (register_callback_task h)) (\<lambda>_.
     submit_routed_callbacks spawn current socket addr ids)))"

definition add_socket_callback_simulated_listener ::
    "(udp_task, 'ex, 'h) spawner \<Rightarrow> nat \<Rightarrow> target \<Rightarrow> runtime \<Rightarrow> UdpServiceConfig \<Rightarrow>
     (u8 list \<Rightarrow> PacketMeta \<Rightarrow> usize \<Rightarrow> usize option) \<Rightarrow> ('ex, 'h UdpServerState, unit result) dep" where
  "add_socket_callback_simulated_listener spawn current t rt config route_packet =
     (if \<not> SUPPORTS_USERSPACE_REUSEPORT_SIMULATION then State_Monad.return (Inl no_simulation)
      else
     attempt (on_world (bind_udp t config)) (\<lambda>socket.
     attempt (register_close_socket socket) (\<lambda>_.
     attempt (on_world (io_from (sys os_addr (LocalAddr socket)))) (\<lambda>addr.
     with_runtime (\<lambda>server.
     let workers = worker_count server
     in
     if workers = 0 then State_Monad.return (Inl no_workers)
     else
     attempt (submit_routed_callbacks spawn current socket addr [0..<workers]) (\<lambda>_.
     submit_all spawn current udp_register_task
       [(0, UdpSocketOnlyTask socket addr workers route_packet [0..<workers]
              (uses_transparent_receive t rt config))]))))))"

definition udp_prepare :: "UdpServiceConfig \<Rightarrow> ('ex, 'h UdpServerState, unit result) dep" where
  "udp_prepare config =
     attempt (State_Monad.return (udp_validate config)) (\<lambda>_.
     attempt (State_Monad.return (udp_validate_channel_capacity config)) (\<lambda>_.
     on_server (\<lambda>_. (Inr (), udp_state_new))))"

definition udp_serve_with_state ::
    "(udp_task, 'ex, 'h) spawner \<Rightarrow> nat \<Rightarrow> target \<Rightarrow> runtime \<Rightarrow> UdpServiceConfig \<Rightarrow>
     ('ex, 'h UdpServerState, unit result) dep" where
  "udp_serve_with_state spawn current t rt config =
     attempt (udp_prepare config) (\<lambda>_.
     if \<not> reuse_port_balancing (capabilities t)
     then udp_add_simulated_listener spawn current t rt config
     else udp_add_reuse_port_listener spawn current t rt config)"

definition udp_serve_socket ::
    "(udp_task, 'ex, 'h) spawner \<Rightarrow> nat \<Rightarrow> target \<Rightarrow> runtime \<Rightarrow> UdpServiceConfig \<Rightarrow>
     ('ex, 'h UdpServerState, unit result) dep" where
  "udp_serve_socket spawn current t rt config =
     attempt (udp_prepare config) (\<lambda>_.
     if \<not> reuse_port_balancing (capabilities t)
     then add_socket_callback_simulated_listener spawn current t rt config hash_route
     else add_socket_callback_reuse_port_listener spawn current t config)"

section \<open>What is set up\<close>

definition udp_tasks_of ::
    "target \<Rightarrow> runtime \<Rightarrow> UdpServiceConfig \<Rightarrow> usize \<Rightarrow> fd list \<Rightarrow> (usize \<times> udp_task) list" where
  "udp_tasks_of t rt config n fds =
     (if t = Windows
      then map (\<lambda>i. (i, UdpDispatchTask i)) [0..<n] @
           [(0, UdpSimulatedTask (hd fds) n [0..<n] (worker_limits n (udp_max_concurrency config))
                  (uses_transparent_receive t rt config))]
      else enumerate 0 (map (\<lambda>fd. UdpListenTask fd (limit_new (udp_max_concurrency config))
             (uses_transparent_receive t rt config)) fds))"

lemma bind_udp_workers_length:
  "run_state (bind_udp_workers t config n) w = (Inr fds, w') \<Longrightarrow> length fds = (if t = Windows then 1 else n)"
  using udp_binder.collect_ok [of n t config w fds w']
  by (cases "t = Windows") (auto simp: bind_udp_workers_def run_io_try_Inr run_io_ok)

lemma udp_add_simulated_listener_eq:
  "udp_add_simulated_listener spawn current Windows rt config =
     attempt (on_world (bind_udp Windows config)) (\<lambda>socket.
     with_runtime (\<lambda>server. submit_all spawn current udp_register_task
       (udp_tasks_of Windows rt config (worker_count server) [socket])))"
  by (simp add: udp_add_simulated_listener_def SUPPORTS_USERSPACE_REUSEPORT_SIMULATION_def Let_def
      submit_all_append udp_tasks_of_def worker_executors_def worker_count_def del: submit_all.simps)

lemma udp_submit_tasks:
  assumes "\<forall>(i, task) \<in> set ts. i < length (rt_workers (d_runtime d))" and "all_open (d_runtime d)"
    and "\<not> mx_poisoned (udp_tasks (d_server d))" and "mx_value (udp_tasks (d_server d)) = []"
  shows "\<exists>d' hs. run_state (submit_all tokio_spawn current udp_register_task ts) d = (Inr (), d') \<and>
           d_server d' = (d_server d)\<lparr>udp_tasks := mutex_new hs\<rparr> \<and>
           queued_on (d_runtime d) (d_runtime d') hs ts \<and> all_open (d_runtime d') \<and> d_world d' = d_world d"
proof -
  obtain d' hs where run: "run_state (submit_all tokio_spawn current udp_register_task ts) d = (Inr (), d')"
    and w: "d_world d' = d_world d" and hs: "mx_value (udp_tasks (d_server d')) = hs" and q: "queued_on (d_runtime d) (d_runtime d') hs ts"
    and op: "all_open (d_runtime d')"
    and ok: "\<not> mx_poisoned (udp_tasks (d_server d'))"
      "(d_server d')\<lparr>udp_tasks := mutex_new []\<rparr> = (d_server d)\<lparr>udp_tasks := mutex_new []\<rparr>"
    using udp_registry.submit_all_ok [OF assms(1,2), of current] assms(3,4) by auto
  have "udp_tasks (d_server d') = mutex_new hs"
    using hs ok(1) by (cases "udp_tasks (d_server d')") (auto simp: mutex_new_def)
  moreover have "d_server d' = ((d_server d')\<lparr>udp_tasks := mutex_new []\<rparr>)\<lparr>udp_tasks := udp_tasks (d_server d')\<rparr>"
    by simp
  ultimately have "d_server d' = (d_server d)\<lparr>udp_tasks := mutex_new hs\<rparr>"
    using ok(2) by (metis UdpServerState.update_convs(2) UdpServerState.surjective)
  with run q op w show ?thesis by blast
qed

lemma run_udp_prepare_Inr:
  "run_state (udp_prepare config) d = (Inr u, d') \<longleftrightarrow>
     udp_channel_capacity config \<noteq> 0 \<and> d' = d\<lparr>d_server := udp_state_new\<rparr>"
  by (auto simp: udp_prepare_def udp_validate_def udp_validate_channel_capacity_def dep_simps)

lemma run_on_world_Inr:
  "run_state (on_world m) d = (Inr x, d') \<longleftrightarrow>
     (\<exists>w. run_state m (d_world d) = (Inr x, w) \<and> d' = d\<lparr>d_world := w\<rparr>)"
  by (auto simp: dep_simps split: prod.splits)

text \<open>Serving binds the sockets, then submits the tasks.\<close>

lemma udp_serve_Inr:
  assumes "run_state (udp_serve_with_state tokio_spawn current t rt config) d = (Inr (), d')"
  shows "\<exists>fds w. run_state (bind_udp_workers t config (worker_count (d_runtime d))) (d_world d) = (Inr fds, w) \<and>
     run_state (submit_all tokio_spawn current udp_register_task
       (udp_tasks_of t rt config (worker_count (d_runtime d)) fds)) (d\<lparr>d_server := udp_state_new, d_world := w\<rparr>) = (Inr (), d')"
    (is "\<exists>fds w. ?bind fds w \<and> ?submit fds w")
proof (cases "t = Windows")
  case True
  with assms obtain s w where s: "run_state (bind_udp t config) (d_world d) = (Inr s, w)" and "?submit [s] w"
    unfolding udp_serve_with_state_def run_attempt_Inr run_udp_prepare_Inr
    by (simp add: udp_add_simulated_listener_eq run_attempt_Inr run_on_world_Inr run_on(3)) fastforce
  moreover have "?bind [s] w"
    using s True by (simp add: bind_udp_workers_def io_simps)
  ultimately show ?thesis by blast
next
  case False
  with assms obtain fds w where "?bind fds w" "fds \<noteq> []" "?submit fds w"
    unfolding udp_serve_with_state_def udp_add_reuse_port_listener_def run_attempt_Inr run_udp_prepare_Inr
    by (simp add: run_attempt_Inr run_on_world_Inr run_on(3) udp_tasks_of_def split: if_splits) fastforce
  then show ?thesis by blast
qed

lemma udp_serve_ok:
  assumes op: "all_open (d_runtime d)" and n: "n = worker_count (d_runtime d)" "0 < n"
    and run: "run_state (udp_serve_with_state tokio_spawn current t rt config) d = (Inr (), d')"
  shows "\<exists>fds hs. length fds = (if t = Windows then 1 else n) \<and>
           d_server d' = udp_state_new\<lparr>udp_tasks := mutex_new hs\<rparr> \<and>
           queued_on (d_runtime d) (d_runtime d') hs (udp_tasks_of t rt config n fds) \<and> all_open (d_runtime d')"
proof -
  from udp_serve_Inr [OF run] n obtain fds w where
    b: "run_state (bind_udp_workers t config n) (d_world d) = (Inr fds, w)"
    and sub: "run_state (submit_all tokio_spawn current udp_register_task (udp_tasks_of t rt config n fds))
        (d\<lparr>d_server := udp_state_new, d_world := w\<rparr>) = (Inr (), d')" by blast
  let ?d = "d\<lparr>d_server := udp_state_new, d_world := w\<rparr>"
  have len: "length fds = (if t = Windows then 1 else n)" by (rule bind_udp_workers_length [OF b])
  then have "\<forall>(i, task) \<in> set (udp_tasks_of t rt config n fds). i < length (rt_workers (d_runtime ?d))"
    using n by (auto simp: udp_tasks_of_def worker_count_def in_set_enumerate_eq)
  from udp_submit_tasks [OF this, of current] op obtain d1 hs where
    "run_state (submit_all tokio_spawn current udp_register_task (udp_tasks_of t rt config n fds)) ?d = (Inr (), d1)"
    and d1: "d_server d1 = udp_state_new\<lparr>udp_tasks := mutex_new hs\<rparr>"
    "queued_on (d_runtime d) (d_runtime d1) hs (udp_tasks_of t rt config n fds)" "all_open (d_runtime d1)"
    by (auto simp: udp_state_new_def)
  with sub have "d1 = d'" by simp
  with d1 len show ?thesis by blast
qed

lemma submit_routed_callbacks_ok:
  assumes "\<forall>i \<in> set ids. i < length (rt_workers (d_runtime d))" and "all_open (d_runtime d)"
    and "run_state (submit_routed_callbacks tokio_spawn current socket addr ids) d = (Inr (), d')"
  shows "\<exists>hs senders. queued_on (d_runtime d) (d_runtime d') hs
             (map2 (\<lambda>i s. (i, UdpRoutedCallbackTask \<lparr>ru_sender = s, ru_local_addr = addr\<rparr> i)) ids senders) \<and>
           length senders = length ids \<and> all_open (d_runtime d') \<and>
           (d_server d')\<lparr>udp_callback_tasks := mutex_new []\<rparr> = (d_server d)\<lparr>udp_callback_tasks := mutex_new []\<rparr> \<and>
           mx_poisoned (udp_callback_tasks (d_server d')) = mx_poisoned (udp_callback_tasks (d_server d))"
  using assms
proof (induction ids arbitrary: d)
  case Nil
  then show ?case by (auto intro!: exI [of _ "[]"] simp: queued_on_refl)
next
  case (Cons i ids)
  let ?task = "\<lambda>s. UdpRoutedCallbackTask \<lparr>ru_sender = s, ru_local_addr = addr\<rparr> i"
  have i: "i < length (rt_workers (d_runtime d))" using Cons.prems(1) by simp
  from Cons.prems(3) obtain s d1 where
    clone: "run_state (on_world (io_from (sys os_fd (TryClone socket)))) d = (Inr s, d1)" and
    rest: "run_state (attempt (submit tokio_spawn current i (?task s)) (\<lambda>h.
       attempt (on_server (register_callback_task h)) (\<lambda>_.
       submit_routed_callbacks tokio_spawn current socket addr ids))) d1 = (Inr (), d')"
    by (auto simp: run_attempt_Inr)
  have d1: "d_runtime d1 = d_runtime d" "d_server d1 = d_server d"
    using clone by (auto simp: dep_simps io_simps)
  from submit_tokio [OF i Cons.prems(2), of current "?task s"] obtain h rt where
    sub: "submit_to_worker tokio_spawn current i (?task s) (d_runtime d) = (Inr h, rt)"
    and q: "queued_on (d_runtime d) rt [(i, h)] [(i, ?task s)]" and op: "all_open rt" by blast
  let ?d = "d1\<lparr>d_runtime := rt\<rparr>"
  from rest sub d1 obtain sv where reg: "register_callback_task (i, h) (d_server d) = (Inr (), sv)" and
    tail: "run_state (submit_routed_callbacks tokio_spawn current socket addr ids) (?d\<lparr>d_server := sv\<rparr>) = (Inr (), d')"
    by (auto simp: dep_simps split: prod.splits sum.splits)
  have sv: "sv\<lparr>udp_callback_tasks := mutex_new []\<rparr> = (d_server d)\<lparr>udp_callback_tasks := mutex_new []\<rparr>"
    "mx_poisoned (udp_callback_tasks sv) = mx_poisoned (udp_callback_tasks (d_server d))"
    using reg by (auto simp: register_callback_task_def split: sum.splits)
  have "\<forall>j \<in> set ids. j < length (rt_workers (d_runtime (?d\<lparr>d_server := sv\<rparr>)))"
    using Cons.prems(1) q by (auto simp: queued_on_def)
  from Cons.IH [OF this _ tail] op obtain hs senders where
    more: "queued_on rt (d_runtime d') hs
        (map2 (\<lambda>i s. (i, UdpRoutedCallbackTask \<lparr>ru_sender = s, ru_local_addr = addr\<rparr> i)) ids senders)"
      "length senders = length ids" "all_open (d_runtime d')"
      "(d_server d')\<lparr>udp_callback_tasks := mutex_new []\<rparr> = sv\<lparr>udp_callback_tasks := mutex_new []\<rparr>"
      "mx_poisoned (udp_callback_tasks (d_server d')) = mx_poisoned (udp_callback_tasks sv)" by auto
  from queued_on_trans [OF q more(1)] more(2-5) sv show ?case
    by (intro exI [of _ "(i, h) # hs"] exI [of _ "s # senders"]) simp
qed

text \<open>The set-up of \<open>serve_socket\<close>: one callback per worker, and the dispatcher where there is one.\<close>

fun is_callback :: "udp_task \<Rightarrow> bool" where
  "is_callback (UdpCallbackTask socket worker_id) \<longleftrightarrow> True"
| "is_callback (UdpRoutedCallbackTask socket worker_id) \<longleftrightarrow> True"
| "is_callback _ \<longleftrightarrow> False"

definition callbacks_queued ::
    "udp_task executor ServerRuntime \<Rightarrow> udp_task executor ServerRuntime \<Rightarrow> nat TaskHandle list \<Rightarrow> bool" where
  "callbacks_queued rt rt' hs \<longleftrightarrow>
     (\<exists>rt1 hs1 ts1 ts. queued_on rt rt1 hs1 ts1 \<and> queued_on rt1 rt' hs ts \<and>
        (\<forall>i < length (rt_workers rt). length (for_worker_id i ts1) = 1) \<and>
        (\<forall>(i, task) \<in> set ts1. is_callback task) \<and> (\<forall>(i, task) \<in> set ts. \<not> is_callback task))"

lemma for_worker_id_map2:
  assumes "length xs = n" and "i < n"
  shows "length (for_worker_id i (map2 (\<lambda>j x. (j, f j x)) [0..<n] xs)) = 1"
proof -
  have "map2 (\<lambda>j x. (j, f j x)) [0..<n] xs = map (\<lambda>j. (j, f j (xs ! j))) [0..<n]"
    using assms(1) by (intro nth_equalityI) auto
  then show ?thesis using assms(2) by (simp add: for_worker_id_each)
qed

lemma submit_callbacks_ok:
  assumes op: "all_open (d_runtime d)" and len: "length fds = worker_count (d_runtime d)"
    and sub: "run_state (submit_all tokio_spawn current register_callback_task
        (enumerate 0 (map2 UdpCallbackTask fds [0..<length fds]))) d = (Inr (), d')"
    and sv: "d_server d = udp_state_new"
  shows "callbacks_queued (d_runtime d) (d_runtime d') [] \<and> all_open (d_runtime d') \<and>
         udp_intact (d_server d') \<and> mx_value (udp_tasks (d_server d')) = []"
proof -
  let ?ts = "enumerate 0 (map2 UdpCallbackTask fds [0..<length fds])"
  have "\<forall>(i, task) \<in> set ?ts. i < length (rt_workers (d_runtime d))"
    using len by (auto simp: in_set_enumerate_eq worker_count_def)
  from udp_callback_registry.submit_all_ok [OF this, of current] op sv sub obtain hs where
    q: "queued_on (d_runtime d) (d_runtime d') hs ?ts" and op': "all_open (d_runtime d')"
    and ok: "\<not> mx_poisoned (udp_callback_tasks (d_server d'))"
      "(d_server d')\<lparr>udp_callback_tasks := mutex_new []\<rparr> = udp_state_new"
    by (auto simp: udp_state_new_def)
  have "\<forall>(i, task) \<in> set ?ts. is_callback task" by (auto simp: in_set_enumerate_eq)
  moreover have "\<forall>i < length (rt_workers (d_runtime d)). length (for_worker_id i ?ts) = 1"
    using len by (simp add: for_worker_id_enumerate worker_count_def)
  ultimately have "callbacks_queued (d_runtime d) (d_runtime d') []"
    unfolding callbacks_queued_def using q by (intro exI [of _ "d_runtime d'"] exI [of _ hs] exI [of _ ?ts] exI [of _ "[]"])
      (simp add: queued_on_refl)
  with op' ok show ?thesis
    by (cases "d_server d'") (auto simp: udp_state_new_def udp_intact_def)
qed

lemma add_callbacks_native_ok:
  assumes op: "all_open (d_runtime d)" and n: "0 < worker_count (d_runtime d)" and t: "t \<noteq> Windows"
    and run: "run_state (add_socket_callback_reuse_port_listener tokio_spawn current t config) d = (Inr (), d')"
    and sv: "d_server d = udp_state_new"
  shows "callbacks_queued (d_runtime d) (d_runtime d') [] \<and> all_open (d_runtime d') \<and>
         udp_intact (d_server d') \<and> mx_value (udp_tasks (d_server d')) = []"
proof -
  let ?n = "worker_count (d_runtime d)"
  from run obtain fds w where b: "run_state (bind_udp_workers t config ?n) (d_world d) = (Inr fds, w)"
    and sub: "run_state (submit_all tokio_spawn current register_callback_task
        (enumerate 0 (map2 UdpCallbackTask fds [0..<length fds]))) (d\<lparr>d_world := w\<rparr>) = (Inr (), d')"
    unfolding add_socket_callback_reuse_port_listener_def
    by (simp add: run_attempt_Inr run_on_world_Inr run_on(3) split: if_splits) fastforce
  have "length fds = ?n" using bind_udp_workers_length [OF b] t by simp
  from submit_callbacks_ok [OF _ _ sub] op sv this show ?thesis by simp
qed

lemma register_close_socket_Inr:
  assumes "run_state (register_close_socket s) d = (Inr u, d')" 
  shows "d_runtime d' = d_runtime d \<and> (\<exists>m. \<not> mx_poisoned m \<and> d_server d' = (d_server d)\<lparr>udp_close_sockets := m\<rparr>)"
  using assms
  by (auto simp: register_close_socket_def run_attempt_Inr run_on_world_Inr run_on(2) lock_def split: if_splits
      intro!: exI [of _ "(udp_close_sockets (d_server d))\<lparr>mx_value := mx_value (udp_close_sockets (d_server d)) @ [x]\<rparr>" for x])

text \<open>The steps of a successful set-up.\<close>

lemma add_callbacks_simulated_Inr:
  assumes run: "run_state (add_socket_callback_simulated_listener tokio_spawn current t rt config route) d = (Inr (), d')"
    and n: "n = worker_count (d_runtime d)" "0 < n"
  shows "\<exists>s addr m d1 d2.
     d_runtime d1 = d_runtime d \<and> \<not> mx_poisoned m \<and> d_server d1 = (d_server d)\<lparr>udp_close_sockets := m\<rparr> \<and>
     run_state (submit_routed_callbacks tokio_spawn current s addr [0..<n]) d1 = (Inr (), d2) \<and>
     run_state (submit_all tokio_spawn current udp_register_task
        [(0, UdpSocketOnlyTask s addr n route [0..<n] (uses_transparent_receive t rt config))]) d2 = (Inr (), d')"
proof -
  from run obtain s dA dB addr d1 where
    a: "run_state (on_world (bind_udp t config)) d = (Inr s, dA)" and
    b: "run_state (register_close_socket s) dA = (Inr (), dB)" and
    c: "run_state (on_world (io_from (sys os_addr (LocalAddr s)))) dB = (Inr addr, d1)" and
    e: "run_state (with_runtime (\<lambda>server.
       let workers = worker_count server
       in
       if workers = 0 then State_Monad.return (Inl no_workers)
       else
       attempt (submit_routed_callbacks tokio_spawn current s addr [0..<workers]) (\<lambda>_.
       submit_all tokio_spawn current udp_register_task
         [(0, UdpSocketOnlyTask s addr workers route [0..<workers] (uses_transparent_receive t rt config))]))) d1 =
       (Inr (), d')"
    by (auto simp: add_socket_callback_simulated_listener_def SUPPORTS_USERSPACE_REUSEPORT_SIMULATION_def
        run_attempt_Inr simp del: submit_all.simps)
  obtain m where d1: "d_runtime d1 = d_runtime d" "d_server d1 = (d_server d)\<lparr>udp_close_sockets := m\<rparr>"
    "\<not> mx_poisoned m"
    using a register_close_socket_Inr [OF b] c by (auto simp: run_on_world_Inr)
  from e n d1(1) obtain d2 where
    "run_state (submit_routed_callbacks tokio_spawn current s addr [0..<n]) d1 = (Inr (), d2)"
    "run_state (submit_all tokio_spawn current udp_register_task
        [(0, UdpSocketOnlyTask s addr n route [0..<n] (uses_transparent_receive t rt config))]) d2 = (Inr (), d')"
    by (auto simp: run_on(3) Let_def run_attempt_Inr simp del: submit_all.simps)
  with d1 show ?thesis by blast
qed

lemma add_callbacks_simulated_ok:
  assumes op: "all_open (d_runtime d)" and n: "0 < worker_count (d_runtime d)"
    and run: "run_state (add_socket_callback_simulated_listener tokio_spawn current t rt config route) d = (Inr (), d')"
    and sv: "d_server d = udp_state_new"
  shows "\<exists>hs. callbacks_queued (d_runtime d) (d_runtime d') hs \<and> all_open (d_runtime d') \<and>
         udp_intact (d_server d') \<and> mx_value (udp_tasks (d_server d')) = hs"
proof -
  let ?n = "worker_count (d_runtime d)"
  from add_callbacks_simulated_Inr [OF run refl n] sv obtain s addr m d1 d2 where
    d1: "d_runtime d1 = d_runtime d" "d_server d1 = udp_state_new\<lparr>udp_close_sockets := m\<rparr>" "\<not> mx_poisoned m"
    and cb: "run_state (submit_routed_callbacks tokio_spawn current s addr [0..<?n]) d1 = (Inr (), d2)"
    and sub: "run_state (submit_all tokio_spawn current udp_register_task
        [(0, UdpSocketOnlyTask s addr ?n route [0..<?n] (uses_transparent_receive t rt config))]) d2 = (Inr (), d')"
    by auto
  let ?ts = "[(0, UdpSocketOnlyTask s addr ?n route [0..<?n] (uses_transparent_receive t rt config))]"
  from submit_routed_callbacks_ok [OF _ _ cb] op d1(1) obtain hs1 senders where
    q1: "queued_on (d_runtime d) (d_runtime d2) hs1
        (map2 (\<lambda>i s. (i, UdpRoutedCallbackTask \<lparr>ru_sender = s, ru_local_addr = addr\<rparr> i)) [0..<?n] senders)"
    (is "queued_on _ _ _ ?ts1")
    and len: "length senders = ?n" and op2: "all_open (d_runtime d2)"
    and sv2: "(d_server d2)\<lparr>udp_callback_tasks := mutex_new []\<rparr> = (d_server d1)\<lparr>udp_callback_tasks := mutex_new []\<rparr>"
      "mx_poisoned (udp_callback_tasks (d_server d2)) = mx_poisoned (udp_callback_tasks (d_server d1))"
    by (auto simp: worker_count_def)
  have intact: "udp_intact (d_server d2)" "mx_value (udp_tasks (d_server d2)) = []"
    using sv2 d1(2,3) by (cases "d_server d2"; simp add: udp_state_new_def udp_intact_def)+
  have "\<forall>(i, task) \<in> set ?ts. i < length (rt_workers (d_runtime d2))"
    using n q1 by (simp add: queued_on_def worker_count_def)
  from udp_submit_tasks [OF this op2, of current] intact sub obtain hs where
    q2: "queued_on (d_runtime d2) (d_runtime d') hs ?ts" and op': "all_open (d_runtime d')"
    and sv': "d_server d' = (d_server d2)\<lparr>udp_tasks := mutex_new hs\<rparr>"
    by (auto simp: udp_intact_def simp del: submit_all.simps)
  have "\<forall>i < length (rt_workers (d_runtime d)). length (for_worker_id i ?ts1) = 1"
    using len for_worker_id_map2
      [of senders ?n _ "\<lambda>i s. UdpRoutedCallbackTask \<lparr>ru_sender = s, ru_local_addr = addr\<rparr> i"] by (simp add: worker_count_def del: One_nat_def)
  moreover have "\<forall>(i, task) \<in> set ?ts1. is_callback task" by auto
  moreover have "\<forall>(i, task) \<in> set ?ts. \<not> is_callback task" by simp
  ultimately have "callbacks_queued (d_runtime d) (d_runtime d') hs"
    unfolding callbacks_queued_def using q1 q2 by blast
  with op' sv' intact show ?thesis by (auto simp: udp_intact_def)
qed

lemma udp_serve_socket_ok:
  assumes op: "all_open (d_runtime d)" and n: "0 < worker_count (d_runtime d)"
    and run: "run_state (udp_serve_socket tokio_spawn current t rt config) d = (Inr (), d')"
  shows "\<exists>hs. callbacks_queued (d_runtime d) (d_runtime d') hs \<and> all_open (d_runtime d') \<and>
         udp_intact (d_server d') \<and> mx_value (udp_tasks (d_server d')) = hs"
proof -
  let ?d = "d\<lparr>d_server := udp_state_new\<rparr>"
  have ?thesis if t: "t = Windows"
  proof -
    have "run_state (add_socket_callback_simulated_listener tokio_spawn current t rt config hash_route) ?d = (Inr (), d')"
      using run t by (simp add: udp_serve_socket_def run_attempt_Inr run_udp_prepare_Inr)
    from add_callbacks_simulated_ok [OF _ _ this] op n show ?thesis by simp
  qed
  moreover have ?thesis if t: "t \<noteq> Windows"
  proof -
    have "run_state (add_socket_callback_reuse_port_listener tokio_spawn current t config) ?d = (Inr (), d')"
      using run t by (simp add: udp_serve_socket_def run_attempt_Inr run_udp_prepare_Inr)
    from add_callbacks_native_ok [OF _ _ t this] op n show ?thesis by auto
  qed
  ultimately show ?thesis by blast
qed

text \<open>With kernel balancing, serving succeeds once the sockets are bound.\<close>

lemma udp_serve_native:
  assumes "t \<noteq> Windows" and "0 < worker_count (d_runtime d)" and "udp_channel_capacity config \<noteq> 0"
    and "run_state (bind_udp_workers t config (worker_count (d_runtime d))) (d_world d) = (Inr fds, w)"
  shows "run_state (udp_serve_with_state spawn current t rt config) d =
           run_state (submit_all spawn current udp_register_task (udp_tasks_of t rt config (worker_count (d_runtime d)) fds))
             (d\<lparr>d_server := udp_state_new, d_world := w\<rparr>)"
    and "run_state (udp_serve_socket spawn current t rt config) d =
           run_state (submit_all spawn current register_callback_task
             (enumerate 0 (map2 UdpCallbackTask fds [0..<length fds]))) (d\<lparr>d_server := udp_state_new, d_world := w\<rparr>)"
proof -
  have fds: "fds \<noteq> []" using bind_udp_workers_length [OF assms(4)] assms(1,2) by auto
  have prepare: "run_state (udp_prepare config) d = (Inr (), d\<lparr>d_server := udp_state_new\<rparr>)"
    using assms(3) by (simp add: run_udp_prepare_Inr)
  show "run_state (udp_serve_with_state spawn current t rt config) d =
      run_state (submit_all spawn current udp_register_task (udp_tasks_of t rt config (worker_count (d_runtime d)) fds))
        (d\<lparr>d_server := udp_state_new, d_world := w\<rparr>)"
    using assms(1,4) fds prepare
    by (simp add: udp_serve_with_state_def udp_add_reuse_port_listener_def dep_simps udp_tasks_of_def)
  show "run_state (udp_serve_socket spawn current t rt config) d =
      run_state (submit_all spawn current register_callback_task
        (enumerate 0 (map2 UdpCallbackTask fds [0..<length fds]))) (d\<lparr>d_server := udp_state_new, d_world := w\<rparr>)"
    using assms(1,4) fds prepare
    by (simp add: udp_serve_socket_def add_socket_callback_reuse_port_listener_def dep_simps)
qed

lemmas bind_udp_eval =
  bind_udp_workers_def numeral_2_eq_2 bind_udp_def apply_socket_init_callback_def
  apply_common_options_def set_reuse_port_def linux_set_reuse_port_def unix_set_reuse_port_def
  transparent_defs calm_defs udp_socket_config_def config_simps io_simps

lemma calm_bind_udp:
  "\<exists>fds w. run_state (bind_udp_workers Linux (udp_config_new (SocketAddrV4 0 53)) 2) calm_world = (Inr fds, w) \<and>
     length fds = 2"
proof -
  obtain fds w where b: "run_state (bind_udp_workers Linux (udp_config_new (SocketAddrV4 0 53)) 2) calm_world = (Inr fds, w)"
    by (simp add: bind_udp_eval)
  with bind_udp_workers_length [OF b] show ?thesis by auto
qed

text \<open>Closing a server whose tasks were queued: on every worker their cancellations follow them.\<close>

lemma udp_close_queue:
  assumes q: "queued_on (d_runtime d) (d_runtime d1) hs ts" and op: "all_open (d_runtime d1)"
    and sv: "d_server d1 = udp_state_new\<lparr>udp_tasks := mutex_new hs\<rparr>"
    and run: "run_state (udp_close cancel) d1 = (r, d2)"
    and ts: "\<And>i. i < worker_count (d_runtime d) \<Longrightarrow> for_worker_id i ts \<noteq> []"
  shows "udp_closed (d_server d2) \<and>
         (\<forall>i < worker_count (d_runtime d). \<exists>ids tasks. length ids = length tasks \<and> tasks \<noteq> [] \<and>
            ex_commands (exec_of (d_runtime d2) i) =
              ex_commands (exec_of (d_runtime d) i) @ map2 Spawn ids tasks @ map TaskCommand.Cancel ids)"
proof -
  have "udp_intact (d_server d1)" by (simp add: sv udp_intact_def udp_state_new_def)
  from run_udp_close [OF this, of cancel] run sv
  have close: "d_runtime d2 = cancel_all cancel hs (d_runtime d1)" "udp_closed (d_server d2)"
    by (auto simp: udp_closed_def)
  have "\<exists>ids tasks. length ids = length tasks \<and> tasks \<noteq> [] \<and>
      ex_commands (exec_of (d_runtime d2) i) =
        ex_commands (exec_of (d_runtime d) i) @ map2 Spawn ids tasks @ map TaskCommand.Cancel ids"
    if i: "i < worker_count (d_runtime d)" for i
    using queued_then_cancelled [OF q op, of i] i ts [OF i] close(1)
    by (intro exI [of _ "for_worker_id i hs"] exI [of _ "for_worker_id i ts"]) (simp add: worker_count_def)
  with close(2) show ?thesis by blast
qed

text \<open>Closing after callbacks were queued.\<close>

lemma close_after_callbacks:
  assumes cq: "callbacks_queued (d_runtime d) (d_runtime d1) hs" and op: "all_open (d_runtime d1)"
    and sv: "udp_intact (d_server d1)" "mx_value (udp_tasks (d_server d1)) = hs"
    and run: "run_state (udp_close cancel) d1 = (r, d2)" and i: "i < worker_count (d_runtime d)"
  shows "\<exists>k callback ids tasks. is_callback callback \<and> (\<forall>task \<in> set tasks. \<not> is_callback task) \<and>
           length ids = length tasks \<and>
           ex_commands (exec_of (d_runtime d2) i) =
             ex_commands (exec_of (d_runtime d) i) @ Spawn k callback # map2 Spawn ids tasks @ map TaskCommand.Cancel ids"
proof -
  from cq obtain rt1 hs1 ts1 ts where q1: "queued_on (d_runtime d) rt1 hs1 ts1"
    and q2: "queued_on rt1 (d_runtime d1) hs ts"
    and one: "\<forall>i < length (rt_workers (d_runtime d)). length (for_worker_id i ts1) = 1"
    and cb: "\<forall>(i, task) \<in> set ts1. is_callback task" and nocb: "\<forall>(i, task) \<in> set ts. \<not> is_callback task"
    unfolding callbacks_queued_def by blast
  have j: "i < length (rt_workers (d_runtime d))" "i < length (rt_workers rt1)"
    using i q1 by (simp_all add: worker_count_def queued_on_def)
  obtain callback where c: "for_worker_id i ts1 = [callback]"
    using one j(1) by (metis One_nat_def length_0_conv length_Suc_conv)
  moreover have "length (for_worker_id i hs1) = length (for_worker_id i ts1)"
    using q1 by (auto simp: queued_on_def intro: for_worker_id_length)
  ultimately obtain k where k: "for_worker_id i hs1 = [k]" by (auto simp: length_Suc_conv)
  have set_for: "x \<in> set (for_worker_id i xs) \<Longrightarrow> (i, x) \<in> set xs" for x :: udp_task and xs
    by (auto simp: for_worker_id_def)
  from run_udp_close [OF sv(1), of cancel] run sv(2)
  have rt2: "d_runtime d2 = cancel_all cancel hs (d_runtime d1)" by simp
  show ?thesis
  proof (intro exI conjI)
    show "is_callback callback" using cb set_for [of callback ts1] c by auto
    show "\<forall>task \<in> set (for_worker_id i ts). \<not> is_callback task" using nocb set_for by blast
    show "length (for_worker_id i hs) = length (for_worker_id i ts)"
      by (rule queued_then_cancelled(2) [OF q2 op j(2)])
    show "ex_commands (exec_of (d_runtime d2) i) =
        ex_commands (exec_of (d_runtime d) i) @ Spawn k callback #
          map2 Spawn (for_worker_id i hs) (for_worker_id i ts) @ map TaskCommand.Cancel (for_worker_id i hs)"
      using queued_then_cancelled(1) [OF q2 op j(2)] q1 j(1) c k rt2 by (simp add: queued_on_def)
  qed
qed

section \<open>Properties\<close>

text \<open>After a successful \<open>serve\<close> and \<open>close\<close> on tokio every worker's queue holds what it held before, then
  the server's tasks for that worker, at least one, and then a cancellation for each.\<close>

lemma udp_close_cancels_every_task:
  assumes "all_open (d_runtime d)" and "0 < worker_count (d_runtime d)"
    and "run_state (udp_serve_with_state tokio_spawn current t rt config) d = (Inr (), d1)"
    and "run_state (udp_close cancel) d1 = (r, d2)"
  shows "udp_closed (d_server d2) \<and>
         (\<forall>i < worker_count (d_runtime d). \<exists>ids tasks. length ids = length tasks \<and> tasks \<noteq> [] \<and>
            ex_commands (exec_of (d_runtime d2) i) =
              ex_commands (exec_of (d_runtime d) i) @ map2 Spawn ids tasks @ map TaskCommand.Cancel ids)"
proof -
  let ?n = "worker_count (d_runtime d)"
  from udp_serve_ok [OF assms(1) refl assms(2,3)] obtain fds hs where
    len: "length fds = (if t = Windows then 1 else ?n)"
    and sv: "d_server d1 = udp_state_new\<lparr>udp_tasks := mutex_new hs\<rparr>"
    and q: "queued_on (d_runtime d) (d_runtime d1) hs (udp_tasks_of t rt config ?n fds)"
    and op: "all_open (d_runtime d1)" by blast
  have "for_worker_id i (udp_tasks_of t rt config ?n fds) \<noteq> []" if "i < ?n" for i
    using that len by (auto simp: udp_tasks_of_def for_worker_id_enumerate for_worker_id_each)
  then show ?thesis by (intro udp_close_queue [OF q op sv assms(4)]) blast
qed

text \<open>Closing a server set up with \<open>serve_socket\<close> leaves the user's callbacks alone: on every worker the
  callback task was queued and is not cancelled; only what follows it, the dispatcher, is.\<close>

lemma udp_close_spares_callbacks:
  assumes "all_open (d_runtime d)" and "0 < worker_count (d_runtime d)"
    and "run_state (udp_serve_socket tokio_spawn current t rt config) d = (Inr (), d1)"
    and "run_state (udp_close cancel) d1 = (r, d2)" and "i < worker_count (d_runtime d)"
  shows "\<exists>k callback ids tasks. is_callback callback \<and> (\<forall>task \<in> set tasks. \<not> is_callback task) \<and>
           length ids = length tasks \<and>
           ex_commands (exec_of (d_runtime d2) i) =
             ex_commands (exec_of (d_runtime d) i) @ Spawn k callback # map2 Spawn ids tasks @ map TaskCommand.Cancel ids"
  using udp_serve_socket_ok [OF assms(1-3)] close_after_callbacks [OF _ _ _ _ assms(4,5)] by blast

text \<open>Round trip of the registration: code that runs on a worker's thread and asks the server for its
  socket gets a clone of the socket that this worker listens on, whatever the other workers have
  registered.\<close>

lemma started_listener_is_found:
  assumes "udp_intact (d_server d)"
    and "run_state (start_listener rt thread socket) d = (True, d1)"
    and "run_state (listener_socket rt thread) d1 = (Inr s, d2)"
  shows "\<exists>own calls. os_fd (w_os (d_world d)) (TryClone socket # w_calls (d_world d)) = Inr own \<and>
           mx_value (udp_thread_sockets (d_server d1)) = (mx_value (udp_thread_sockets (d_server d)))(thread \<mapsto> own) \<and>
           d_world d2 = logged (TryClone own # calls) (d_world d1) \<and> d_server d2 = d_server d1"
proof -
  obtain dA where reg: "run_state (register_listener_socket thread socket) d = (Inr (), dA)"
    and rest: "d_server d1 = d_server dA"
    using assms(2)
    by (auto simp: start_listener_def result_simps run_on split: prod.splits if_splits)
  obtain own pool where own: "os_fd (w_os (d_world d)) (TryClone socket # w_calls (d_world d)) = Inr own"
    and sv: "d_server dA = (d_server d)
      \<lparr>udp_thread_sockets := (udp_thread_sockets (d_server d))
         \<lparr>mx_value := (mx_value (udp_thread_sockets (d_server d)))(thread \<mapsto> own)\<rparr>,
       udp_sockets := (udp_sockets (d_server d))\<lparr>mx_value := mx_value (udp_sockets (d_server d)) @ [pool]\<rparr>\<rparr>"
    using reg assms(1)
    by (auto simp: register_listener_socket_def run_attempt_Inr run_on run_from_sys_Inr udp_intact_def split: prod.splits)
  have "mx_value (udp_thread_sockets (d_server d1)) thread = Some own" "\<not> mx_poisoned (udp_thread_sockets (d_server d1))"
    using assms(1) rest sv by (simp_all add: udp_intact_def)
  then have "run_state (clone_into_runtime rt own) d1 = (Inr s, d2)"
    using assms(3) by (simp add: listener_socket_def dep_simps split: if_splits)
  from run_clone_into_runtime [OF this] own rest sv show ?thesis by auto
qed

end
