(* ===== verification/Quic_Loops.thy ===== *)
theory Quic_Loops
  imports Udp_Loops Quic_Route
begin

text \<open>
  The loops of the QUIC server (\<open>src/core/quic.rs\<close>). Where the kernel selects the worker, each
  worker receives on its own socket and starts a handler for every packet it accepts; otherwise
  one loop receives everything and sends a packet to the worker that its connection id names.
\<close>

section \<open>Loops\<close>

text \<open>\<open>socket.recv_from_vec(buffer).await\<close> on a socket of the runtime.\<close>

definition await_recv_from_vec ::
    "fd \<Rightarrow> u8 list \<Rightarrow> ('w, (nat \<times> SocketAddr \<times> u8 list) result option) act" where
  "await_recv_from_vec socket buffer = do {
     m \<leftarrow> await env_recv Received;
     State_Monad.return (map_option (\<lambda>arrival. recv_from_vec (RuntimeSocket socket) arrival None buffer) m)}"

definition quic_routed_udp_listener_turn ::
    "fd \<Rightarrow> usize \<Rightarrow> usize list \<Rightarrow> WorkerConcurrencyLimit list \<Rightarrow> u8 list \<Rightarrow> (udp_work, u8 list flow) act" where
  "quic_routed_udp_listener_turn socket workers senders limits buffer = do {
     a \<leftarrow> is_active;
     if \<not> a then State_Monad.return Break else do {
     r \<leftarrow> await_recv_from_vec socket buffer;
     case r of
       None \<Rightarrow> State_Monad.return Break
     | Some (Inl _) \<Rightarrow> do {
         a \<leftarrow> is_active;
         State_Monad.return (if a then Continue new_buffer else Break)}
     | Some (Inr (len, peer, buffer)) \<Rightarrow> do {
         a \<leftarrow> is_active;
         if \<not> a then State_Monad.return Break else
         case quic_worker_index (take len buffer) workers of
           None \<Rightarrow> State_Monad.return (Continue buffer)
         | Some worker_id \<Rightarrow> do {
         bound \<leftarrow> observe env_local_addr LocalAddrRead;
         case slice_get limits worker_id of
           None \<Rightarrow> State_Monad.return Break
         | Some limit \<Rightarrow> do {
         p \<leftarrow> try_acquire worker_id limit;
         case p of
           None \<Rightarrow> State_Monad.return (Continue buffer)
         | Some permit \<Rightarrow>
         (case slice_get senders worker_id of
           None \<Rightarrow> do {release permit; State_Monad.return Break}
         | Some sender \<Rightarrow> do {
         r \<leftarrow> send_work sender (\<lparr>peer_addr = Some peer, local_addr = to_ok bound\<rparr>, take len buffer) permit;
         State_Monad.return (if r then Continue buffer else Break)})}}}}}"

definition quic_reuseport_bpf_listener_turn ::
    "fd \<Rightarrow> usize \<Rightarrow> WorkerConcurrencyLimit \<Rightarrow> u8 list \<Rightarrow> (udp_work, u8 list flow) act" where
  "quic_reuseport_bpf_listener_turn socket workers limit buffer = do {
     a \<leftarrow> is_active;
     if \<not> a then State_Monad.return Break else do {
     p \<leftarrow> acquire limit;
     case p of
       None \<Rightarrow> State_Monad.return Break
     | Some permit \<Rightarrow> do {
     a \<leftarrow> is_active;
     if \<not> a then do {release permit; State_Monad.return Break} else do {
     r \<leftarrow> await_recv_from_vec socket buffer;
     case r of
       None \<Rightarrow> do {release permit; State_Monad.return Break}
     | Some (Inl _) \<Rightarrow> do {
         a \<leftarrow> is_active;
         release permit;
         State_Monad.return (if a then Continue new_buffer else Break)}
     | Some (Inr (len, peer, buffer)) \<Rightarrow> do {
         a \<leftarrow> is_active;
         if \<not> a then do {release permit; State_Monad.return Break} else
         if \<not> quic_reuseport_bpf_accepts_packet (take len buffer) workers
         then do {release permit; State_Monad.return (Continue buffer)} else do {
         bound \<leftarrow> observe env_local_addr LocalAddrRead;
         r \<leftarrow> spawn_udp_handler \<lparr>peer_addr = Some peer, local_addr = to_ok bound\<rparr> (take len buffer) permit;
         State_Monad.return (if r then Continue buffer else Break)}}}}}}"

section \<open>What arrives\<close>

text \<open>
  The datagram that was followed by a look at both flags, with the local address if that is what
  happens next: nothing else may happen to a packet that has to be handed over.
\<close>

fun quic_arrived :: "'w event list \<Rightarrow> (SocketAddr option \<times> SocketAddr \<times> u8 list) option" where
  "quic_arrived (e # LoadServer True # LoadRuntime True # Received (Inr (data, peer)) # _) =
     Some (case e of LocalAddrRead bound \<Rightarrow> to_ok bound | _ \<Rightarrow> None, peer, take 65536 data)"
| "quic_arrived _ = None"

definition quic_offer ::
    "(u8 list \<Rightarrow> nat option option) \<Rightarrow> udp_work event list \<Rightarrow> (nat option \<times> udp_work) option" where
  "quic_offer target tr =
     Option.bind (quic_arrived tr) (\<lambda>(bound, peer, payload).
       map_option (\<lambda>w. (w, \<lparr>peer_addr = Some peer, local_addr = bound\<rparr>, payload)) (target payload))"

definition to_indexed_worker :: "usize \<Rightarrow> u8 list \<Rightarrow> nat option option" where
  "to_indexed_worker n payload = map_option Some (quic_worker_index payload n)"

definition to_accepting_worker :: "usize \<Rightarrow> u8 list \<Rightarrow> nat option option" where
  "to_accepting_worker n payload =
     (if quic_reuseport_bpf_accepts_packet payload n then Some None else None)"

text \<open>Between two turns no datagram is waiting to be handed over, and the buffer has its full size.\<close>

definition quic_idle :: "(u8 list \<Rightarrow> nat option option) \<Rightarrow> u8 list \<Rightarrow> udp_work event list \<Rightarrow> bool" where
  "quic_idle target buffer tr \<longleftrightarrow> length buffer = 65536 \<and>
     (\<forall>e. quic_offer target (e # tr) = None \<and>
          quic_offer target (e # LoadServer True # LoadRuntime True # tr) = None)"

section \<open>Loops keep the contract\<close>

lemma ensures_recv_from_vec:
  assumes buffer: "length buffer = 65536" and cut: "Q None (Cut # tr)"
    and err: "\<And>e e'. Q (Some (Inl e')) (Received (Inl e) # tr)"
    and ok: "\<And>data peer len buffer'. take 65536 data = take len buffer' \<Longrightarrow> length buffer' = 65536 \<Longrightarrow>
       Q (Some (Inr (len, peer, buffer'))) (Received (Inr (data, peer)) # tr)"
  shows "ensures (await_recv_from_vec socket buffer) tr Q"
proof -
  have "Q (Some (recv_from_vec (RuntimeSocket socket) m None buffer)) (Received m # tr)" for m
  proof (cases m)
    case (Inr x)
    obtain data peer where x: "x = (data, peer)" by (cases x)
    have "take 65536 data = take (fst (store buffer data)) (snd (store buffer data))"
      "length (snd (store buffer data)) = 65536"
      using buffer take_store [of buffer data] by (simp_all only: length_store(1) buffer)
    from ok [OF this, of peer] Inr x show ?thesis
      by (simp add: recv_from_vec_def udp_recv_from_def case_prod_unfold Let_def)
  qed (simp add: recv_from_vec_def udp_recv_from_def err)
  with cut show ?thesis
    unfolding await_recv_from_vec_def by (auto intro!: ensures_bind ensures_await ensures_return)
qed

lemmas quic_simps = quic_idle_def quic_offer_def to_indexed_worker_def to_accepting_worker_def

lemma quic_routed_contract:
  assumes "quic_idle (to_indexed_worker n) b tr" and "listening (quic_offer (to_indexed_worker n)) tr"
  shows "ensures (quic_routed_udp_listener_turn socket n [0..<n] limits b) tr (\<lambda>r tr'. case r of
      Continue b' \<Rightarrow> quic_idle (to_indexed_worker n) b' tr' \<and> listening (quic_offer (to_indexed_worker n)) tr'
    | Break \<Rightarrow> ended (quic_offer (to_indexed_worker n)) tr')"
  using assms unfolding quic_routed_udp_listener_turn_def
  by (auto simp: quic_idle_def intro!: ensures_rules ensures_observe ensures_recv_from_vec split: turn_splits)
    (simp_all add: contract_simps quic_simps byte_simps)

lemma quic_bpf_contract:
  assumes "quic_idle (to_accepting_worker n) b tr" and "listening (quic_offer (to_accepting_worker n)) tr"
  shows "ensures (quic_reuseport_bpf_listener_turn socket n limit b) tr (\<lambda>r tr'. case r of
      Continue b' \<Rightarrow> quic_idle (to_accepting_worker n) b' tr' \<and> listening (quic_offer (to_accepting_worker n)) tr'
    | Break \<Rightarrow> ended (quic_offer (to_accepting_worker n)) tr')"
  using assms unfolding quic_reuseport_bpf_listener_turn_def
  by (auto simp: quic_idle_def intro!: ensures_rules ensures_observe ensures_recv_from_vec split: turn_splits)
    (simp_all add: contract_simps quic_simps)

interpretation quic_routed: serving_loop "quic_routed_udp_listener_turn socket n [0..<n] limits"
  "quic_offer (to_indexed_worker n)" "quic_idle (to_indexed_worker n)"
  by unfold_locales
    (auto simp: quic_routed_contract, (auto simp: quic_routed_udp_listener_turn_def dest: inactive_turn)+)

interpretation quic_bpf: serving_loop "quic_reuseport_bpf_listener_turn socket n limit"
  "quic_offer (to_accepting_worker n)" "quic_idle (to_accepting_worker n)"
  by unfold_locales
    (auto simp: quic_bpf_contract, (auto simp: quic_reuseport_bpf_listener_turn_def dest: inactive_turn)+)

lemma quic_idle_start [simp]: "quic_idle target new_buffer []"
  by (simp add: quic_idle_def quic_offer_def)

lemma quic_offer_Some:
  "quic_offer target tr = Some (w, meta, payload) \<Longrightarrow> target payload = Some w \<and> length payload \<le> 65536"
  unfolding quic_offer_def by (cases tr rule: quic_arrived.cases) auto

text \<open>What has been handed over was on offer.\<close>

lemma quic_delivered:
  assumes "subseq (delivered tr) (offered (quic_offer target) tr)" and "(w, meta, payload) \<in> set (delivered tr)"
  shows "target payload = Some w \<and> length payload \<le> 65536"
  using assms by (auto dest!: subseq_set subsetD offered_set quic_offer_Some)

lemma quic_routed_delivered:
  assumes "run_state (loop_run k (quic_routed_udp_listener_turn socket n [0..<n] limits) new_buffer)
      \<lparr>sc_env = e, sc_trace = []\<rparr> = (r, s)"
    and "(w, meta, payload) \<in> set (delivered (sc_trace s))"
  shows "\<exists>i<n. w = Some i \<and> quic_worker_index payload n = Some i"
  using quic_delivered [OF _ assms(2), of "to_indexed_worker n"]
    quic_routed.loop_from_start [OF quic_idle_start assms(1)]
  by (auto simp: to_indexed_worker_def quic_worker_index_eq split: if_splits)

lemma quic_bpf_delivered:
  assumes "run_state (loop_run k (quic_reuseport_bpf_listener_turn socket n limit) new_buffer)
      \<lparr>sc_env = e, sc_trace = []\<rparr> = (r, s)"
    and "(w, meta, payload) \<in> set (delivered (sc_trace s))"
  shows "w = None \<and> (\<exists>i<n. quic_worker_index payload n = Some i)"
  using quic_delivered [OF _ assms(2), of "to_accepting_worker n"]
    quic_bpf.loop_from_start [OF quic_idle_start assms(1)]
  by (auto simp: to_accepting_worker_def quic_accepts_iff quic_worker_index_eq split: if_splits)

lemma take_busy_datagram:
  "take (Suc (Suc (Suc 0))) (snd (store new_buffer [0x40, 0, 1])) = [0x40, 0, 1]"
  using take_new_store [of new_buffer "[0x40, 0, 1]"] by simp

section \<open>Properties\<close>

text \<open>C8. Without a kernel selector the QUIC server hands every packet that carries a worker's index to that
  worker, in the order of arrival, and drops what does not: what the loop hands over is a
  subsequence of what it should, and while it runs the only packets left out are those for
  which the worker's limit refused a permit.\<close>

theorem quic_loop_routes:
  assumes "run_state (loop_run k (quic_routed_udp_listener_turn socket n [0..<n] limits) new_buffer)
      \<lparr>sc_env = e, sc_trace = []\<rparr> = (r, s)"
  shows "subseq (delivered (sc_trace s)) (offered (quic_offer (to_indexed_worker n)) (sc_trace s)) \<and>
         (r \<noteq> Break \<longrightarrow> mset (map fst (offered (quic_offer (to_indexed_worker n)) (sc_trace s))) =
            mset (map fst (delivered (sc_trace s))) + refused (sc_trace s)) \<and>
         (\<forall>(w, meta, payload) \<in> set (delivered (sc_trace s)).
            \<exists>i<n. w = Some i \<and> quic_worker_index payload n = Some i)"
  using quic_routed.loop_from_start [OF quic_idle_start assms] quic_routed_delivered [OF assms] by blast

theorem quic_loop_routes_witness:
  "\<exists>r s. run_state (loop_run 1 (quic_routed_udp_listener_turn 3 2 [0..<2] (worker_limits 2 None)) new_buffer)
       \<lparr>sc_env = busy_env, sc_trace = []\<rparr> = (r, s) \<and> r \<noteq> Break \<and>
     map fst (delivered (sc_trace s)) = [Some 1] \<and>
     delivered (sc_trace s) = offered (quic_offer (to_indexed_worker 2)) (sc_trace s)"
proof -
  have index: "quic_worker_index [0x40, 0, 1] (Suc (Suc 0)) = Some 1" by code_simp
  obtain r s where r: "run_state (loop_run 1 (quic_routed_udp_listener_turn 3 2 [0..<2] (worker_limits 2 None)) new_buffer)
      \<lparr>sc_env = busy_env, sc_trace = []\<rparr> = (r, s)"
    and d: "r \<noteq> Break" "refused (sc_trace s) = {#}" "map fst (delivered (sc_trace s)) = [Some 1]"
    using index by (simp add: quic_routed_udp_listener_turn_def await_recv_from_vec_def recv_from_vec_def
        udp_recv_from_datagram take_busy_datagram worker_limits_def slice_get_def run_loops)
  have "delivered (sc_trace s) = offered (quic_offer (to_indexed_worker 2)) (sc_trace s)"
    using quic_loop_routes [OF r] d(1,2) by (intro all_delivered) simp_all
  with r d show ?thesis by (intro exI conjI)
qed

text \<open>With a kernel selector each worker's loop starts a handler for every packet it accepts, in the order
  of arrival, and for nothing else: a packet that names no worker is dropped and its permit
  returned.\<close>

lemma quic_bpf_loop_accepts:
  assumes "run_state (loop_run k (quic_reuseport_bpf_listener_turn socket n limit) new_buffer)
      \<lparr>sc_env = e, sc_trace = []\<rparr> = (r, s)"
  shows "subseq (delivered (sc_trace s)) (offered (quic_offer (to_accepting_worker n)) (sc_trace s)) \<and>
         (r \<noteq> Break \<longrightarrow> mset (map fst (offered (quic_offer (to_accepting_worker n)) (sc_trace s))) =
            mset (map fst (delivered (sc_trace s))) + refused (sc_trace s)) \<and>
         (\<forall>(w, meta, payload) \<in> set (delivered (sc_trace s)).
            w = None \<and> (\<exists>i<n. quic_worker_index payload n = Some i))"
  using quic_bpf.loop_from_start [OF quic_idle_start assms] quic_bpf_delivered [OF assms] by blast

end
