(* ===== verification/Quic_Reuseport.thy ===== *)
theory Quic_Reuseport
  imports Platform
begin

text \<open>
  QUIC worker selection in the Linux kernel (the second half of \<open>src/platform/linux.rs\<close>):
  one socket per worker on one port, a BPF program attached to the group, and a probe packet
  sent to every worker before the sockets are handed out. Waiting for a probe and draining the
  sockets are loops on the clock and on arriving datagrams; a run that does not end is the
  value \<open>None\<close>.
\<close>

section \<open>Attaching the programs\<close>

datatype target_arch = X86_64 | Aarch64 | Riscv64 | Arm | Powerpc64 | S390x | OtherArch

fun sys_bpf_number :: "target_arch \<Rightarrow> int option" where
  "sys_bpf_number X86_64 = Some 321"
| "sys_bpf_number Aarch64 = Some 280"
| "sys_bpf_number Riscv64 = Some 280"
| "sys_bpf_number Arm = Some 386"
| "sys_bpf_number Powerpc64 = Some 361"
| "sys_bpf_number S390x = Some 351"
| "sys_bpf_number OtherArch = None"

definition BPF_PROG_LOAD :: int where "BPF_PROG_LOAD = 5"
definition BPF_PROG_TYPE_SK_REUSEPORT :: u32 where "BPF_PROG_TYPE_SK_REUSEPORT = 21"
definition LICENSE :: "u8 list" where "LICENSE = [0x47, 0x50, 0x4c, 0]"
definition SOL_SOCKET :: int where "SOL_SOCKET = 1"
definition SO_ATTACH_REUSEPORT_CBPF :: int where "SO_ATTACH_REUSEPORT_CBPF = 51"
definition SO_ATTACH_REUSEPORT_EBPF :: int where "SO_ATTACH_REUSEPORT_EBPF = 52"

definition load_quic_reuseport_ebpf :: "target_arch \<Rightarrow> usize \<Rightarrow> fd result io" where
  "load_quic_reuseport_ebpf arch workers =
     (case sys_bpf_number arch of
        None \<Rightarrow> io_err (UnsupportedPlatformOption
                  ''bpf syscall number is not defined for this target architecture'')
      | Some sys_bpf \<Rightarrow>
          let program = quic_reuseport_ebpf workers;
              attr = BpfProgLoadAttr_default
                \<lparr>prog_type := BPF_PROG_TYPE_SK_REUSEPORT, insn_cnt := word_of_nat (length program),
                 insns := program, license := LICENSE\<rparr>
          in io_from (sys os_fd (BpfSyscall sys_bpf BPF_PROG_LOAD attr)))"

text \<open>The program stays attached when its descriptor is closed, whether attaching succeeded or not.\<close>

definition attach_quic_reuseport_ebpf :: "target_arch \<Rightarrow> fd \<Rightarrow> usize \<Rightarrow> unit result io" where
  "attach_quic_reuseport_ebpf arch socket workers =
     io_try (load_quic_reuseport_ebpf arch workers) (\<lambda>program_fd.
       State_Monad.bind (sys os_unit (SetSockOptFd socket SOL_SOCKET SO_ATTACH_REUSEPORT_EBPF program_fd))
         (\<lambda>result. io_ignore (sys os_unit (CloseFd program_fd))
            (State_Monad.return (map_err error_from result))))"

definition attach_quic_reuseport_cbpf :: "fd \<Rightarrow> usize \<Rightarrow> unit result io" where
  "attach_quic_reuseport_cbpf socket workers =
     (let filter = quic_reuseport_cbpf workers;
          program = \<lparr>fprog_len = word_of_nat (length filter), fprog_filter = filter\<rparr>
      in io_from (sys os_unit (SetSockOptFprog socket SOL_SOCKET SO_ATTACH_REUSEPORT_CBPF program)))"

section \<open>Probing\<close>

text \<open>Programs that may run forever.\<close>

type_synonym 'a long_io = "world \<Rightarrow> ('a \<times> world) option"

definition long :: "'a io \<Rightarrow> 'a long_io" where
  "long m w = Some (run_state m w)"

definition long_try :: "('e + 'a) long_io \<Rightarrow> ('a \<Rightarrow> ('e + 'b) long_io) \<Rightarrow> ('e + 'b) long_io" where
  "long_try m f w =
     (case m w of
        None \<Rightarrow> None
      | Some (Inl e, w') \<Rightarrow> Some (Inl e, w')
      | Some (Inr x, w') \<Rightarrow> f x w')"

definition io_error_new :: "ErrorKind \<Rightarrow> string \<Rightarrow> io_error" where
  "io_error_new kind text = \<lparr>error_kind = kind, error_text = text\<rparr>"

definition routable_probe_addr :: "SocketAddr \<Rightarrow> SocketAddr" where
  "routable_probe_addr addr =
     (if \<not> is_unspecified (ip addr) then addr
      else
        case addr of
          SocketAddrV4 _ p \<Rightarrow> SocketAddr_new (V4 (ipv4 127 0 0 1)) p
        | SocketAddrV6 _ p _ _ \<Rightarrow> SocketAddr_new (V6 1) p)"

text \<open>One pass over the sockets: \<open>Some r\<close> when the function returns \<open>r\<close> from inside it.\<close>

fun poll_for_probe :: "usize \<Rightarrow> u8 list \<Rightarrow> usize \<Rightarrow> fd list \<Rightarrow> unit io_result option io" where
  "poll_for_probe expected_socket probe_packet index [] = State_Monad.return None"
| "poll_for_probe expected_socket probe_packet index (socket # sockets) =
     State_Monad.bind (sys os_recv (RecvFrom socket 16)) (\<lambda>r.
       case r of
         Inr (data, _) \<Rightarrow>
           if data = probe_packet \<and> index = expected_socket
           then State_Monad.return (Some (Inr ()))
           else if data = probe_packet
           then State_Monad.return (Some (Inl (io_error_new KindInvalidData
                  ''QUIC reuse-port selector probe routed to unexpected worker'')))
           else State_Monad.return (Some (Inl (io_error_new KindInvalidData
                  ''QUIC reuse-port selector probe received unexpected packet'')))
       | Inl error \<Rightarrow>
           if error_kind error = KindWouldBlock
           then poll_for_probe expected_socket probe_packet (index + 1) sockets
           else State_Monad.return (Some (Inl error)))"

partial_function (option) probe_loop ::
    "fd list \<Rightarrow> usize \<Rightarrow> u8 list \<Rightarrow> nat \<Rightarrow> unit io_result long_io" where
  "probe_loop sockets expected_socket probe_packet deadline w =
     (let (now, w) = run_state (sys os_clock InstantNow) w in
      if now < deadline then
        (case run_state (poll_for_probe expected_socket probe_packet 0 sockets) w of
           (Some r, w) \<Rightarrow> Some (r, w)
         | (None, w) \<Rightarrow>
             probe_loop sockets expected_socket probe_packet deadline
               (snd (run_state (sys os_clock (Sleep 1)) w)))
      else Some (Inl (io_error_new KindTimedOut ''QUIC reuse-port selector probe timed out''), w))"

definition quic_reuseport_selector_wait_for_probe ::
    "fd list \<Rightarrow> usize \<Rightarrow> u8 list \<Rightarrow> unit io_result long_io" where
  "quic_reuseport_selector_wait_for_probe sockets expected_socket probe_packet w =
     (let (now, w) = run_state (sys os_clock InstantNow) w in
      probe_loop sockets expected_socket probe_packet (now + 100) w)"

partial_function (option) drain_socket :: "fd \<Rightarrow> unit io_result long_io" where
  "drain_socket socket w =
     (case run_state (sys os_recv (RecvFrom socket 16)) w of
        (Inr _, w) \<Rightarrow> drain_socket socket w
      | (Inl error, w) \<Rightarrow>
          if error_kind error = KindWouldBlock then Some (Inr (), w) else Some (Inl error, w))"

fun quic_reuseport_selector_drain_probe_packets :: "fd list \<Rightarrow> unit io_result long_io" where
  "quic_reuseport_selector_drain_probe_packets [] = long (io_ok ())"
| "quic_reuseport_selector_drain_probe_packets (socket # sockets) =
     long_try (drain_socket socket) (\<lambda>_. quic_reuseport_selector_drain_probe_packets sockets)"

fun set_all_nonblocking :: "fd list \<Rightarrow> unit io_result io" where
  "set_all_nonblocking [] = io_ok ()"
| "set_all_nonblocking (socket # sockets) =
     io_try (sys os_unit (SetNonblocking socket True)) (\<lambda>_. set_all_nonblocking sockets)"

fun probe_workers :: "fd \<Rightarrow> SocketAddr \<Rightarrow> fd list \<Rightarrow> usize list \<Rightarrow> unit io_result long_io" where
  "probe_workers sender target sockets [] = long (io_ok ())"
| "probe_workers sender target sockets (expected_socket # rest) =
     (let probe_packet = quic_reuseport_probe_packet expected_socket in
      long_try (long (sys os_unit (SendTo sender probe_packet target))) (\<lambda>_.
      long_try (quic_reuseport_selector_wait_for_probe sockets expected_socket probe_packet) (\<lambda>_.
      probe_workers sender target sockets rest)))"

definition quic_reuseport_selector_routes_probe :: "fd list \<Rightarrow> SocketAddr \<Rightarrow> unit io_result long_io" where
  "quic_reuseport_selector_routes_probe sockets bound_addr =
     (let target = routable_probe_addr bound_addr in
      long_try (long (sys os_fd (UdpBind
        (case target of
           SocketAddrV4 _ _ \<Rightarrow> SocketAddr_new (V4 (ipv4 127 0 0 1)) 0
         | SocketAddrV6 _ _ _ _ \<Rightarrow> SocketAddr_new (V6 1) 0)))) (\<lambda>sender.
      if sockets = [] \<or> length sockets > 65536
      then long (io_err (io_error_new KindInvalidInput
             ''worker count must fit the QUIC CID worker index prefix''))
      else
        long_try (long (set_all_nonblocking sockets)) (\<lambda>_.
        long_try (probe_workers sender target sockets [0..<length sockets]) (\<lambda>_.
        long_try (quic_reuseport_selector_drain_probe_packets sockets) (\<lambda>_.
        long (io_ok ()))))))"

section \<open>Binding\<close>

text \<open>
  The last condition of the function: eBPF or, when that cannot be attached, classic BPF; then
  the probes.
\<close>

definition select_and_probe ::
    "target_arch \<Rightarrow> fd list \<Rightarrow> SocketAddr \<Rightarrow> usize \<Rightarrow> fd list option result long_io" where
  "select_and_probe arch sockets bound_addr workers w =
     (let (attached, w) = run_state (attach_quic_reuseport_ebpf arch (sockets ! 0) workers) w;
          (attached, w) =
            (if is_ok attached then (attached, w)
             else run_state (attach_quic_reuseport_cbpf (sockets ! 0) workers) w)
      in if is_ok attached then
           (case quic_reuseport_selector_routes_probe sockets bound_addr w of
              None \<Rightarrow> None
            | Some (r, w) \<Rightarrow> if is_ok r then Some (Inr (Some sockets), w) else Some (Inr None, w))
         else Some (Inr None, w))"

definition linux_bind_quic_udp_reuseport_workers ::
    "target_arch \<Rightarrow> UdpServiceConfig \<Rightarrow> usize \<Rightarrow> fd list option result long_io" where
  "linux_bind_quic_udp_reuseport_workers arch config workers w =
     (let (disabled, w) = run_state (sys os_present (VarOs ''SFO_REUSEPORT_DISABLE_QUIC_BPF'')) w in
      if disabled then Some (Inr None, w)
      else if workers = 0
      then Some (Inl (InvalidConfig ''worker count must be greater than zero''), w)
      else
        case run_state (bind_udp Linux config) w of
          (Inl _, w) \<Rightarrow> Some (Inr None, w)
        | (Inr first, w) \<Rightarrow>
            (case run_state (io_from (sys os_addr (LocalAddr first))) w of
               (Inl e, w) \<Rightarrow> Some (Inl e, w)
             | (Inr bound_addr, w) \<Rightarrow>
                 let worker_config = config\<lparr>udp_bind_addr := bound_addr\<rparr> in
                 (case run_state (io_collect (workers - 1) (bind_udp Linux worker_config)) w of
                    (Inl _, w) \<Rightarrow> Some (Inr None, w)
                  | (Inr rest, w) \<Rightarrow> select_and_probe arch (first # rest) bound_addr workers w)))"

text \<open>The other platforms have no selector; Android shares the file with Linux.\<close>

definition android_bind_quic_udp_reuseport_workers :: "UdpServiceConfig \<Rightarrow> usize \<Rightarrow> fd list option result" where
  "android_bind_quic_udp_reuseport_workers config workers = Inr None"

definition bsd_bind_quic_udp_reuseport_workers :: "UdpServiceConfig \<Rightarrow> usize \<Rightarrow> fd list option result" where
  "bsd_bind_quic_udp_reuseport_workers config workers = Inr None"

definition windows_bind_quic_udp_reuseport_workers :: "UdpServiceConfig \<Rightarrow> usize \<Rightarrow> fd list option result" where
  "windows_bind_quic_udp_reuseport_workers config workers = Inr None"

definition bind_quic_udp_reuseport_workers ::
    "target \<Rightarrow> target_arch \<Rightarrow> UdpServiceConfig \<Rightarrow> usize \<Rightarrow> fd list option result long_io" where
  "bind_quic_udp_reuseport_workers t arch config workers =
     (case t of
        Linux \<Rightarrow> linux_bind_quic_udp_reuseport_workers arch config workers
      | Android \<Rightarrow> long (State_Monad.return (android_bind_quic_udp_reuseport_workers config workers))
      | Bsd \<Rightarrow> long (State_Monad.return (bsd_bind_quic_udp_reuseport_workers config workers))
      | Windows \<Rightarrow> long (State_Monad.return (windows_bind_quic_udp_reuseport_workers config workers)))"

lemmas bind_quic_defs =
  bind_quic_udp_reuseport_workers_def android_bind_quic_udp_reuseport_workers_def
  bsd_bind_quic_udp_reuseport_workers_def windows_bind_quic_udp_reuseport_workers_def

section \<open>What a probe does\<close>

text \<open>The calls a probe is made of; none of them changes how the kernel selects sockets.\<close>

fun probe_call :: "os_call \<Rightarrow> bool" where
  "probe_call (UdpBind a) \<longleftrightarrow> True"
| "probe_call (SendTo s d a) \<longleftrightarrow> True"
| "probe_call (RecvFrom s n) \<longleftrightarrow> True"
| "probe_call (SetNonblocking s b) \<longleftrightarrow> True"
| "probe_call InstantNow \<longleftrightarrow> True"
| "probe_call (Sleep n) \<longleftrightarrow> True"
| "probe_call _ \<longleftrightarrow> False"

definition long_appends :: "'a long_io \<Rightarrow> (os_call \<Rightarrow> bool) \<Rightarrow> bool" where
  "long_appends m P \<longleftrightarrow> (\<forall>w r w'. m w = Some (r, w') \<longrightarrow> (\<exists>cs. w' = logged cs w \<and> list_all P cs))"

lemma long_appendsE:
  assumes "long_appends m P" and "m w = Some (r, w')"
  obtains cs where "w' = logged cs w" and "list_all P cs"
  using assms unfolding long_appends_def by blast

lemma long_appends_long [intro]: "appends m P \<Longrightarrow> long_appends (long m) P"
  by (auto simp: long_appends_def appends_def long_def) (metis snd_conv)

lemma long_appends_try [intro]:
  assumes m: "long_appends m P" and f: "\<And>x. long_appends (f x) P"
  shows "long_appends (long_try m f) P"
  unfolding long_appends_def
proof (intro allI impI)
  fix w r w' assume "long_try m f w = Some (r, w')"
  then consider (err) e where "m w = Some (Inl e, w')"
    | (ok) x w1 where "m w = Some (Inr x, w1)" "f x w1 = Some (r, w')"
    by (auto simp: long_try_def split: option.splits prod.splits sum.splits)
  then show "\<exists>cs. w' = logged cs w \<and> list_all P cs"
  proof cases
    case err
    with m show ?thesis by (blast elim: long_appendsE)
  next
    case ok
    obtain cs where "w1 = logged cs w" "list_all P cs" by (rule long_appendsE [OF m ok(1)])
    moreover obtain ds where "w' = logged ds w1" "list_all P ds" by (rule long_appendsE [OF f ok(2)])
    ultimately show ?thesis by (intro exI [of _ "cs @ ds"]) simp
  qed
qed

lemma poll_for_probe_appends: "appends (poll_for_probe e p i ss) probe_call"
  by (induction e p i ss rule: poll_for_probe.induct)
    (auto intro!: appends_bind split: sum.split)

lemma set_all_nonblocking_appends: "appends (set_all_nonblocking ss) probe_call"
  by (induction ss) (auto intro!: appends_combine)

text \<open>Induction over the turns of the two loops.\<close>

lemma probe_loop_turns [consumes 1, case_names expired returned again]:
  assumes "probe_loop ss e p deadline w = Some y"
    and expired: "\<And>w err. P w (Inl err, logged [InstantNow] w)"
    and returned: "\<And>w q w2. run_state (poll_for_probe e p 0 ss) (logged [InstantNow] w) = (Some q, w2) \<Longrightarrow>
      P w (q, w2)"
    and again: "\<And>w w2 y. run_state (poll_for_probe e p 0 ss) (logged [InstantNow] w) = (None, w2) \<Longrightarrow>
      P (logged [Sleep 1] w2) y \<Longrightarrow> P w y"
  shows "P w y"
proof -
  have "ss' = ss \<longrightarrow> e' = e \<longrightarrow> p' = p \<longrightarrow> P w y"
    if "probe_loop ss' e' p' d' w = Some y" for ss' e' p' d' w y
    using that
  proof (rule probe_loop.raw_induct [rotated])
    fix loop ss' e' p' d' w y
    assume IH: "\<And>ss' e' p' d' w y. loop ss' e' p' d' w = Some y \<Longrightarrow>
        ss' = ss \<longrightarrow> e' = e \<longrightarrow> p' = p \<longrightarrow> P w y"
      and body: "(let (now, w) = run_state (sys os_clock InstantNow) w
        in if now < d'
           then case run_state (poll_for_probe e' p' 0 ss') w of
                (Some r, w) \<Rightarrow> Some (r, w)
                | (None, w) \<Rightarrow> loop ss' e' p' d' (snd (run_state (sys os_clock (Sleep 1)) w))
           else Some (Inl (io_error_new KindTimedOut ''QUIC reuse-port selector probe timed out''), w))
        = Some y"
    show "ss' = ss \<longrightarrow> e' = e \<longrightarrow> p' = p \<longrightarrow> P w y"
      using body expired returned again [OF _ IH [rule_format]]
      by (cases y) (auto simp: io_steps split: if_splits option.splits prod.splits)
  qed
  with assms(1) show ?thesis by blast
qed

lemma drain_socket_turns [consumes 1, case_names ended again]:
  assumes "drain_socket s w = Some y"
    and ended: "\<And>w r. P w (r, logged [RecvFrom s 16] w)"
    and again: "\<And>w y. P (logged [RecvFrom s 16] w) y \<Longrightarrow> P w y"
  shows "P w y"
proof -
  have "s' = s \<longrightarrow> P w y" if "drain_socket s' w = Some y" for s' w y
    using that
  proof (rule drain_socket.raw_induct [rotated])
    fix loop s' w y
    assume IH: "\<And>s' w y. loop s' w = Some y \<Longrightarrow> s' = s \<longrightarrow> P w y"
      and body: "(case run_state (sys os_recv (RecvFrom s' 16)) w of
        (Inr _, w) \<Rightarrow> loop s' w
      | (Inl error, w) \<Rightarrow>
          if error_kind error = KindWouldBlock then Some (Inr (), w) else Some (Inl error, w)) = Some y"
    show "s' = s \<longrightarrow> P w y"
      using body ended again [OF IH [rule_format]]
      by (cases y) (auto simp: io_steps split: if_splits sum.splits)
  qed
  with assms(1) show ?thesis by blast
qed

lemma probe_loop_appends: "long_appends (probe_loop ss e p deadline) probe_call"
proof -
  have "\<exists>cs. snd y = logged cs w \<and> list_all probe_call cs"
    if "probe_loop ss e p deadline w = Some y" for w y
    using that
  proof (induction rule: probe_loop_turns)
    case (expired w err)
    show ?case by (intro exI [of _ "[InstantNow]"]) simp
  next
    case (returned w q w2)
    obtain cs where "w2 = logged cs (logged [InstantNow] w)" "list_all probe_call cs"
      by (rule appendsE [OF poll_for_probe_appends returned])
    then show ?case by (intro exI [of _ "InstantNow # cs"]) simp
  next
    case (again w w2 y)
    obtain cs where "w2 = logged cs (logged [InstantNow] w)" "list_all probe_call cs"
      by (rule appendsE [OF poll_for_probe_appends again(1)])
    moreover obtain ds where "snd y = logged ds (logged [Sleep 1] w2)" "list_all probe_call ds"
      using again(2) by blast
    ultimately show ?case by (intro exI [of _ "InstantNow # cs @ Sleep 1 # ds"]) simp
  qed
  then show ?thesis unfolding long_appends_def by fastforce
qed

lemma drain_socket_appends: "long_appends (drain_socket s) probe_call"
proof -
  have "\<exists>cs. snd y = logged cs w \<and> list_all probe_call cs"
    if "drain_socket s w = Some y" for w y
    using that
  proof (induction rule: drain_socket_turns)
    case (ended w r)
    show ?case by (intro exI [of _ "[RecvFrom s 16]"]) simp
  next
    case (again w y)
    then obtain cs where "snd y = logged cs (logged [RecvFrom s 16] w)" "list_all probe_call cs"
      by blast
    then show ?case by (intro exI [of _ "RecvFrom s 16 # cs"]) simp
  qed
  then show ?thesis unfolding long_appends_def by fastforce
qed

lemma wait_for_probe_appends:
  "long_appends (quic_reuseport_selector_wait_for_probe ss e p) probe_call"
  unfolding long_appends_def
proof (intro allI impI)
  fix w r w' assume "quic_reuseport_selector_wait_for_probe ss e p w = Some (r, w')"
  then have "probe_loop ss e p (os_clock (w_os w) (InstantNow # w_calls w) + 100)
      (logged [InstantNow] w) = Some (r, w')"
    by (simp add: quic_reuseport_selector_wait_for_probe_def io_steps)
  then obtain cs where "w' = logged cs (logged [InstantNow] w)" "list_all probe_call cs"
    by (rule long_appendsE [OF probe_loop_appends])
  then show "\<exists>cs. w' = logged cs w \<and> list_all probe_call cs"
    by (intro exI [of _ "InstantNow # cs"]) simp
qed

lemma drain_appends: "long_appends (quic_reuseport_selector_drain_probe_packets ss) probe_call"
  by (induction ss) (auto intro: drain_socket_appends)

lemma probe_workers_appends: "long_appends (probe_workers sender target ss is) probe_call"
  by (induction "is")
    (auto simp: Let_def intro!: long_appends_try long_appends_long appends_sys wait_for_probe_appends)

lemma routes_probe_appends:
  "long_appends (quic_reuseport_selector_routes_probe ss a) probe_call"
  by (auto simp: quic_reuseport_selector_routes_probe_def Let_def
      intro!: long_appends_try long_appends_long appends_sys set_all_nonblocking_appends
        probe_workers_appends drain_appends)

section \<open>Sockets that are handed out receive their own probes\<close>

text \<open>At some point of the log, socket \<open>s\<close> received the datagram \<open>data\<close>.\<close>

definition received :: "world \<Rightarrow> fd \<Rightarrow> u8 list \<Rightarrow> bool" where
  "received w s data \<longleftrightarrow>
     (\<exists>later h from. w_calls w = later @ RecvFrom s 16 # h \<and>
        os_recv (w_os w) (RecvFrom s 16 # h) = Inr (data, from))"

lemma received_logged: "received w s data \<Longrightarrow> received (logged cs w) s data"
  unfolding received_def by (metis append.assoc logged_simps(3,4))

lemma received_now:
  "os_recv (w_os w) (RecvFrom s 16 # w_calls w) = Inr (data, from) \<Longrightarrow>
     received (logged [RecvFrom s 16] w) s data"
  unfolding received_def by (intro exI [of _ "[]"] exI [of _ "w_calls w"] exI [of _ "from"]) simp

lemma received_later:
  assumes "long_appends m P" and "m w = Some (r, w')" and "received w s data"
  shows "received w' s data"
  using assms(3) long_appendsE [OF assms(1,2)] by (metis received_logged)

lemma poll_for_probe_received:
  "run_state (poll_for_probe e p i ss) w = (Some (Inr ()), w') \<Longrightarrow>
     i \<le> e \<and> e - i < length ss \<and> received w' (ss ! (e - i)) p"
proof (induction e p i ss arbitrary: w rule: poll_for_probe.induct)
  case (1 e p i)
  then show ?case by simp
next
  case (2 e p i s ss)
  let ?h = "RecvFrom s 16 # w_calls w" and ?w1 = "logged [RecvFrom s 16] w"
  show ?case
  proof (cases "os_recv (w_os w) ?h")
    case (Inl err)
    with 2(2) have kind: "error_kind err = KindWouldBlock"
      and rest: "run_state (poll_for_probe e p (i + 1) ss) ?w1 = (Some (Inr ()), w')"
      by (auto simp: io_steps split: if_splits)
    from 2(1) [OF kind rest] have "i < e" "e - i - 1 < length ss" "received w' (ss ! (e - i - 1)) p"
      by simp_all
    then show ?thesis by (auto simp: nth_Cons')
  next
    case (Inr d)
    with 2(2) have "fst d = p" "i = e" "w' = ?w1"
      by (auto simp: io_steps split: if_splits prod.splits)
    with Inr received_now [of w s p "snd d"] show ?thesis by (cases d) simp
  qed
qed

lemma probe_loop_received:
  assumes "probe_loop ss e p deadline w = Some (Inr (), w')"
  shows "e < length ss \<and> received w' (ss ! e) p"
proof -
  have "fst y = Inr () \<longrightarrow> e < length ss \<and> received (snd y) (ss ! e) p"
    if "probe_loop ss e p deadline w = Some y" for w y
    using that
  proof (induction rule: probe_loop_turns)
    case (returned w q w2)
    then show ?case using poll_for_probe_received [of e p 0 ss] by auto
  qed simp_all
  from this [OF assms] show ?thesis by simp
qed

lemma long_try_ok:
  "long_try m f w = Some (Inr y, w') \<longleftrightarrow>
     (\<exists>x w1. m w = Some (Inr x, w1) \<and> f x w1 = Some (Inr y, w'))"
  by (auto simp: long_try_def split: option.splits prod.splits sum.splits)

lemma probe_workers_received:
  "probe_workers sender target ss is w = Some (Inr (), w') \<Longrightarrow>
     \<forall>i \<in> set is. i < length ss \<and> received w' (ss ! i) (quic_reuseport_probe_packet i)"
proof (induction "is" arbitrary: w)
  case Nil
  then show ?case by simp
next
  case (Cons i "is")
  let ?p = "quic_reuseport_probe_packet i"
  obtain w1 w2 where wait: "quic_reuseport_selector_wait_for_probe ss i ?p w1 = Some (Inr (), w2)"
    and rest: "probe_workers sender target ss is w2 = Some (Inr (), w')"
    using Cons(2) by (auto simp: Let_def long_try_ok)
  from wait have "i < length ss \<and> received w2 (ss ! i) ?p"
    by (auto simp: quic_reuseport_selector_wait_for_probe_def io_steps dest: probe_loop_received)
  with Cons(1) [OF rest] received_later [OF probe_workers_appends rest] show ?case by auto
qed

lemma routes_probe_received:
  assumes "quic_reuseport_selector_routes_probe ss a w = Some (Inr (), w')"
  shows "ss \<noteq> [] \<and> length ss \<le> 65536 \<and>
         (\<forall>i < length ss. received w' (ss ! i) (quic_reuseport_probe_packet i))"
proof -
  from assms have range: "ss \<noteq> [] \<and> length ss \<le> 65536"
    by (auto simp: quic_reuseport_selector_routes_probe_def Let_def long_try_ok long_def io_steps
        split: if_splits)
  then obtain sender w1 w2 where
      p: "probe_workers sender (routable_probe_addr a) ss [0..<length ss] w1 = Some (Inr (), w2)"
    and d: "quic_reuseport_selector_drain_probe_packets ss w2 = Some (Inr (), w')"
    using assms
    by (auto simp: quic_reuseport_selector_routes_probe_def Let_def long_try_ok
        long_def [of "io_ok ()"] io_steps)
  show ?thesis
    using range probe_workers_received [OF p] received_later [OF drain_appends d] by auto
qed

section \<open>Attaching\<close>

definition ebpf_attr :: "usize \<Rightarrow> BpfProgLoadAttr" where
  "ebpf_attr workers = BpfProgLoadAttr_default
     \<lparr>prog_type := 21, insn_cnt := 34, insns := quic_reuseport_ebpf workers,
      license := [0x47, 0x50, 0x4c, 0]\<rparr>"

definition cbpf_prog :: "usize \<Rightarrow> SockFprog" where
  "cbpf_prog workers = \<lparr>fprog_len = 7, fprog_filter = quic_reuseport_cbpf workers\<rparr>"

text \<open>
  At some point of the log, the kernel accepted a program for the group of socket \<open>s\<close>: the eBPF
  program, loaded just before, or the classic one.
\<close>

definition ebpf_attached :: "world \<Rightarrow> fd \<Rightarrow> usize \<Rightarrow> bool" where
  "ebpf_attached w s n \<longleftrightarrow>
     (\<exists>later h nr prog.
        w_calls w = later @ SetSockOptFd s 1 52 prog # BpfSyscall nr 5 (ebpf_attr n) # h \<and>
        os_fd (w_os w) (BpfSyscall nr 5 (ebpf_attr n) # h) = Inr prog \<and>
        os_unit (w_os w) (SetSockOptFd s 1 52 prog # BpfSyscall nr 5 (ebpf_attr n) # h) = Inr ())"

definition cbpf_attached :: "world \<Rightarrow> fd \<Rightarrow> usize \<Rightarrow> bool" where
  "cbpf_attached w s n \<longleftrightarrow>
     (\<exists>later h. w_calls w = later @ SetSockOptFprog s 1 51 (cbpf_prog n) # h \<and>
        os_unit (w_os w) (SetSockOptFprog s 1 51 (cbpf_prog n) # h) = Inr ())"

lemma attached_logged:
  "ebpf_attached w s n \<Longrightarrow> ebpf_attached (logged cs w) s n"
  "cbpf_attached w s n \<Longrightarrow> cbpf_attached (logged cs w) s n"
  unfolding ebpf_attached_def cbpf_attached_def
  by (metis append.assoc logged_simps(3,4))+

lemmas attach_consts = SOL_SOCKET_def SO_ATTACH_REUSEPORT_EBPF_def SO_ATTACH_REUSEPORT_CBPF_def
  BPF_PROG_LOAD_def BPF_PROG_TYPE_SK_REUSEPORT_def LICENSE_def

lemma run_attach_ebpf_ok:
  assumes "run_state (attach_quic_reuseport_ebpf arch s n) w = (Inr u, w')"
  shows "ebpf_attached w' s n"
    and "\<exists>nr prog. w' = logged [BpfSyscall nr 5 (ebpf_attr n), SetSockOptFd s 1 52 prog, CloseFd prog] w"
proof -
  from assms obtain nr prog where load: "os_fd (w_os w) (BpfSyscall nr 5 (ebpf_attr n) # w_calls w) = Inr prog"
    and attach: "os_unit (w_os w)
      (SetSockOptFd s 1 52 prog # BpfSyscall nr 5 (ebpf_attr n) # w_calls w) = Inr ()"
    and w': "w' = logged [BpfSyscall nr 5 (ebpf_attr n), SetSockOptFd s 1 52 prog, CloseFd prog] w"
    by (auto simp: attach_quic_reuseport_ebpf_def load_quic_reuseport_ebpf_def run_io_try_Inr
        run_from_sys_Inr io_steps(1,3-5) Let_def attach_consts ebpf_attr_def result_simps
        split: option.splits)
  show "ebpf_attached w' s n"
    unfolding ebpf_attached_def using load attach
    by (intro exI [of _ "[CloseFd prog]"] exI [of _ "w_calls w"] exI [of _ nr] exI [of _ prog]) (simp add: w')
  show "\<exists>nr prog. w' = logged [BpfSyscall nr 5 (ebpf_attr n), SetSockOptFd s 1 52 prog, CloseFd prog] w"
    using w' by blast
qed

lemma length_quic_reuseport_cbpf [simp]: "length (quic_reuseport_cbpf n) = 7"
  by (simp add: quic_reuseport_cbpf_def)

lemma run_attach_cbpf_ok:
  assumes "run_state (attach_quic_reuseport_cbpf s n) w = (Inr u, w')"
  shows "cbpf_attached w' s n"
proof -
  from assms have "os_unit (w_os w) (SetSockOptFprog s 1 51 (cbpf_prog n) # w_calls w) = Inr ()"
    and w': "w' = logged [SetSockOptFprog s 1 51 (cbpf_prog n)] w"
    by (simp_all add: attach_quic_reuseport_cbpf_def run_from_sys_Inr Let_def attach_consts cbpf_prog_def)
  then show ?thesis
    unfolding cbpf_attached_def by (intro exI [of _ "[]"] exI [of _ "w_calls w"]) simp
qed

lemma select_and_probe_Some:
  assumes "select_and_probe arch ss a n w = Some (Inr (Some ss'), w')"
  shows "ss' = ss \<and> ss \<noteq> [] \<and> length ss \<le> 65536 \<and>
         (ebpf_attached w' (ss ! 0) n \<or> cbpf_attached w' (ss ! 0) n) \<and>
         (\<forall>i < length ss. received w' (ss ! i) (quic_reuseport_probe_packet i))"
proof -
  obtain r1 w1 where e: "run_state (attach_quic_reuseport_ebpf arch (ss ! 0) n) w = (r1, w1)" by fastforce
  obtain r2 w2 where c: "run_state (attach_quic_reuseport_cbpf (ss ! 0) n) w1 = (r2, w2)" by fastforce
  let ?w = "if is_ok r1 then w1 else w2"
  from assms e c have attached: "is_ok r1 \<or> is_ok r2" and ss': "ss' = ss"
    and p: "quic_reuseport_selector_routes_probe ss a ?w = Some (Inr (), w')"
    by (auto simp: select_and_probe_def result_simps split: if_splits option.splits)
  obtain cs where w': "w' = logged cs ?w" by (rule long_appendsE [OF routes_probe_appends p])
  have "ebpf_attached ?w (ss ! 0) n \<or> cbpf_attached ?w (ss ! 0) n"
    using attached e c run_attach_ebpf_ok(1) [of arch "ss ! 0" n w "()" w1]
      run_attach_cbpf_ok [of "ss ! 0" n w1 "()" w2] by (auto simp: result_simps)
  with w' attached_logged routes_probe_received [OF p] ss' show ?thesis by blast
qed

text \<open>
  Once the eBPF program is attached the classic one is never tried, also when the probes then
  show that the eBPF program does not select sockets as it should.
\<close>

fun attaches_cbpf :: "os_call \<Rightarrow> bool" where
  "attaches_cbpf (SetSockOptFprog s level opt prog) \<longleftrightarrow> True"
| "attaches_cbpf _ \<longleftrightarrow> False"

lemma probe_call_not_cbpf: "list_all probe_call cs \<Longrightarrow> \<not> list_ex attaches_cbpf cs"
proof (induction cs)
  case (Cons c cs)
  then show ?case by (cases c) simp_all
qed simp

lemma select_and_probe_after_ebpf:
  assumes e: "run_state (attach_quic_reuseport_ebpf arch (ss ! 0) n) w = (Inr (), w1)"
    and p: "quic_reuseport_selector_routes_probe ss a w1 = Some (r, w')"
  shows "select_and_probe arch ss a n w = Some (Inr (if is_ok r then Some ss else None), w') \<and>
         (\<exists>cs. w' = logged cs w \<and> \<not> list_ex attaches_cbpf cs)"
proof -
  obtain cs where cs: "w' = logged cs w1" "list_all probe_call cs"
    by (rule long_appendsE [OF routes_probe_appends p])
  obtain nr prog where "w1 = logged [BpfSyscall nr 5 (ebpf_attr n), SetSockOptFd (ss ! 0) 1 52 prog,
      CloseFd prog] w"
    using run_attach_ebpf_ok(2) [OF e] by blast
  with cs probe_call_not_cbpf [OF cs(2)] have "\<exists>cs. w' = logged cs w \<and> \<not> list_ex attaches_cbpf cs"
    by (intro exI [of _ "[BpfSyscall nr 5 (ebpf_attr n), SetSockOptFd (ss ! 0) 1 52 prog, CloseFd prog] @ cs"])
      simp
  with e p show ?thesis by (simp add: select_and_probe_def)
qed

section \<open>Termination\<close>

text \<open>
  What the clock and the sockets must do for the loops to end: time does not run backwards and
  sleeping takes at least the time asked for; and a socket that is read again and again is
  empty at some point.
\<close>

definition clock_ok :: "os \<Rightarrow> bool" where
  "clock_ok os \<longleftrightarrow>
     (\<forall>c h. os_clock os h \<le> os_clock os (c # h)) \<and>
     (\<forall>n h. os_clock os h + n \<le> os_clock os (Sleep n # h))"

definition sockets_run_dry :: "os \<Rightarrow> bool" where
  "sockets_run_dry os \<longleftrightarrow>
     (\<forall>s h. \<exists>k e. os_recv os (replicate (Suc k) (RecvFrom s 16) @ h) = Inl e)"

lemma clock_mono: "clock_ok os \<Longrightarrow> os_clock os h \<le> os_clock os (cs @ h)"
  by (induction cs) (auto simp: clock_ok_def intro: order_trans)

lemma clock_sleep: "clock_ok os \<Longrightarrow> os_clock os h + n \<le> os_clock os (Sleep n # h)"
  by (simp add: clock_ok_def)

lemma probe_loop_ends:
  assumes "clock_ok (w_os w)"
  shows "\<exists>y. probe_loop ss e p deadline w = Some y"
  using assms
proof (induction "deadline - os_clock (w_os w) (w_calls w)" arbitrary: w rule: less_induct)
  case less
  let ?now = "os_clock (w_os w) (InstantNow # w_calls w)" and ?w1 = "logged [InstantNow] w"
  obtain q w2 where poll: "run_state (poll_for_probe e p 0 ss) ?w1 = (q, w2)" by fastforce
  obtain cs where w2: "w2 = logged cs ?w1" by (rule appendsE [OF poll_for_probe_appends poll])
  show ?case
  proof (cases "?now < deadline \<and> q = None")
    case True
    let ?w3 = "logged [Sleep 1] w2"
    have "?now + 1 \<le> os_clock (w_os w) (w_calls ?w3)"
    proof -
      have "?now \<le> os_clock (w_os w) (w_calls w2)"
        using less(2) clock_mono [of "w_os w" "InstantNow # w_calls w" "rev cs"] by (simp add: w2)
      moreover have "os_clock (w_os w) (w_calls w2) + 1 \<le> os_clock (w_os w) (w_calls ?w3)"
        using clock_sleep [OF less(2), of "w_calls w2" 1] by simp
      ultimately show ?thesis by simp
    qed
    moreover have "os_clock (w_os w) (w_calls w) \<le> ?now"
      using less(2) by (simp add: clock_ok_def)
    ultimately have "deadline - os_clock (w_os ?w3) (w_calls ?w3) < deadline - os_clock (w_os w) (w_calls w)"
      using True by (simp add: w2 del: logged_simps(4)) linarith
    from less(1) [OF this] less(2) have "\<exists>y. probe_loop ss e p deadline ?w3 = Some y"
      by (simp add: w2)
    with True poll show ?thesis by (subst probe_loop.simps) (simp add: io_steps)
  next
    case False
    with poll show ?thesis
      by (subst probe_loop.simps) (auto simp: io_steps split: option.split)
  qed
qed

lemma drain_socket_ends:
  assumes "sockets_run_dry (w_os w)"
  shows "\<exists>y. drain_socket s w = Some y"
proof -
  obtain k e where "os_recv (w_os w) (replicate (Suc k) (RecvFrom s 16) @ w_calls w) = Inl e"
    using assms unfolding sockets_run_dry_def by blast
  then show ?thesis
  proof (induction k arbitrary: w)
    case 0
    then show ?case by (subst drain_socket.simps) (simp add: io_steps)
  next
    case (Suc k)
    show ?case
    proof (cases "os_recv (w_os w) (RecvFrom s 16 # w_calls w)")
      case (Inl err)
      then show ?thesis by (subst drain_socket.simps) (simp add: io_steps)
    next
      case (Inr d)
      have "\<exists>y. drain_socket s (logged [RecvFrom s 16] w) = Some y"
        using Suc by (simp add: replicate_app_Cons_same)
      with Inr show ?thesis by (subst drain_socket.simps) (simp add: io_steps)
    qed
  qed
qed

text \<open>Programs that keep the system and always end; the property is closed under \<open>long_try\<close>.\<close>

definition ends :: "'a long_io \<Rightarrow> os \<Rightarrow> bool" where
  "ends m os \<longleftrightarrow> (\<forall>w. w_os w = os \<longrightarrow> (\<exists>r w'. m w = Some (r, w') \<and> w_os w' = os))"

lemma ends_try [intro]:
  assumes "ends m os" and "\<And>x. ends (f x) os"
  shows "ends (long_try m f) os"
  unfolding ends_def
proof (intro allI impI)
  fix w :: world assume "w_os w = os"
  then obtain r w1 where m: "m w = Some (r, w1)" "w_os w1 = os"
    using assms(1) unfolding ends_def by blast
  show "\<exists>r w'. long_try m f w = Some (r, w') \<and> w_os w' = os"
  proof (cases r)
    case (Inl e)
    with m show ?thesis by (simp add: long_try_def)
  next
    case (Inr x)
    obtain r' w' where "f x w1 = Some (r', w')" "w_os w' = os"
      using assms(2) m(2) unfolding ends_def by blast
    with m(1) Inr show ?thesis by (simp add: long_try_def)
  qed
qed

lemma ends_long [intro]:
  assumes "appends m P"
  shows "ends (long m) os"
  using assms unfolding ends_def appends_def long_def by (metis logged_simps(3) prod.collapse)

lemma ends_if_some:
  assumes "long_appends m P" and "\<And>w. w_os w = os \<Longrightarrow> \<exists>y. m w = Some y"
  shows "ends m os"
  unfolding ends_def
proof (intro allI impI)
  fix w :: world assume os: "w_os w = os"
  then obtain r w' where m: "m w = Some (r, w')" using assms(2) by fastforce
  obtain cs where "w' = logged cs w" by (rule long_appendsE [OF assms(1) m])
  with m os show "\<exists>r w'. m w = Some (r, w') \<and> w_os w' = os" by simp
qed

lemma routes_probe_ends:
  assumes "clock_ok os" and "sockets_run_dry os"
  shows "ends (quic_reuseport_selector_routes_probe ss a) os"
proof -
  have wait: "ends (quic_reuseport_selector_wait_for_probe ss e p) os" for e p
    using assms(1) probe_loop_ends
    by (intro ends_if_some [OF wait_for_probe_appends])
      (simp add: quic_reuseport_selector_wait_for_probe_def io_steps del: split_paired_Ex)
  have probes: "ends (probe_workers sender target ss is) os" for sender target "is"
    by (induction "is")
      (auto simp: Let_def intro!: ends_try ends_long [of _ probe_call] appends_sys wait)
  have dry: "ends (drain_socket s) os" for s
    using assms(2) drain_socket_ends by (intro ends_if_some [OF drain_socket_appends]) blast
  have drain: "ends (quic_reuseport_selector_drain_probe_packets ts) os" for ts
    by (induction ts) (auto intro!: ends_try ends_long [of _ probe_call] dry)
  show ?thesis
    by (auto simp: quic_reuseport_selector_routes_probe_def Let_def
        intro!: ends_try ends_long [of _ probe_call] appends_sys set_all_nonblocking_appends probes drain)
qed

text \<open>Every part of the function keeps the system, whatever it answers.\<close>

lemma init_callback_appends: "appends (apply_socket_init_callback sc s config) (\<lambda>_. True)"
  unfolding apply_socket_init_callback_def
  by (auto split: option.split intro!: appends_bind)

lemma common_options_appends: "appends (apply_common_options t sc s config) (\<lambda>_. True)"
  unfolding apply_common_options_def set_reuse_port_def linux_set_reuse_port_def bsd_set_reuse_port_def
    windows_set_reuse_port_def unix_set_reuse_port_def transparent_defs
  by (cases t) (auto intro!: appends_combine split: TransparentMode.split)

lemma bind_udp_appends: "appends (bind_udp t config) (\<lambda>_. True)"
  unfolding bind_udp_def
  by (auto intro!: appends_combine init_callback_appends common_options_appends)

lemma bind_tcp_appends: "appends (bind_tcp t config) (\<lambda>_. True)"
  unfolding bind_tcp_def
  by (auto intro!: appends_combine init_callback_appends common_options_appends)

lemma io_collect_appends: "appends m P \<Longrightarrow> appends (io_collect n m) P"
  by (induction n) (auto intro!: appends_combine)

lemma attach_ebpf_appends: "appends (attach_quic_reuseport_ebpf arch s n) (\<lambda>_. True)"
  unfolding attach_quic_reuseport_ebpf_def load_quic_reuseport_ebpf_def Let_def
  by (auto intro!: appends_combine appends_bind split: option.split)

lemma attach_cbpf_appends: "appends (attach_quic_reuseport_cbpf s n) (\<lambda>_. True)"
  unfolding attach_quic_reuseport_cbpf_def Let_def by auto

lemma appends_os: "appends m P \<Longrightarrow> run_state m w = (r, w') \<Longrightarrow> w_os w' = w_os w"
  by (auto elim: appendsE)

lemma select_and_probe_ends:
  assumes "clock_ok (w_os w)" and "sockets_run_dry (w_os w)"
  shows "\<exists>r w'. select_and_probe arch ss a n w = Some (r, w')"
proof -
  obtain r1 w1 where e: "run_state (attach_quic_reuseport_ebpf arch (ss ! 0) n) w = (r1, w1)" by fastforce
  obtain r2 w2 where c: "run_state (attach_quic_reuseport_cbpf (ss ! 0) n) w1 = (r2, w2)" by fastforce
  have "w_os w1 = w_os w" "w_os w2 = w_os w"
    using appends_os [OF attach_ebpf_appends e] appends_os [OF attach_cbpf_appends c] by simp_all
  then have "\<exists>r w'. quic_reuseport_selector_routes_probe ss a w1 = Some (r, w')"
    and "\<exists>r w'. quic_reuseport_selector_routes_probe ss a w2 = Some (r, w')"
    using routes_probe_ends [OF assms] unfolding ends_def by blast+
  with e c show ?thesis by (auto simp: select_and_probe_def)
qed

text \<open>How a call that is not switched off comes to its answer.\<close>

definition DISABLE :: os_call where
  "DISABLE = VarOs ''SFO_REUSEPORT_DISABLE_QUIC_BPF''"

lemma linux_bind_quic_rest:
  assumes "\<not> os_present (w_os w) (DISABLE # w_calls w)" and "0 < n" and "w_os w1 = w_os w"
    and "run_state (bind_udp Linux config) (logged [DISABLE] w) = (Inr s, w1)"
    and "os_addr (w_os w) (LocalAddr s # w_calls w1) = Inr a"
  shows "\<exists>(r :: fd list result) w2. w_os w2 = w_os w \<and> (\<forall>rest. r = Inr rest \<longrightarrow> length rest = n - 1) \<and>
     linux_bind_quic_udp_reuseport_workers arch config n w =
       (case r of Inl _ \<Rightarrow> Some (Inr None, w2) | Inr rest \<Rightarrow> select_and_probe arch (s # rest) a n w2)"
proof -
  let ?c = "config\<lparr>udp_bind_addr := a\<rparr>"
  obtain r w2 where c: "run_state (io_collect (n - 1) (bind_udp Linux ?c)) (logged [LocalAddr s] w1) = (r, w2)"
    by fastforce
  have "w_os w2 = w_os w"
    using appends_os [OF io_collect_appends [OF bind_udp_appends] c] assms(3) by simp
  moreover have "linux_bind_quic_udp_reuseport_workers arch config n w =
      (case r of Inl _ \<Rightarrow> Some (Inr None, w2) | Inr rest \<Rightarrow> select_and_probe arch (s # rest) a n w2)"
    using assms c
    by (auto simp: linux_bind_quic_udp_reuseport_workers_def DISABLE_def io_steps Let_def split: sum.split)
  moreover have "\<forall>rest. r = Inr rest \<longrightarrow> length rest = n - 1"
    using c by (auto dest: udp_binder.collect_ok)
  ultimately show ?thesis by blast
qed

lemma linux_bind_quic_cases:
  assumes "linux_bind_quic_udp_reuseport_workers arch config n w = y"
  obtains (disabled) "os_present (w_os w) (DISABLE # w_calls w)" "y = Some (Inr None, logged [DISABLE] w)"
  | (no_workers) "\<not> os_present (w_os w) (DISABLE # w_calls w)" "n = 0"
      "y = Some (Inl (InvalidConfig ''worker count must be greater than zero''), logged [DISABLE] w)"
  | (unbound) w' where "\<not> os_present (w_os w) (DISABLE # w_calls w)" "0 < n"
      "y = Some (Inr None, w')" "w_os w' = w_os w"
  | (no_addr) s w1 e where "0 < n"
      "run_state (bind_udp Linux config) (logged [DISABLE] w) = (Inr s, w1)"
      "os_addr (w_os w) (LocalAddr s # w_calls w1) = Inl e"
      "y = Some (Inl (error_from e), logged [LocalAddr s] w1)"
  | (bound) first rest a w1 where "0 < n" "length rest = n - 1" "w_os w1 = w_os w"
      "y = select_and_probe arch (first # rest) a n w1"
proof (cases "os_present (w_os w) (DISABLE # w_calls w) \<or> n = 0")
  case True
  with assms disabled no_workers show ?thesis
    by (auto simp: linux_bind_quic_udp_reuseport_workers_def DISABLE_def io_steps split: if_splits)
next
  case False
  let ?w0 = "logged [DISABLE] w"
  obtain r1 w1 where b: "run_state (bind_udp Linux config) ?w0 = (r1, w1)" by fastforce
  have os1: "w_os w1 = w_os w" using appends_os [OF bind_udp_appends b] by simp
  show ?thesis
  proof (cases r1)
    case (Inl e)
    with False b assms have "y = Some (Inr None, w1)"
      by (auto simp: linux_bind_quic_udp_reuseport_workers_def DISABLE_def io_steps)
    with False os1 unbound show ?thesis by auto
  next
    case (Inr s)
    show ?thesis
    proof (cases "os_addr (w_os w) (LocalAddr s # w_calls w1)")
      case (Inl e)
      with False b Inr assms os1 have "y = Some (Inl (error_from e), logged [LocalAddr s] w1)"
        by (auto simp: linux_bind_quic_udp_reuseport_workers_def DISABLE_def io_steps)
      with False b Inr Inl no_addr show ?thesis by auto
    next
      case addr: (Inr a)
      have "\<not> os_present (w_os w) (DISABLE # w_calls w)" "0 < n" using False by simp_all
      from linux_bind_quic_rest [OF this os1 b [unfolded Inr] addr, of arch] assms obtain r2 :: "fd list result" and w2 where
        os2: "w_os w2 = w_os w" and len: "\<forall>rest. r2 = Inr rest \<longrightarrow> length rest = n - 1" and
        y: "y = (case r2 of Inl _ \<Rightarrow> Some (Inr None, w2) | Inr rest \<Rightarrow> select_and_probe arch (s # rest) a n w2)"
        by blast
      show ?thesis
      proof (cases r2)
        case (Inl e)
        with y False os2 unbound show ?thesis by auto
      next
        case rest: (Inr rest)
        with y len False os2 bound show ?thesis by auto
      qed
    qed
  qed
qed

section \<open>Running the loops\<close>

lemma probe_loop_step:
  "os_clock (w_os w) (InstantNow # w_calls w) < deadline \<Longrightarrow>
   probe_loop ss e p deadline w =
     (case run_state (poll_for_probe e p 0 ss) (logged [InstantNow] w) of
        (Some r, w) \<Rightarrow> Some (r, w)
      | (None, w) \<Rightarrow> probe_loop ss e p deadline (logged [Sleep 1] w))"
  by (subst probe_loop.simps) (simp add: io_steps split: prod.split option.split)

lemma drain_socket_stops:
  "os_recv (w_os w) (RecvFrom s 16 # w_calls w) = Inl e \<Longrightarrow>
   drain_socket s w =
     Some (if error_kind e = KindWouldBlock then Inr () else Inl e, logged [RecvFrom s 16] w)"
  by (subst drain_socket.simps) (simp add: io_steps)

lemma loopback_not_unspecified: "\<not> is_unspecified (V4 (ipv4 127 0 0 1))"
  by (simp add: ipv4_def)

lemmas probe_eval =
  quic_reuseport_selector_routes_probe_def long_try_def long_def io_simps Let_def
  routable_probe_addr_def quic_reuseport_selector_wait_for_probe_def probe_loop_step
  drain_socket_stops loopback_not_unspecified

lemmas bind_eval =
  bind_quic_defs linux_bind_quic_udp_reuseport_workers_def
  attach_quic_reuseport_ebpf_def load_quic_reuseport_ebpf_def select_and_probe_def
  bind_udp_def apply_common_options_def apply_socket_init_callback_def set_reuse_port_def
  linux_set_reuse_port_def unix_set_reuse_port_def transparent_defs udp_socket_config_def config_simps

text \<open>
  Two systems to run it on: one whose kernel delivers what was just sent, for one worker, and one
  on which receiving is refused.
\<close>

fun sent_before :: "os_call list \<Rightarrow> (u8 list \<times> SocketAddr) option" where
  "sent_before (InstantNow # h) = sent_before h"
| "sent_before (SendTo s data a # h) = Some (data, a)"
| "sent_before _ = None"

definition loopback_world :: world where
  "loopback_world =
     \<lparr>w_os = calm_os\<lparr>os_recv := (\<lambda>h. case sent_before (tl h) of
          Some arrived \<Rightarrow> Inr arrived
        | None \<Rightarrow> Inl \<lparr>error_kind = KindWouldBlock, error_text = ''would block''\<rparr>)\<rparr>,
      w_calls = []\<rparr>"

definition deaf_world :: world where
  "deaf_world =
     \<lparr>w_os = calm_os\<lparr>os_recv := (\<lambda>_. Inl \<lparr>error_kind = KindOther, error_text = ''refused''\<rparr>)\<rparr>,
      w_calls = []\<rparr>"

lemma bind_quic_Some:
  assumes "bind_quic_udp_reuseport_workers t arch config n w = Some (Inr (Some ss), w')"
  shows "t = Linux \<and> 0 < n \<and> n \<le> 65536 \<and> length ss = n \<and>
         (ebpf_attached w' (ss ! 0) n \<or> cbpf_attached w' (ss ! 0) n) \<and>
         (\<forall>i<n. received w' (ss ! i) (quic_reuseport_probe_packet i))"
proof -
  from assms have t: "t = Linux"
    by (cases t) (simp_all add: bind_quic_defs long_def io_steps)
  with assms have "linux_bind_quic_udp_reuseport_workers arch config n w = Some (Inr (Some ss), w')"
    by (simp add: bind_quic_defs)
  then show ?thesis
  proof (cases rule: linux_bind_quic_cases)
    case (bound first rest a w1)
    then have "select_and_probe arch (first # rest) a n w1 = Some (Inr (Some ss), w')" by simp
    from select_and_probe_Some [OF this] bound(1,2) t show ?thesis by auto
  qed simp_all
qed

lemma loopback_bind:
  "\<exists>w. bind_quic_udp_reuseport_workers Linux X86_64 (udp_config_new (SocketAddrV4 0 4433)) 1 loopback_world =
     Some (Inr (Some [2]), w)"
  by (simp add: bind_eval probe_eval loopback_world_def calm_os_def del: One_nat_def)

section \<open>Properties\<close>

text \<open>C6. When the kernel selector is used, there is one socket per worker, the kernel accepted one of the
  two programs for exactly that many workers, and every socket was seen to receive the probe meant
  for its worker.\<close>

theorem handed_out_sockets_verified:
  assumes "bind_quic_udp_reuseport_workers t arch config n w = Some (Inr (Some ss), w')"
  shows "t = Linux \<and> 0 < n \<and> n \<le> 65536 \<and> length ss = n \<and>
         (ebpf_attached w' (ss ! 0) n \<or> cbpf_attached w' (ss ! 0) n) \<and>
         (\<forall>i<n. received w' (ss ! i) (quic_reuseport_probe_packet i))"
  by (rule bind_quic_Some [OF assms])

theorem handed_out_sockets_verified_witness:
  "\<exists>w'. bind_quic_udp_reuseport_workers Linux X86_64 (udp_config_new (SocketAddrV4 0 4433)) 1
       loopback_world = Some (Inr (Some [2]), w') \<and> received w' 2 (quic_reuseport_probe_packet 0)"
proof -
  obtain w' where r: "bind_quic_udp_reuseport_workers Linux X86_64 (udp_config_new (SocketAddrV4 0 4433)) 1
      loopback_world = Some (Inr (Some [2]), w')"
    using loopback_bind by blast
  from handed_out_sockets_verified [OF r] r show ?thesis by auto
qed

text \<open>C13. Binding for the kernel selector returns, on every system whose clock advances and whose sockets
  run dry: the probe loop gives up after its deadline and draining ends.\<close>

theorem quic_bind_terminates:
  assumes "clock_ok (w_os w)" and "sockets_run_dry (w_os w)"
  shows "\<exists>r w'. bind_quic_udp_reuseport_workers t arch config n w = Some (r, w')"
proof (cases "t = Linux")
  case True
  obtain y where y: "linux_bind_quic_udp_reuseport_workers arch config n w = y" by simp
  have "\<exists>r w'. y = Some (r, w')"
    using y
  proof (cases rule: linux_bind_quic_cases)
    case (bound first rest a w1)
    with assms select_and_probe_ends [of w1 arch "first # rest" a n] show ?thesis by simp
  qed simp_all
  with True y show ?thesis by (simp add: bind_quic_defs)
next
  case False
  then show ?thesis by (cases t) (simp_all add: bind_quic_defs long_def)
qed

theorem quic_bind_terminates_witness:
  "\<exists>r w'. bind_quic_udp_reuseport_workers Linux Arm (udp_config_new (SocketAddrV4 0 4433)) 3 calm_world = Some (r, w')"
proof -
  have "clock_ok (w_os calm_world)" "sockets_run_dry (w_os calm_world)"
    by (auto simp: clock_ok_def sockets_run_dry_def calm_defs)
  then show ?thesis by (rule quic_bind_terminates)
qed

text \<open>C20. When the eBPF program attaches, the outcome of the probes decides alone: if they fail the group is
  given up, and classic BPF is not tried.\<close>

theorem no_classic_bpf_after_ebpf:
  assumes "run_state (attach_quic_reuseport_ebpf arch (ss ! 0) n) w = (Inr (), w1)"
    and "quic_reuseport_selector_routes_probe ss a w1 = Some (Inl e, w')"
  shows "select_and_probe arch ss a n w = Some (Inr None, w') \<and>
         (\<exists>cs. w' = logged cs w \<and> \<not> list_ex attaches_cbpf cs)"
  using select_and_probe_after_ebpf [OF assms] by simp

theorem no_classic_bpf_after_ebpf_witness:
  "\<exists>w'. select_and_probe X86_64 [7] (SocketAddrV4 1 4433) 1 deaf_world = Some (Inr None, w') \<and>
     (\<exists>cs. w' = logged cs deaf_world \<and> \<not> list_ex attaches_cbpf cs)"
proof -
  let ?a = "SocketAddrV4 1 4433"
  obtain w1 where e: "run_state (attach_quic_reuseport_ebpf X86_64 ([7] ! 0) 1) deaf_world = (Inr (), w1)"
    by (simp add: bind_eval probe_eval deaf_world_def calm_os_def)
  moreover have "w_os w1 = w_os deaf_world" by (rule appends_os [OF attach_ebpf_appends e])
  ultimately obtain err w' where p: "quic_reuseport_selector_routes_probe [7] ?a w1 = Some (Inl err, w')"
    by (cases w1) (simp add: probe_eval deaf_world_def calm_os_def)
  from no_classic_bpf_after_ebpf [OF e p] show ?thesis by blast
qed



end
