(* ===== verification/Quic_Server.thy ===== *)
theory Quic_Server
  imports Udp_Server Quic_Loops Quic_Reuseport
begin

text \<open>
  The QUIC server (\<open>src/core/quic.rs\<close>): how \<open>serve\<close> and \<open>serve_socket\<close> set it up. On a system with
  kernel balancing it first asks for worker sockets whose kernel selector was probed; when there
  are none it falls back to one socket and routing in user space. Binding may not return, which
  is \<open>None\<close>.
\<close>

section \<open>Setting up\<close>

type_synonym ('ex, 'sv, 'a) long_dep = "('ex, 'sv) deployment \<Rightarrow> ('a \<times> ('ex, 'sv) deployment) option"

definition at_once :: "('ex, 'sv, 'a) dep \<Rightarrow> ('ex, 'sv, 'a) long_dep" where
  "at_once m d = Some (run_state m d)"

definition long_attempt ::
    "('ex, 'sv, 'e + 'a) long_dep \<Rightarrow> ('a \<Rightarrow> ('ex, 'sv, 'e + 'b) long_dep) \<Rightarrow> ('ex, 'sv, 'e + 'b) long_dep" where
  "long_attempt m f d =
     (case m d of
        None \<Rightarrow> None
      | Some (Inl e, d') \<Rightarrow> Some (Inl e, d')
      | Some (Inr x, d') \<Rightarrow> f x d')"

text \<open>\<open>platform::bind_quic_udp_reuseport_workers(service_config, runtime.worker_count())\<close>\<close>

definition bind_workers ::
    "target \<Rightarrow> target_arch \<Rightarrow> UdpServiceConfig \<Rightarrow> ('ex, 'sv, fd list option result) long_dep" where
  "bind_workers t arch config d =
     map_option (\<lambda>(r, w). (r, d\<lparr>d_world := w\<rparr>))
       (bind_quic_udp_reuseport_workers t arch config (worker_count (d_runtime d)) (d_world d))"

definition add_quic_socket_callback_reuseport_bpf_listener ::
    "(udp_task, 'ex, 'h) spawner \<Rightarrow> nat \<Rightarrow> target \<Rightarrow> target_arch \<Rightarrow> UdpServiceConfig \<Rightarrow>
     ('ex, 'h UdpServerState, bool result) long_dep" where
  "add_quic_socket_callback_reuseport_bpf_listener spawn current t arch config =
     long_attempt (bind_workers t arch config) (\<lambda>bound. at_once (
     case bound of
       None \<Rightarrow> State_Monad.return (Inr False)
     | Some sockets \<Rightarrow>
         if sockets = [] then State_Monad.return (Inl no_workers)
         else attempt (submit_all spawn current register_callback_task
           (enumerate 0 (map2 UdpCallbackTask sockets [0..<length sockets]))) (\<lambda>_.
         State_Monad.return (Inr True))))"

definition add_quic_socket_callback_listener ::
    "(udp_task, 'ex, 'h) spawner \<Rightarrow> nat \<Rightarrow> target \<Rightarrow> target_arch \<Rightarrow> runtime \<Rightarrow> UdpServiceConfig \<Rightarrow>
     ('ex, 'h UdpServerState, unit result) long_dep" where
  "add_quic_socket_callback_listener spawn current t arch rt config =
     long_attempt
       (if reuse_port_balancing (capabilities t)
        then add_quic_socket_callback_reuseport_bpf_listener spawn current t arch config
        else at_once (State_Monad.return (Inr False))) (\<lambda>added. at_once (
     if added then State_Monad.return (Inr ())
     else add_socket_callback_simulated_listener spawn current t rt config quic_route))"

definition add_quic_simulated_listener ::
    "(udp_task, 'ex, 'h) spawner \<Rightarrow> nat \<Rightarrow> target \<Rightarrow> UdpServiceConfig \<Rightarrow>
     ('ex, 'h UdpServerState, unit result) dep" where
  "add_quic_simulated_listener spawn current t config =
     (if \<not> SUPPORTS_USERSPACE_REUSEPORT_SIMULATION then State_Monad.return (Inl no_simulation)
      else
     attempt (on_world (bind_udp t config)) (\<lambda>socket.
     with_runtime (\<lambda>server.
     let workers = length (worker_executors server);
         limits = worker_limits workers (udp_max_concurrency config);
         senders = [0..<workers]
     in
     attempt (submit_all spawn current udp_register_task
       (map (\<lambda>worker_id. (worker_id, UdpDispatchTask worker_id)) [0..<workers])) (\<lambda>_.
     submit_all spawn current udp_register_task [(0, QuicRoutedTask socket workers senders limits)]))))"

definition add_quic_reuseport_bpf_listener ::
    "(udp_task, 'ex, 'h) spawner \<Rightarrow> nat \<Rightarrow> target \<Rightarrow> target_arch \<Rightarrow> UdpServiceConfig \<Rightarrow>
     ('ex, 'h UdpServerState, bool result) long_dep" where
  "add_quic_reuseport_bpf_listener spawn current t arch config =
     long_attempt (bind_workers t arch config) (\<lambda>bound. at_once (
     case bound of
       None \<Rightarrow> State_Monad.return (Inr False)
     | Some sockets \<Rightarrow>
         if sockets = [] then State_Monad.return (Inl no_workers)
         else with_runtime (\<lambda>server.
           attempt (submit_all spawn current udp_register_task
             (enumerate 0 (map (\<lambda>socket. QuicBpfTask socket (worker_count server)
                (limit_new (udp_max_concurrency config))) sockets))) (\<lambda>_.
           State_Monad.return (Inr True)))))"

definition add_quic_reuseport_listener ::
    "(udp_task, 'ex, 'h) spawner \<Rightarrow> nat \<Rightarrow> target \<Rightarrow> target_arch \<Rightarrow> UdpServiceConfig \<Rightarrow>
     ('ex, 'h UdpServerState, unit result) long_dep" where
  "add_quic_reuseport_listener spawn current t arch config =
     long_attempt (add_quic_reuseport_bpf_listener spawn current t arch config) (\<lambda>added. at_once (
     if added then State_Monad.return (Inr ())
     else add_quic_simulated_listener spawn current t config))"

definition add_quic_routed_listener ::
    "(udp_task, 'ex, 'h) spawner \<Rightarrow> nat \<Rightarrow> target \<Rightarrow> target_arch \<Rightarrow> UdpServiceConfig \<Rightarrow>
     ('ex, 'h UdpServerState, unit result) long_dep" where
  "add_quic_routed_listener spawn current t arch config =
     (if reuse_port_balancing (capabilities t)
      then add_quic_reuseport_listener spawn current t arch config
      else at_once (add_quic_simulated_listener spawn current t config))"

definition quic_serve_with_state ::
    "(udp_task, 'ex, 'h) spawner \<Rightarrow> nat \<Rightarrow> target \<Rightarrow> target_arch \<Rightarrow> UdpServiceConfig \<Rightarrow>
     ('ex, 'h UdpServerState, unit result) long_dep" where
  "quic_serve_with_state spawn current t arch config =
     long_attempt (at_once (udp_prepare config)) (\<lambda>_.
     add_quic_routed_listener spawn current t arch config)"

definition quic_serve_socket ::
    "(udp_task, 'ex, 'h) spawner \<Rightarrow> nat \<Rightarrow> target \<Rightarrow> target_arch \<Rightarrow> runtime \<Rightarrow> UdpServiceConfig \<Rightarrow>
     ('ex, 'h UdpServerState, unit result) long_dep" where
  "quic_serve_socket spawn current t arch rt config =
     long_attempt (at_once (udp_prepare config)) (\<lambda>_.
     add_quic_socket_callback_listener spawn current t arch rt config)"

definition quic_close :: "('h \<Rightarrow> 'ex \<Rightarrow> 'ex) \<Rightarrow> ('ex, 'h UdpServerState, unit result) dep" where
  "quic_close do_cancel =
     State_Monad.bind (udp_state_close do_cancel) (\<lambda>_. State_Monad.return (Inr ()))"

definition quic_listener_socket ::
    "runtime \<Rightarrow> nat \<Rightarrow> ('ex, 'h UdpServerState, UdpSocketInner result) dep" where
  "quic_listener_socket rt thread = listener_socket rt thread"

section \<open>What is set up\<close>

definition quic_bpf_tasks :: "UdpServiceConfig \<Rightarrow> usize \<Rightarrow> fd list \<Rightarrow> (usize \<times> udp_task) list" where
  "quic_bpf_tasks config n sockets =
     enumerate 0 (map (\<lambda>socket. QuicBpfTask socket n (limit_new (udp_max_concurrency config))) sockets)"

definition quic_routed_tasks :: "UdpServiceConfig \<Rightarrow> usize \<Rightarrow> fd \<Rightarrow> (usize \<times> udp_task) list" where
  "quic_routed_tasks config n socket =
     map (\<lambda>i. (i, UdpDispatchTask i)) [0..<n] @
     [(0, QuicRoutedTask socket n [0..<n] (worker_limits n (udp_max_concurrency config)))]"

text \<open>
  The loop of a task, for at most \<open>k\<close> turns: whether it is over, and its trace. The callbacks run
  code of the user, and the dispatcher behind them handles no permits.
\<close>

definition outcome :: "'b flow \<times> 'w scene \<Rightarrow> bool \<times> 'w event list" where
  "outcome = (\<lambda>(r, s). (r = Break, sc_trace s))"

definition run_udp_task :: "nat \<Rightarrow> udp_task \<Rightarrow> udp_work env \<Rightarrow> (bool \<times> udp_work event list) option" where
  "run_udp_task k task e =
     (let start = \<lparr>sc_env = e, sc_trace = []\<rparr> in
      case task of
        UdpListenTask socket limit transparent \<Rightarrow>
          Some (outcome (run_state (loop_run k (udp_listener_turn limit transparent) new_buffer) start))
      | UdpSimulatedTask socket workers senders limits transparent \<Rightarrow>
          Some (outcome (run_state
            (loop_run k (simulated_udp_listener_turn workers senders limits transparent) new_buffer) start))
      | UdpDispatchTask receiver \<Rightarrow> Some (outcome (run_state (loop_run k udp_dispatch_turn ()) start))
      | QuicRoutedTask socket workers senders limits \<Rightarrow>
          Some (outcome (run_state
            (loop_run k (quic_routed_udp_listener_turn socket workers senders limits) new_buffer) start))
      | QuicBpfTask socket workers limit \<Rightarrow>
          Some (outcome (run_state
            (loop_run k (quic_reuseport_bpf_listener_turn socket workers limit) new_buffer) start))
      | _ \<Rightarrow> None)"

lemma long_attempt_Inr:
  "long_attempt m f d = Some (Inr y, d') \<longleftrightarrow>
     (\<exists>x d1. m d = Some (Inr x, d1) \<and> f x d1 = Some (Inr y, d'))"
  by (auto simp: long_attempt_def split: option.splits prod.splits sum.splits)

lemma bind_workers_Inr:
  "bind_workers t arch config d = Some (Inr x, d') \<longleftrightarrow>
     (\<exists>w. bind_quic_udp_reuseport_workers t arch config (worker_count (d_runtime d)) (d_world d) = Some (Inr x, w) \<and>
        d' = d\<lparr>d_world := w\<rparr>)"
  by (auto simp: bind_workers_def)

lemma add_quic_simulated_listener_eq:
  "add_quic_simulated_listener spawn current t config =
     attempt (on_world (bind_udp t config)) (\<lambda>socket.
     with_runtime (\<lambda>server. submit_all spawn current udp_register_task
       (quic_routed_tasks config (worker_count server) socket)))"
  by (simp add: add_quic_simulated_listener_def SUPPORTS_USERSPACE_REUSEPORT_SIMULATION_def Let_def
      submit_all_append quic_routed_tasks_def worker_executors_def worker_count_def del: submit_all.simps)

lemma add_quic_bpf_Inr:
  assumes "add_quic_reuseport_bpf_listener spawn current t arch config d = Some (Inr b, d')"
    and "n = worker_count (d_runtime d)"
  shows "if b
     then \<exists>ss w. bind_quic_udp_reuseport_workers t arch config n (d_world d) = Some (Inr (Some ss), w) \<and>
        run_state (submit_all spawn current udp_register_task (quic_bpf_tasks config n ss)) (d\<lparr>d_world := w\<rparr>) = (Inr (), d')
     else \<exists>w. bind_quic_udp_reuseport_workers t arch config n (d_world d) = Some (Inr None, w) \<and> d' = d\<lparr>d_world := w\<rparr>"
  using assms
  by (auto simp: add_quic_reuseport_bpf_listener_def long_attempt_Inr bind_workers_Inr at_once_def
      run_on(3) run_attempt_Inr quic_bpf_tasks_def split: option.splits if_splits)
    (metis not_None_eq)

lemma add_quic_simulated_Inr:
  assumes "run_state (add_quic_simulated_listener spawn current t config) d = (Inr (), d')"
    and "worker_count (d_runtime d) = n"
  shows "\<exists>socket w. run_state (bind_udp t config) (d_world d) = (Inr socket, w) \<and>
      run_state (submit_all spawn current udp_register_task (quic_routed_tasks config n socket))
         (d\<lparr>d_world := w\<rparr>) = (Inr (), d')"
  using assms by (auto simp: add_quic_simulated_listener_eq run_attempt_Inr run_on_world_Inr run_on(3))

text \<open>A server that could be set up uses the kernel selector or routes in user space.\<close>

lemma quic_serve_Inr:
  assumes run: "quic_serve_with_state spawn current t arch config d = Some (Inr (), d')"
    and n: "n = worker_count (d_runtime d)"
  obtains (kernel) ss w where
      "bind_quic_udp_reuseport_workers t arch config n (d_world d) = Some (Inr (Some ss), w)"
      "run_state (submit_all spawn current udp_register_task (quic_bpf_tasks config n ss))
         (d\<lparr>d_server := udp_state_new, d_world := w\<rparr>) = (Inr (), d')"
  | (user) socket w0 w where
      "t \<noteq> Windows \<longrightarrow> bind_quic_udp_reuseport_workers t arch config n (d_world d) = Some (Inr None, w0)"
      "run_state (bind_udp t config) w0 = (Inr socket, w)"
      "run_state (submit_all spawn current udp_register_task (quic_routed_tasks config n socket))
         (d\<lparr>d_server := udp_state_new, d_world := w\<rparr>) = (Inr (), d')"
proof -
  let ?d = "d\<lparr>d_server := udp_state_new\<rparr>"
  from run have add: "add_quic_routed_listener spawn current t arch config ?d = Some (Inr (), d')"
    by (simp add: quic_serve_with_state_def long_attempt_Inr at_once_def run_udp_prepare_Inr)
  show thesis
  proof (cases "t = Windows")
    case True
    with add have "run_state (add_quic_simulated_listener spawn current t config) ?d = (Inr (), d')"
      by (simp add: add_quic_routed_listener_def at_once_def)
    from add_quic_simulated_Inr [OF this] n obtain socket w where "run_state (bind_udp t config) (d_world d) = (Inr socket, w)"
      "run_state (submit_all spawn current udp_register_task (quic_routed_tasks config n socket))
         (d\<lparr>d_server := udp_state_new, d_world := w\<rparr>) = (Inr (), d')" by auto
    with user True show thesis by blast
  next
    case False
    with add obtain b d1 where
      b: "add_quic_reuseport_bpf_listener spawn current t arch config ?d = Some (Inr b, d1)" and
      rest: "(if b then (Inr (), d1) else run_state (add_quic_simulated_listener spawn current t config) d1) = (Inr (), d')"
      by (auto simp: add_quic_routed_listener_def add_quic_reuseport_listener_def long_attempt_Inr at_once_def
          split: if_splits)
    show thesis
    proof (cases b)
      case True
      with add_quic_bpf_Inr [OF b, of n] rest n kernel show thesis by auto
    next
      case False
      with add_quic_bpf_Inr [OF b, of n] n obtain w0 where
        w0: "bind_quic_udp_reuseport_workers t arch config n (d_world d) = Some (Inr None, w0)"
        and d1: "d1 = ?d\<lparr>d_world := w0\<rparr>" by auto
      from add_quic_simulated_Inr [of spawn current t config d1 d' n] rest False d1 n obtain socket w where
        "run_state (bind_udp t config) w0 = (Inr socket, w)"
        "run_state (submit_all spawn current udp_register_task (quic_routed_tasks config n socket))
           (d\<lparr>d_server := udp_state_new, d_world := w\<rparr>) = (Inr (), d')" by auto
      with user w0 show thesis by blast
    qed
  qed
qed

lemma quic_tasks_in_range:
  "0 < n \<Longrightarrow> length ss = n \<Longrightarrow> \<forall>(i, task) \<in> set (quic_bpf_tasks config n ss). i < n"
  "0 < n \<Longrightarrow> \<forall>(i, task) \<in> set (quic_routed_tasks config n socket). i < n"
  by (auto simp: quic_bpf_tasks_def quic_routed_tasks_def in_set_enumerate_eq)

lemma quic_serve_ok:
  assumes op: "all_open (d_runtime d)" and n: "n = worker_count (d_runtime d)" "0 < n"
    and run: "quic_serve_with_state tokio_spawn current t arch config d = Some (Inr (), d')"
  shows "\<exists>hs ts. d_server d' = udp_state_new\<lparr>udp_tasks := mutex_new hs\<rparr> \<and>
           queued_on (d_runtime d) (d_runtime d') hs ts \<and> all_open (d_runtime d') \<and>
           ((\<exists>ss. ts = quic_bpf_tasks config n ss \<and> length ss = n \<and>
              bind_quic_udp_reuseport_workers t arch config n (d_world d) = Some (Inr (Some ss), d_world d')) \<or>
            (\<exists>socket w0. ts = quic_routed_tasks config n socket \<and>
              (t \<noteq> Windows \<longrightarrow> bind_quic_udp_reuseport_workers t arch config n (d_world d) = Some (Inr None, w0))))"
  using run n(1)
proof (cases rule: quic_serve_Inr)
  case (kernel ss w)
  from bind_quic_Some [OF kernel(1)] have len: "length ss = n" by simp
  with quic_tasks_in_range(1) [OF n(2)] n(1)
  have "\<forall>(i, task) \<in> set (quic_bpf_tasks config n ss).
      i < length (rt_workers (d_runtime (d\<lparr>d_server := udp_state_new, d_world := w\<rparr>)))"
    by (simp add: worker_count_def)
  from udp_submit_tasks [OF this, of current] op kernel len show ?thesis by (auto simp: udp_state_new_def)
next
  case (user socket w0 w)
  from quic_tasks_in_range(2) [OF n(2)] n(1)
  have "\<forall>(i, task) \<in> set (quic_routed_tasks config n socket).
      i < length (rt_workers (d_runtime (d\<lparr>d_server := udp_state_new, d_world := w\<rparr>)))"
    by (simp add: worker_count_def)
  from udp_submit_tasks [OF this, of current] op user show ?thesis by (auto simp: udp_state_new_def)
qed

text \<open>The set-up of \<open>serve_socket\<close>: one callback per worker, in both ways of running.\<close>

lemma add_quic_callback_bpf_ok:
  assumes op: "all_open (d_runtime d)" and sv: "d_server d = udp_state_new"
    and run: "add_quic_socket_callback_reuseport_bpf_listener tokio_spawn current t arch config d = Some (Inr b, d')"
  shows "if b then callbacks_queued (d_runtime d) (d_runtime d') [] \<and> all_open (d_runtime d') \<and>
           udp_intact (d_server d') \<and> mx_value (udp_tasks (d_server d')) = []
         else d_runtime d' = d_runtime d \<and> d_server d' = d_server d"
proof -
  from run obtain x w where bind: "bind_quic_udp_reuseport_workers t arch config (worker_count (d_runtime d)) (d_world d) = Some (Inr x, w)"
    and rest: "run_state (case x of None \<Rightarrow> State_Monad.return (Inr False)
      | Some sockets \<Rightarrow> if sockets = [] then State_Monad.return (Inl no_workers)
         else attempt (submit_all tokio_spawn current register_callback_task
           (enumerate 0 (map2 UdpCallbackTask sockets [0..<length sockets]))) (\<lambda>_.
         State_Monad.return (Inr True))) (d\<lparr>d_world := w\<rparr>) = (Inr b, d')"
    unfolding add_quic_socket_callback_reuseport_bpf_listener_def long_attempt_Inr bind_workers_Inr at_once_def by blast
  show ?thesis
  proof (cases x)
    case (Some ss)
    from bind_quic_Some [of t arch config "worker_count (d_runtime d)" "d_world d" ss w] bind Some
    have len: "length ss = worker_count (d_runtime d)" by simp
    from rest Some have "b" and "run_state (submit_all tokio_spawn current register_callback_task
        (enumerate 0 (map2 UdpCallbackTask ss [0..<length ss]))) (d\<lparr>d_world := w\<rparr>) = (Inr (), d')"
      by (auto simp: run_attempt_Inr split: if_splits)
    with submit_callbacks_ok [OF _ _ this(2)] op sv len show ?thesis by simp
  qed (use rest in auto)
qed

lemma quic_serve_socket_ok:
  assumes op: "all_open (d_runtime d)" and n: "0 < worker_count (d_runtime d)"
    and run: "quic_serve_socket tokio_spawn current t arch rt config d = Some (Inr (), d')"
  shows "\<exists>hs. callbacks_queued (d_runtime d) (d_runtime d') hs \<and> all_open (d_runtime d') \<and>
         udp_intact (d_server d') \<and> mx_value (udp_tasks (d_server d')) = hs"
proof -
  let ?d = "d\<lparr>d_server := udp_state_new\<rparr>"
  from run obtain b d1 where
    b: "(if t \<noteq> Windows then add_quic_socket_callback_reuseport_bpf_listener tokio_spawn current t arch config
         else at_once (State_Monad.return (Inr False))) ?d = Some (Inr b, d1)" and
    rest: "run_state (if b then State_Monad.return (Inr ())
         else add_socket_callback_simulated_listener tokio_spawn current t rt config quic_route) d1 = (Inr (), d')"
    unfolding quic_serve_socket_def add_quic_socket_callback_listener_def long_attempt_Inr
    by (auto simp: at_once_def run_udp_prepare_Inr)
  have d1: "if b then callbacks_queued (d_runtime d) (d_runtime d1) [] \<and> all_open (d_runtime d1) \<and>
           udp_intact (d_server d1) \<and> mx_value (udp_tasks (d_server d1)) = []
         else d_runtime d1 = d_runtime d \<and> d_server d1 = udp_state_new"
    using b add_quic_callback_bpf_ok [of ?d current t arch config b d1] op
    by (cases "t = Windows") (auto simp: at_once_def)
  show ?thesis
  proof (cases b)
    case True
    with d1 rest show ?thesis by auto
  next
    case False
    with rest add_callbacks_simulated_ok [of d1 current t rt config quic_route d'] d1 op n show ?thesis by simp
  qed
qed

text \<open>Serving succeeds once the sockets are bound.\<close>

lemma quic_serve_kernel:
  assumes "t \<noteq> Windows" and "udp_channel_capacity config \<noteq> 0" and "n = worker_count (d_runtime d)" and "ss \<noteq> []"
    and "bind_quic_udp_reuseport_workers t arch config n (d_world d) = Some (Inr (Some ss), w)"
    and "run_state (submit_all spawn current udp_register_task (quic_bpf_tasks config n ss))
      (d\<lparr>d_server := udp_state_new, d_world := w\<rparr>) = (Inr (), d')"
  shows "quic_serve_with_state spawn current t arch config d = Some (Inr (), d')"
proof -
  let ?d = "d\<lparr>d_server := udp_state_new\<rparr>"
  have "run_state (udp_prepare config) d = (Inr (), ?d)" using assms(2) by (simp add: run_udp_prepare_Inr)
  moreover have "add_quic_reuseport_bpf_listener spawn current t arch config ?d = Some (Inr True, d')"
    unfolding add_quic_reuseport_bpf_listener_def long_attempt_Inr
    using assms(3-6) by (intro exI [of _ "Some ss"] exI [of _ "?d\<lparr>d_world := w\<rparr>"])
      (simp add: bind_workers_Inr at_once_def run_on(3) run_attempt_Inr quic_bpf_tasks_def)
  ultimately show ?thesis using assms(1)
    by (auto simp: quic_serve_with_state_def add_quic_routed_listener_def add_quic_reuseport_listener_def
        long_attempt_Inr at_once_def)
qed

lemma quic_serve_socket_kernel:
  assumes "t \<noteq> Windows" and "udp_channel_capacity config \<noteq> 0" and "ss \<noteq> []"
    and "bind_quic_udp_reuseport_workers t arch config (worker_count (d_runtime d)) (d_world d) = Some (Inr (Some ss), w)"
    and "run_state (submit_all spawn current register_callback_task
      (enumerate 0 (map2 UdpCallbackTask ss [0..<length ss]))) (d\<lparr>d_server := udp_state_new, d_world := w\<rparr>) = (Inr (), d')"
  shows "quic_serve_socket spawn current t arch rt config d = Some (Inr (), d')"
proof -
  let ?d = "d\<lparr>d_server := udp_state_new\<rparr>"
  have "run_state (udp_prepare config) d = (Inr (), ?d)" using assms(2) by (simp add: run_udp_prepare_Inr)
  moreover have "add_quic_socket_callback_reuseport_bpf_listener spawn current t arch config ?d = Some (Inr True, d')"
    unfolding add_quic_socket_callback_reuseport_bpf_listener_def long_attempt_Inr
    using assms(3-5) by (intro exI [of _ "Some ss"] exI [of _ "?d\<lparr>d_world := w\<rparr>"])
      (simp add: bind_workers_Inr at_once_def run_attempt_Inr)
  ultimately show ?thesis using assms(1)
    by (auto simp: quic_serve_socket_def add_quic_socket_callback_listener_def long_attempt_Inr at_once_def)
qed

lemma quic_serve_windows:
  assumes "udp_channel_capacity config \<noteq> 0" and "run_state (bind_udp Windows config) (d_world d) = (Inr socket, w)"
    and "run_state (submit_all spawn current udp_register_task (quic_routed_tasks config (worker_count (d_runtime d)) socket))
      (d\<lparr>d_server := udp_state_new, d_world := w\<rparr>) = (Inr (), d')"
  shows "quic_serve_with_state spawn current Windows arch config d = Some (Inr (), d')"
proof -
  let ?d = "d\<lparr>d_server := udp_state_new\<rparr>"
  have "run_state (udp_prepare config) d = (Inr (), ?d)" using assms(1) by (simp add: run_udp_prepare_Inr)
  moreover have "run_state (add_quic_simulated_listener spawn current Windows config) ?d = (Inr (), d')"
    unfolding add_quic_simulated_listener_eq run_attempt_Inr
    using assms(2,3) by (intro exI [of _ socket] exI [of _ "?d\<lparr>d_world := w\<rparr>"])
      (simp add: run_on_world_Inr run_on(3))
  ultimately show ?thesis
    by (simp add: quic_serve_with_state_def add_quic_routed_listener_def long_attempt_Inr at_once_def)
qed

text \<open>One worker on the system of which the loopback delivers what is sent.\<close>

definition loopback_deployment :: "(udp_task executor, nat UdpServerState) deployment" where
  "loopback_deployment =
     \<lparr>d_world = loopback_world, d_runtime = two_workers\<lparr>rt_workers := take 1 (rt_workers two_workers)\<rparr>,
      d_server = udp_state_new\<rparr>"

lemma loopback_deployment_simps [simp]:
  "d_world loopback_deployment = loopback_world" "d_server loopback_deployment = udp_state_new"
  "worker_count (d_runtime loopback_deployment) = 1" "length (rt_workers (d_runtime loopback_deployment)) = 1"
  "all_open (d_runtime loopback_deployment)"
  by (simp_all add: loopback_deployment_def two_workers_def worker_count_def all_open_def executor_new_def)

lemma loopback_serve:
  "\<exists>d'. quic_serve_with_state tokio_spawn 9 Linux X86_64 (udp_config_new (SocketAddrV4 0 4433)) loopback_deployment =
     Some (Inr (), d')"
proof -
  let ?c = "udp_config_new (SocketAddrV4 0 4433)"
  obtain w where b: "bind_quic_udp_reuseport_workers Linux X86_64 ?c 1 loopback_world = Some (Inr (Some [2]), w)"
    using loopback_bind by blast
  let ?d = "loopback_deployment\<lparr>d_server := udp_state_new, d_world := w\<rparr>"
  have "\<forall>(i, task) \<in> set (quic_bpf_tasks ?c 1 [2]). i < length (rt_workers (d_runtime ?d))"
    using quic_tasks_in_range(1) [of 1 "[2]" ?c] by simp
  from udp_submit_tasks [OF this, of 9] obtain d' where
    "run_state (submit_all tokio_spawn 9 udp_register_task (quic_bpf_tasks ?c 1 [2])) ?d = (Inr (), d')"
    by (auto simp: udp_state_new_def)
  from quic_serve_kernel [OF _ _ _ _ _ this] b show ?thesis by (auto simp: config_simps)
qed

section \<open>Properties\<close>

text \<open>C7. A QUIC server that was set up runs in one of two ways. With the kernel selector, on Linux only, worker
  \<open>i\<close> listens on the \<open>i\<close>-th of a group of sockets for which the kernel accepted one of the two
  programs for exactly that many workers, and which received the probe meant for worker \<open>i\<close>.
  Otherwise, and on a system with kernel balancing only after the request for such a group was
  answered with \<open>None\<close>, one socket is routed in user space. Exactly these tasks are queued.\<close>

theorem quic_serve_deploys:
  assumes "all_open (d_runtime d)" and "n = worker_count (d_runtime d)" and "0 < n"
    and "quic_serve_with_state tokio_spawn current t arch config d = Some (Inr (), d')"
  shows "\<exists>hs. d_server d' = udp_state_new\<lparr>udp_tasks := mutex_new hs\<rparr> \<and>
     ((\<exists>ss. t = Linux \<and> length ss = n \<and>
         queued_on (d_runtime d) (d_runtime d') hs (quic_bpf_tasks config n ss) \<and>
         (ebpf_attached (d_world d') (ss ! 0) n \<or> cbpf_attached (d_world d') (ss ! 0) n) \<and>
         (\<forall>i<n. received (d_world d') (ss ! i) (quic_reuseport_probe_packet i))) \<or>
      (\<exists>socket w0. queued_on (d_runtime d) (d_runtime d') hs (quic_routed_tasks config n socket) \<and>
         (t \<noteq> Windows \<longrightarrow>
           bind_quic_udp_reuseport_workers t arch config n (d_world d) = Some (Inr None, w0))))"
  using quic_serve_ok [OF assms] bind_quic_Some [of t arch config n "d_world d" _ "d_world d'"] by blast

theorem quic_serve_deploys_witness:
  "\<exists>d' ss. quic_serve_with_state tokio_spawn 9 Linux X86_64 (udp_config_new (SocketAddrV4 0 4433)) loopback_deployment =
       Some (Inr (), d') \<and>
     length ss = 1 \<and> received (d_world d') (ss ! 0) (quic_reuseport_probe_packet 0)"
proof -
  let ?c = "udp_config_new (SocketAddrV4 0 4433)"
  obtain d' where run: "quic_serve_with_state tokio_spawn 9 Linux X86_64 ?c loopback_deployment = Some (Inr (), d')"
    using loopback_serve by blast
  have "\<exists>ss. length ss = 1 \<and> received (d_world d') (ss ! 0) (quic_reuseport_probe_packet 0)"
    using quic_serve_deploys [OF _ _ _ run, of 1] loopback_bind by auto
  with run show ?thesis by blast
qed

text \<open>After a successful \<open>serve\<close> and \<open>close\<close> of a QUIC server on tokio every worker's queue holds what it held
  before, then the server's tasks for that worker, at least one, and then a cancellation for
  each, in both ways of running.\<close>

lemma quic_close_cancels_every_task:
  assumes "all_open (d_runtime d)" and "0 < worker_count (d_runtime d)"
    and "quic_serve_with_state tokio_spawn current t arch config d = Some (Inr (), d1)"
    and "run_state (quic_close cancel) d1 = (r, d2)"
  shows "udp_closed (d_server d2) \<and>
         (\<forall>i < worker_count (d_runtime d). \<exists>ids tasks. length ids = length tasks \<and> tasks \<noteq> [] \<and>
            ex_commands (exec_of (d_runtime d2) i) =
              ex_commands (exec_of (d_runtime d) i) @ map2 Spawn ids tasks @ map TaskCommand.Cancel ids)"
proof -
  from quic_serve_ok [OF assms(1) refl assms(2,3)] obtain hs ts where
    sv: "d_server d1 = udp_state_new\<lparr>udp_tasks := mutex_new hs\<rparr>"
    and q: "queued_on (d_runtime d) (d_runtime d1) hs ts" and op: "all_open (d_runtime d1)"
    and ts: "(\<exists>ss. ts = quic_bpf_tasks config (worker_count (d_runtime d)) ss \<and> length ss = worker_count (d_runtime d)) \<or>
      (\<exists>socket. ts = quic_routed_tasks config (worker_count (d_runtime d)) socket)" by blast
  have "run_state (udp_close cancel) d1 = (r, d2)"
    using assms(4) by (simp add: quic_close_def udp_close_def)
  moreover have "for_worker_id i ts \<noteq> []" if "i < worker_count (d_runtime d)" for i
    using ts that
    by (auto simp: quic_bpf_tasks_def quic_routed_tasks_def for_worker_id_enumerate for_worker_id_each)
  ultimately show ?thesis by (intro udp_close_queue [OF q op sv]) blast+
qed

text \<open>C10. Permits are neither lost nor duplicated. Whatever happens around it, every listening, routing or
  dispatching task of a UDP or QUIC server passes each permit it obtains to exactly one handler
  or worker or drops it; after it has seen a flag cleared it does nothing but drop its permit;
  and once the server is closed it ends within one turn without handing anything over.\<close>

theorem udp_tasks_conserve_permits:
  assumes "(i, task) \<in> set (udp_tasks_of t rt config n fds @ quic_bpf_tasks config n ss @ quic_routed_tasks config n socket)"
    and "run_udp_task k task e = Some (over, tr)"
  shows "gained tr = given tr + released tr \<and> quiet tr \<and>
         ((\<forall>tr. \<not> env_server_active e tr) \<and> 0 < k \<longrightarrow> over \<and> delivered tr = [])"
proof -
  from assms(1) consider (listen) l limit transparent where "task = UdpListenTask l limit transparent"
    | (dispatch) j where "task = UdpDispatchTask j"
    | (simulated) l limits transparent where "task = UdpSimulatedTask l n [0..<n] limits transparent"
    | (routed) l limits where "task = QuicRoutedTask l n [0..<n] limits"
    | (bpf) l limit where "task = QuicBpfTask l n limit"
    by (auto simp: udp_tasks_of_def quic_bpf_tasks_def quic_routed_tasks_def in_set_enumerate_eq split: if_splits)
  then show ?thesis
  proof cases
    case listen
    with assms(2) udp_native.loop_safe [OF length_new_buffer] show ?thesis
      by (auto simp: run_udp_task_def outcome_def Let_def split: prod.splits)
  next
    case dispatch
    with assms(2) udp_dispatch.loop_safe [OF TrueI] show ?thesis
      by (auto simp: run_udp_task_def outcome_def Let_def split: prod.splits)
  next
    case simulated
    with assms(2) udp_simulated.loop_safe [OF length_new_buffer] show ?thesis
      by (auto simp: run_udp_task_def outcome_def Let_def split: prod.splits)
  next
    case routed
    with assms(2) quic_routed.loop_safe [OF quic_idle_start] show ?thesis
      by (auto simp: run_udp_task_def outcome_def Let_def split: prod.splits)
  next
    case bpf
    with assms(2) quic_bpf.loop_safe [OF quic_idle_start] show ?thesis
      by (auto simp: run_udp_task_def outcome_def Let_def split: prod.splits)
  qed
qed

theorem udp_tasks_conserve_permits_witness:
  "\<exists>tr. run_udp_task 1 (QuicBpfTask 3 2 (limit_new (Some 1))) busy_env = Some (False, tr) \<and>
     gained tr = {#Some 2#} \<and> given tr = gained tr \<and> gained tr = given tr + released tr"
proof -
  let ?c = "udp_with_max_concurrency (udp_config_new (SocketAddrV4 0 53)) 1"
  have task: "(0, QuicBpfTask 3 2 (limit_new (Some 1))) \<in>
      set (udp_tasks_of Linux Tokio ?c 2 [] @ quic_bpf_tasks ?c 2 [3] @ quic_routed_tasks ?c 2 0)"
    by (simp add: quic_bpf_tasks_def config_simps)
  have accepts: "quic_reuseport_bpf_accepts_packet [0x40, 0, 1] (Suc (Suc 0))" by code_simp
  obtain tr where r: "run_udp_task 1 (QuicBpfTask 3 2 (limit_new (Some 1))) busy_env = Some (False, tr)"
    and g: "gained tr = {#Some 2#}" "given tr = gained tr"
    using accepts by (simp add: run_udp_task_def outcome_def quic_reuseport_bpf_listener_turn_def spawn_udp_handler_def await_recv_from_vec_def
        recv_from_vec_def udp_recv_from_datagram take_busy_datagram run_loops)
  from udp_tasks_conserve_permits [OF task r] r g show ?thesis by blast
qed

text \<open>C35. Closing a QUIC server set up with \<open>serve_socket\<close> leaves the user's callbacks alone, whether the kernel
  or the server routes: on every worker one callback was queued and is not cancelled; only what
  follows it, the dispatcher, is.\<close>

theorem quic_close_spares_callbacks:
  assumes "all_open (d_runtime d)" and "0 < worker_count (d_runtime d)"
    and "quic_serve_socket tokio_spawn current t arch rt config d = Some (Inr (), d1)"
    and "run_state (quic_close cancel) d1 = (r, d2)" and "i < worker_count (d_runtime d)"
  shows "\<exists>k callback ids tasks. is_callback callback \<and> (\<forall>task \<in> set tasks. \<not> is_callback task) \<and>
           length ids = length tasks \<and>
           ex_commands (exec_of (d_runtime d2) i) =
             ex_commands (exec_of (d_runtime d) i) @ Spawn k callback # map2 Spawn ids tasks @ map TaskCommand.Cancel ids"
proof -
  have "run_state (udp_close cancel) d1 = (r, d2)"
    using assms(4) by (simp add: quic_close_def udp_close_def)
  from quic_serve_socket_ok [OF assms(1-3)] close_after_callbacks [OF _ _ _ _ this assms(5)] show ?thesis by blast
qed

theorem quic_close_spares_callbacks_witness:
  "\<exists>d1 d2 r. quic_serve_socket tokio_spawn 9 Linux X86_64 Tokio (udp_config_new (SocketAddrV4 0 4433)) loopback_deployment =
       Some (Inr (), d1) \<and>
     run_state (quic_close cancel) d1 = (r, d2) \<and>
     (\<exists>k callback rest. is_callback callback \<and> ex_commands (exec_of (d_runtime d2) 0) = Spawn k callback # rest)"
proof -
  let ?c = "udp_config_new (SocketAddrV4 0 4433)" and ?ts = "enumerate 0 (map2 UdpCallbackTask [2] [0..<length [2::nat]])"
  obtain w where b: "bind_quic_udp_reuseport_workers Linux X86_64 ?c 1 loopback_world = Some (Inr (Some [2]), w)"
    using loopback_bind by blast
  let ?d = "loopback_deployment\<lparr>d_server := udp_state_new, d_world := w\<rparr>"
  obtain d1 where "run_state (submit_all tokio_spawn 9 register_callback_task ?ts) ?d = (Inr (), d1)"
    using udp_callback_registry.submit_all_ok [of ?ts ?d 9] by (auto simp: udp_state_new_def)
  with quic_serve_socket_kernel [of Linux ?c "[2]" X86_64 loopback_deployment w tokio_spawn 9 d1 Tokio] b
  have d1: "quic_serve_socket tokio_spawn 9 Linux X86_64 Tokio ?c loopback_deployment = Some (Inr (), d1)"
    by (simp add: config_simps del: submit_all.simps)
  obtain r d2 where d2: "run_state (quic_close cancel) d1 = (r, d2)" by fastforce
  have "\<exists>k callback rest. is_callback callback \<and> ex_commands (exec_of (d_runtime d2) 0) = Spawn k callback # rest"
    using quic_close_spares_callbacks [OF _ _ d1 d2, of 0]
    by (auto simp: loopback_deployment_def two_workers_def executor_new_def worker_count_def all_open_def)
  with d1 d2 show ?thesis by blast
qed

end
