(* ===== verification/Addr_Text.thy ===== *)
theory Addr_Text
  imports Net_Addr
begin

text \<open>
  Reading socket addresses and numbers from text, as \<open>str::parse\<close> of the standard library does it
  for \<open>SocketAddr\<close> and \<open>usize\<close>: the example programs take both on their command lines. A parser
  consumes a prefix of its input or fails and leaves it alone.
\<close>

section \<open>Parsers\<close>

type_synonym 'a parser = "string \<Rightarrow> ('a \<times> string) option"

definition p_then :: "'a parser \<Rightarrow> ('a \<Rightarrow> 'b parser) \<Rightarrow> 'b parser" where
  "p_then p f s = (case p s of None \<Rightarrow> None | Some (x, r) \<Rightarrow> f x r)"

definition p_return :: "'a \<Rightarrow> 'a parser" where
  "p_return x s = Some (x, s)"

definition p_or :: "'a parser \<Rightarrow> 'a \<Rightarrow> 'a parser" where
  "p_or p x s = (case p s of None \<Rightarrow> Some (x, s) | Some y \<Rightarrow> Some y)"

definition read_given_char :: "char \<Rightarrow> unit parser" where
  "read_given_char c s = (case s of [] \<Rightarrow> None | x # r \<Rightarrow> if x = c then Some ((), r) else None)"

text \<open>Before every item but the first there is a separator.\<close>

definition read_separator :: "char \<Rightarrow> bool \<Rightarrow> 'a parser \<Rightarrow> 'a parser" where
  "read_separator sep first inner = (if first then inner else p_then (read_given_char sep) (\<lambda>_. inner))"

definition to_digit :: "nat \<Rightarrow> char \<Rightarrow> nat option" where
  "to_digit radix c =
     (let n = of_char c;
          d = (if 48 \<le> n \<and> n \<le> 57 then n - 48
               else if 97 \<le> n \<and> n \<le> 122 then n - 87
               else if 65 \<le> n \<and> n \<le> 90 then n - 55
               else radix)
      in if d < radix then Some d else None)"

fun read_digits :: "nat \<Rightarrow> string \<Rightarrow> nat list \<times> string" where
  "read_digits radix [] = ([], [])"
| "read_digits radix (c # s) =
     (case to_digit radix c of
        None \<Rightarrow> ([], c # s)
      | Some d \<Rightarrow> (case read_digits radix s of (ds, r) \<Rightarrow> (d # ds, r)))"

definition digits_value :: "nat \<Rightarrow> nat list \<Rightarrow> nat" where
  "digits_value radix ds = foldl (\<lambda>v d. v * radix + d) 0 ds"

text \<open>A number below a limit, with at most so many digits; a leading zero may be forbidden.\<close>

definition read_number :: "nat \<Rightarrow> nat option \<Rightarrow> bool \<Rightarrow> nat \<Rightarrow> nat parser" where
  "read_number radix max_digits allow_zero_prefix limit s =
     (case read_digits radix s of
        (ds, r) \<Rightarrow>
          if ds = [] \<or> (\<not> allow_zero_prefix \<and> hd ds = 0 \<and> 1 < length ds) \<or>
             (\<exists>m \<in> set_option max_digits. m < length ds) \<or> limit \<le> digits_value radix ds
          then None else Some (digits_value radix ds, r))"

section \<open>Addresses\<close>

definition read_octet :: "u8 parser" where
  "read_octet = p_then (read_number 10 (Some 3) False 256) (\<lambda>n. p_return (word_of_nat n))"

definition read_ipv4_addr :: "Ipv4Addr parser" where
  "read_ipv4_addr =
     p_then read_octet (\<lambda>a.
     p_then (read_separator CHR ''.'' False read_octet) (\<lambda>b.
     p_then (read_separator CHR ''.'' False read_octet) (\<lambda>c.
     p_then (read_separator CHR ''.'' False read_octet) (\<lambda>d. p_return (ipv4 a b c d)))))"

text \<open>
  Up to so many groups of an IPv6 address, and whether the last two were written as an IPv4
  address.
\<close>

fun read_groups :: "nat \<Rightarrow> bool \<Rightarrow> string \<Rightarrow> u16 list \<times> bool \<times> string" where
  "read_groups 0 first s = ([], False, s)"
| "read_groups (Suc left) first s =
     (case (if 0 < left then read_separator CHR '':'' first read_ipv4_addr s else None) of
        Some (v4, r) \<Rightarrow> ([ucast (drop_bit 16 v4), ucast v4], True, r)
      | None \<Rightarrow>
          (case read_separator CHR '':'' first (read_number 16 (Some 4) True 65536) s of
             None \<Rightarrow> ([], False, s)
           | Some (g, r) \<Rightarrow>
               (case read_groups left False r of (gs, has_v4, r) \<Rightarrow> (word_of_nat g # gs, has_v4, r))))"

definition of_groups :: "u16 list \<Rightarrow> Ipv6Addr" where
  "of_groups gs = foldl (\<lambda>w g. push_bit 16 w OR ucast g) 0 gs"

definition read_ipv6_addr :: "Ipv6Addr parser" where
  "read_ipv6_addr s =
     (case read_groups 8 True s of
        (head, head_v4, r) \<Rightarrow>
          if length head = 8 then Some (of_groups head, r)
          else if head_v4 then None
          else
            p_then (read_given_char CHR '':'') (\<lambda>_.
            p_then (read_given_char CHR '':'') (\<lambda>_ r.
              case read_groups (8 - (length head + 1)) True r of
                (tail, _, r) \<Rightarrow>
                  Some (of_groups (head @ replicate (8 - length head - length tail) 0 @ tail), r))) r)"

definition read_port :: "u16 parser" where
  "read_port =
     p_then (read_given_char CHR '':'') (\<lambda>_.
     p_then (read_number 10 None True (2 ^ 16)) (\<lambda>n. p_return (word_of_nat n)))"

definition read_scope_id :: "u32 parser" where
  "read_scope_id =
     p_then (read_given_char CHR ''%'') (\<lambda>_.
     p_then (read_number 10 None True (2 ^ 32)) (\<lambda>n. p_return (word_of_nat n)))"

definition read_socket_addr_v4 :: "SocketAddr parser" where
  "read_socket_addr_v4 =
     p_then read_ipv4_addr (\<lambda>a. p_then read_port (\<lambda>p. p_return (SocketAddrV4 a p)))"

definition read_socket_addr_v6 :: "SocketAddr parser" where
  "read_socket_addr_v6 =
     p_then (read_given_char CHR ''['') (\<lambda>_.
     p_then read_ipv6_addr (\<lambda>a.
     p_then (p_or read_scope_id 0) (\<lambda>scope_id.
     p_then (read_given_char CHR '']'') (\<lambda>_.
     p_then read_port (\<lambda>p. p_return (SocketAddrV6 a p 0 scope_id))))))"

text \<open>All of the text must be used. The error is what \<open>AddrParseError\<close> displays.\<close>

definition parse_socket_addr :: "string \<Rightarrow> string + SocketAddr" where
  "parse_socket_addr s =
     (case (case read_socket_addr_v4 s of None \<Rightarrow> read_socket_addr_v6 s | Some x \<Rightarrow> Some x) of
        Some (a, []) \<Rightarrow> Inr a
      | _ \<Rightarrow> Inl ''invalid socket address syntax'')"

section \<open>Numbers\<close>

text \<open>Errors are what \<open>ParseIntError\<close> displays.\<close>

fun usize_digits :: "nat \<Rightarrow> string \<Rightarrow> string + usize" where
  "usize_digits v [] = Inr v"
| "usize_digits v (c # s) =
     (case to_digit 10 c of
        None \<Rightarrow> Inl ''invalid digit found in string''
      | Some d \<Rightarrow>
          if v * 10 + d < 2 ^ 64 then usize_digits (v * 10 + d) s
          else Inl ''number too large to fit in target type'')"

definition parse_usize :: "string \<Rightarrow> string + usize" where
  "parse_usize s =
     (if s = '''' then Inl ''cannot parse integer from empty string''
      else if s = ''+'' \<or> s = ''-'' then Inl ''invalid digit found in string''
      else usize_digits 0 (if hd s = CHR ''+'' then tl s else s))"

section \<open>Digits\<close>

text \<open>The digits of a number in a base, and their text.\<close>

fun digits :: "nat \<Rightarrow> nat \<Rightarrow> nat list" where
  "digits b n = (if n < b \<or> b < 2 then [n] else digits b (n div b) @ [n mod b])"

declare digits.simps [simp del]

definition digit_char :: "nat \<Rightarrow> char" where
  "digit_char d = char_of (if d < 10 then 48 + d else 87 + d)"

definition show_digits :: "nat \<Rightarrow> nat \<Rightarrow> string" where
  "show_digits b n = map digit_char (digits b n)"

lemma show_nat_digits: "show_nat n = show_digits 10 n"
proof (induction n rule: show_nat.induct)
  case (1 n)
  show ?case
  proof (cases "n < 10")
    case True
    then show ?thesis by (simp add: show_nat.simps show_digits_def digits.simps digit_char_def)
  next
    case False
    then have "show_nat n = show_nat (n div 10) @ [digit_char (n mod 10)]"
      by (subst show_nat.simps) (simp add: digit_char_def)
    also have "\<dots> = show_digits 10 n"
      using False 1 digits.simps [of 10 n] by (simp add: show_digits_def)
    finally show ?thesis .
  qed
qed

lemma digits_value_snoc [simp]: "digits_value b (ds @ [d]) = digits_value b ds * b + d"
  by (simp add: digits_value_def)

lemma digits_value_single [simp]: "digits_value b [d] = d"
  by (simp add: digits_value_def)

lemma digits_neq_Nil [simp]: "digits b n \<noteq> []"
  by (subst digits.simps) simp

lemma digits_value_digits: "digits_value b (digits b n) = n"
  by (induction b n rule: digits.induct) (subst digits.simps, simp)

lemma digits_less: "2 \<le> b \<Longrightarrow> list_all (\<lambda>d. d < b) (digits b n)"
  by (induction b n rule: digits.induct) (subst digits.simps, simp)

lemma hd_digits_eq_0: "hd (digits b n) = 0 \<Longrightarrow> n < b \<or> b < 2"
proof (induction b n rule: digits.induct)
  case (1 b n)
  show ?case
  proof (rule ccontr)
    assume big: "\<not> (n < b \<or> b < 2)"
    then have "hd (digits b (n div b)) = 0"
      using "1.prems" by (subst (asm) digits.simps) (simp add: hd_append)
    moreover from 1(1) [OF big this] big have "digits b (n div b) = [n div b]"
      by (subst digits.simps) simp
    ultimately have "n div b = 0" by simp
    with big show False by (simp add: div_eq_0_iff)
  qed
qed

lemma digits_zero_prefix: "hd (digits b n) = 0 \<Longrightarrow> length (digits b n) = 1"
  using hd_digits_eq_0 [of b n] by (subst digits.simps) simp

lemma length_digits: "n < b ^ k \<Longrightarrow> 0 < k \<Longrightarrow> 2 \<le> b \<Longrightarrow> length (digits b n) \<le> k"
proof (induction k arbitrary: n)
  case (Suc k)
  show ?case
  proof (cases "n < b")
    case True
    then show ?thesis by (subst digits.simps) simp
  next
    case False
    with Suc.prems have "0 < k" by (cases k) auto
    moreover have "n div b < b ^ k"
      using Suc.prems by (simp add: less_mult_imp_div_less mult.commute)
    ultimately show ?thesis using Suc.IH [of "n div b"] Suc.prems(3) False by (subst digits.simps) simp
  qed
qed simp

section \<open>Reading what was printed\<close>

lemma to_digit_char: "d < radix \<Longrightarrow> radix \<le> 16 \<Longrightarrow> to_digit radix (digit_char d) = Some d"
  by (auto simp: to_digit_def digit_char_def Let_def)

text \<open>The text goes on with something that is not a digit.\<close>

definition no_digit :: "nat \<Rightarrow> string \<Rightarrow> bool" where
  "no_digit radix s \<longleftrightarrow> s = [] \<or> to_digit radix (hd s) = None"

lemma read_digits_text:
  "list_all (\<lambda>d. d < radix) ds \<Longrightarrow> radix \<le> 16 \<Longrightarrow> no_digit radix s \<Longrightarrow>
     read_digits radix (map digit_char ds @ s) = (ds, s)"
proof (induction ds)
  case Nil
  then show ?case by (cases s) (auto simp: no_digit_def)
qed (simp add: to_digit_char)

lemma read_number_text:
  assumes "2 \<le> radix" and "radix \<le> 16" and "no_digit radix s" and "n < limit"
    and "\<And>m. max_digits = Some m \<Longrightarrow> n < radix ^ m \<and> 0 < m"
  shows "read_number radix max_digits allow limit (show_digits radix n @ s) = Some (n, s)"
proof -
  have "read_digits radix (show_digits radix n @ s) = (digits radix n, s)"
    unfolding show_digits_def using assms by (intro read_digits_text digits_less) simp_all
  moreover have "length (digits radix n) \<le> m" if "max_digits = Some m" for m
    using assms(1,5) that by (intro length_digits) auto
  ultimately show ?thesis
    using assms(4) digits_zero_prefix [of radix n]
    by (auto simp: read_number_def digits_value_digits)
qed

lemma usize_digits_text:
  "list_all (\<lambda>d. d < 10) ds \<Longrightarrow> foldl (\<lambda>v d. v * 10 + d) v ds < 2 ^ 64 \<Longrightarrow>
     usize_digits v (map digit_char ds) = Inr (foldl (\<lambda>v d. v * 10 + d) v ds)"
proof (induction ds arbitrary: v)
  case (Cons d ds)
  have mono: "u \<le> foldl (\<lambda>v d. v * 10 + d) u es" for u :: nat and es
  proof (induction es arbitrary: u)
    case (Cons e es)
    from Cons [of "u * 10 + e"] show ?case by simp
  qed simp
  have "v * 10 + d < 2 ^ 64"
    using mono [of "v * 10 + d" ds] Cons.prems(2) by (simp only: foldl.simps)
  with Cons show ?case by (simp add: to_digit_char)
qed simp

lemma parse_usize_show_nat:
  assumes "n < 2 ^ 64"
  shows "parse_usize (show_nat n) = Inr n"
proof -
  obtain d ds where ds: "digits 10 n = d # ds" by (cases "digits 10 n") auto
  have "d < 10" using digits_less [of 10 n] ds by simp
  then have "digit_char d \<noteq> CHR ''+''" "digit_char d \<noteq> CHR ''-''"
    using to_digit_char [of d 10] by (auto simp: to_digit_def)
  moreover have "usize_digits 0 (show_nat n) = Inr n"
    using usize_digits_text [where ds = "digits 10 n" and v = 0] digits_less [of 10 n] assms digits_value_digits [of 10 n]
    by (simp add: show_nat_digits show_digits_def digits_value_def)
  ultimately show ?thesis
    by (simp add: parse_usize_def show_nat_digits show_digits_def ds)
qed

section \<open>Texts of addresses\<close>

text \<open>The text of an address; groups of an IPv6 address are written out, zeros included.\<close>

definition ipv4_text :: "Ipv4Addr \<Rightarrow> string" where
  "ipv4_text a =
     show_nat (unat (be_byte 3 a)) @ ''.'' @ show_nat (unat (be_byte 2 a)) @ ''.'' @
     show_nat (unat (be_byte 1 a)) @ ''.'' @ show_nat (unat (be_byte 0 a))"

definition groups :: "Ipv6Addr \<Rightarrow> u16 list" where
  "groups a = map (\<lambda>i. ucast (drop_bit (16 * i) a)) (rev [0..<8])"

fun groups_text :: "bool \<Rightarrow> u16 list \<Rightarrow> string" where
  "groups_text first [] = ''''"
| "groups_text first (g # gs) =
     (if first then '''' else '':'') @ show_digits 16 (unat g) @ groups_text False gs"

definition scope_text :: "u32 \<Rightarrow> string" where
  "scope_text scope = (if scope = 0 then '''' else ''%'' @ show_nat (unat scope))"

fun addr_text :: "SocketAddr \<Rightarrow> string" where
  "addr_text (SocketAddrV4 a p) = ipv4_text a @ '':'' @ show_nat (unat p)"
| "addr_text (SocketAddrV6 a p _ scope) =
     ''['' @ groups_text True (groups a) @ scope_text scope @ '']:'' @ show_nat (unat p)"

lemma no_digit_Cons [simp]:
  "no_digit radix []" "no_digit radix (c # s) \<longleftrightarrow> to_digit radix c = None"
  by (simp_all add: no_digit_def)

lemma to_digit_punctuation [simp]:
  assumes "radix \<le> 16"
  shows "to_digit radix CHR ''.'' = None" "to_digit radix CHR '':'' = None" "to_digit radix CHR '']'' = None"
    "to_digit radix CHR ''%'' = None"
  using assms by (simp_all add: to_digit_def)

lemma read_given_char_simps [simp]:
  "read_given_char c (c # s) = Some ((), s)" "x \<noteq> c \<Longrightarrow> read_given_char c (x # s) = None"
  "read_given_char c [] = None"
  by (simp_all add: read_given_char_def)

lemma p_then_simps [simp]:
  "p s = Some (x, r) \<Longrightarrow> p_then p f s = f x r" "p s = None \<Longrightarrow> p_then p f s = None"
  by (simp_all add: p_then_def)

lemma read_octet_text: "no_digit 10 s \<Longrightarrow> read_octet (show_nat (unat b) @ s) = Some (b, s)"
proof -
  assume s: "no_digit 10 s"
  have "unat b < 256" by (rule unat_u8_lt)
  then have "unat b < 10 ^ 3" by (rule less_le_trans) simp
  with s \<open>unat b < 256\<close> have "read_number 10 (Some 3) False 256 (show_nat (unat b) @ s) = Some (unat b, s)"
    unfolding show_nat_digits by (intro read_number_text) simp_all
  then show ?thesis by (simp add: read_octet_def p_return_def)
qed

lemma ipv4_bytes: "ipv4 (be_byte 3 a) (be_byte 2 a) (be_byte 1 a) (be_byte 0 a) = a"
proof (rule bit_word_eqI)
  fix m assume "m < LENGTH(32)"
  then show "bit (ipv4 (be_byte 3 a) (be_byte 2 a) (be_byte 1 a) (be_byte 0 a)) m = bit a m"
    by (cases "m < 8"; cases "m < 16"; cases "m < 24") (auto simp: ipv4_def bit_simps bit_be_byte)
qed

lemma read_ipv4_text: "no_digit 10 s \<Longrightarrow> read_ipv4_addr (ipv4_text a @ s) = Some (a, s)"
  by (simp add: read_ipv4_addr_def ipv4_text_def read_separator_def read_octet_text p_return_def ipv4_bytes
      del: One_nat_def)

lemma read_port_text: "read_port (CHR '':'' # show_nat (unat p)) = Some (p, [])"
proof -
  have "unat p < 2 ^ 16" using unsigned_less [of p] by simp
  then have "read_number 10 None True (2 ^ 16) (show_nat (unat p) @ []) = Some (unat p, [])"
    unfolding show_nat_digits by (intro read_number_text) auto
  then show ?thesis by (simp add: read_port_def p_return_def)
qed

lemma of_groups_groups: "of_groups (groups a) = a"
proof -
  have "foldl (\<lambda>w g. push_bit 16 w OR ucast g) w (map (\<lambda>i. ucast (drop_bit (16 * i) a) :: u16) (rev [0..<n])) =
      push_bit (16 * n) w OR take_bit (16 * n) a" for n w
  proof (induction n arbitrary: w)
    case (Suc n)
    show ?case
      by (simp add: Suc.IH, rule bit_word_eqI) (auto simp: bit_simps ac_simps)
  qed simp
  from this [of 0 8] show ?thesis
    by (simp add: of_groups_def groups_def take_bit_length_eq [where 'a = 128, simplified])
qed

text \<open>Text that goes on without a dot after its decimal digits is no IPv4 address.\<close>

lemma read_ipv4_no_dot:
  assumes "CHR ''.'' \<notin> set s" and "c \<noteq> CHR ''.''" and "to_digit 10 c = None"
  shows "read_ipv4_addr (s @ c # r) = None"
proof -
  have "\<exists>x xs. snd (read_digits 10 (s @ c # r)) = x # xs \<and> x \<noteq> CHR ''.''"
    using assms by (induction s) (auto split: option.split prod.split)
  then obtain x xs where "snd (read_digits 10 (s @ c # r)) = x # xs" "x \<noteq> CHR ''.''" by blast
  then have "p_then (read_separator CHR ''.'' False read_octet) f rest = None"
    if "read_octet (s @ c # r) = Some (b, rest)" for b rest and f :: "u8 \<Rightarrow> Ipv4Addr parser"
    using that by (auto simp: read_octet_def read_separator_def p_then_def p_return_def read_number_def
        split: prod.splits option.splits if_splits)
  then show ?thesis
    by (cases "read_octet (s @ c # r)") (auto simp: read_ipv4_addr_def)
qed

lemma show_digits_no_dot: "radix \<in> {10, 16} \<Longrightarrow> CHR ''.'' \<notin> set (show_digits radix n)"
proof -
  assume "radix \<in> {10, 16}"
  then have "2 \<le> radix" "radix \<le> 16" by auto
  have "digit_char d \<noteq> CHR ''.''" if "d \<in> set (digits radix n)" for d
    using to_digit_char [of d radix] digits_less [OF \<open>2 \<le> radix\<close>, of n] that \<open>radix \<le> 16\<close>
    by (auto simp: list_all_iff to_digit_def split: if_splits)
  then show ?thesis unfolding show_digits_def set_map by (metis imageE)
qed

lemma read_groups_text:
  assumes "s = c # r" and "c \<in> {CHR '']'', CHR ''%''}"
  shows "read_groups (length gs) first (groups_text first gs @ s) = (gs, False, s)"
proof (induction gs arbitrary: first)
  case (Cons g gs)
  let ?rest = "groups_text False gs @ s"
  obtain x xs where rest: "?rest = x # xs" and x: "x \<in> {CHR '':'', CHR '']'', CHR ''%''}"
    using assms by (cases gs) auto
  have "unat g < 65536" using unsigned_less [of g] by simp
  then have num: "read_number 16 (Some 4) True 65536 (show_digits 16 (unat g) @ ?rest) = Some (unat g, ?rest)"
    using x unfolding rest by (intro read_number_text) auto
  have dot: "read_ipv4_addr (show_digits 16 (unat g) @ ?rest) = None"
    unfolding rest using x by (intro read_ipv4_no_dot show_digits_no_dot) auto
  show ?case using Cons.IH [of False] num dot
    by (cases first) (auto simp: read_separator_def)
qed simp

lemma read_ipv6_text:
  assumes "s = c # r" and "c \<in> {CHR '']'', CHR ''%''}"
  shows "read_ipv6_addr (groups_text True (groups a) @ s) = Some (a, s)"
proof -
  have len: "length (groups a) = 8" by (simp add: groups_def)
  from read_groups_text [OF assms, of "groups a" True] len of_groups_groups [of a] show ?thesis
    by (simp add: read_ipv6_addr_def)
qed

lemma read_scope_text:
  assumes "s = CHR '']'' # r"
  shows "p_or read_scope_id 0 (scope_text scope @ s) = Some (scope, s)"
proof (cases "scope = 0")
  case True
  with assms show ?thesis by (simp add: p_or_def scope_text_def read_scope_id_def)
next
  case False
  have "unat scope < 2 ^ 32" using unsigned_less [of scope] by simp
  then have "read_number 10 None True (2 ^ 32) (show_nat (unat scope) @ s) = Some (unat scope, s)"
    unfolding show_nat_digits using assms by (intro read_number_text) auto
  with False show ?thesis by (simp add: p_or_def scope_text_def read_scope_id_def p_return_def)
qed

text \<open>Every socket address without a flow label is read back from its text.\<close>

lemma parse_addr_text:
  assumes "\<And>ip p flow scope. a = SocketAddrV6 ip p flow scope \<Longrightarrow> flow = 0"
  shows "parse_socket_addr (addr_text a) = Inr a"
proof (cases a)
  case (SocketAddrV4 ip p)
  have "read_socket_addr_v4 (addr_text a) = Some (a, [])"
    using read_ipv4_text [of "CHR '':'' # show_nat (unat p)" ip] read_port_text [of p]
    by (simp add: SocketAddrV4 read_socket_addr_v4_def p_return_def)
  then show ?thesis by (simp add: parse_socket_addr_def)
next
  case (SocketAddrV6 ip p flow scope)
  let ?port = "CHR '']'' # CHR '':'' # show_nat (unat p)"
  have "read_octet (CHR ''['' # s) = None" for s
    by (simp add: read_octet_def read_number_def to_digit_def p_then_def)
  then have v4: "read_socket_addr_v4 (addr_text a) = None"
    by (simp add: SocketAddrV6 read_socket_addr_v4_def read_ipv4_addr_def)
  have "read_ipv6_addr (groups_text True (groups ip) @ scope_text scope @ ?port) = Some (ip, scope_text scope @ ?port)"
    by (cases "scope = 0") (simp_all add: read_ipv6_text scope_text_def)
  then have "read_socket_addr_v6 (addr_text a) = Some (a, [])"
    using read_scope_text [of ?port "CHR '':'' # show_nat (unat p)" scope] read_port_text [of p] assms [OF SocketAddrV6]
    by (simp add: SocketAddrV6 read_socket_addr_v6_def p_return_def)
  with v4 show ?thesis by (simp add: parse_socket_addr_def)
qed

end
