(* ===== verification/Echo_Handlers.thy ===== *)
theory Echo_Handlers
  imports Udp_Socket "HOL-Library.Sublist"
begin

text \<open>
  The handlers of the echo servers that come with the crate (\<open>examples/tcp_echo.rs\<close>,
  \<open>udp_server.rs\<close> and \<open>udp_serve_socket.rs\<close>). What the peer and the kernel do to a TCP stream is a
  parameter: a record of answers, each a function of the events so far, newest first. A loop has
  a number of turns; the result \<open>None\<close> says that it has not ended within them.
\<close>

section \<open>TCP\<close>

datatype stream_event =
    Readable "unit io_result"
  | Read "u8 list io_result"
  | Writable "unit io_result"
  | Wrote "u8 list" "usize io_result"
  | WroteAll "u8 list" "unit io_result"

record tcp_stream =
  st_readable :: "stream_event list \<Rightarrow> unit io_result"
  st_read :: "stream_event list \<Rightarrow> u8 list io_result"
  st_writable :: "stream_event list \<Rightarrow> unit io_result"
  st_write :: "stream_event list \<Rightarrow> u8 list \<Rightarrow> usize io_result"
  st_write_all :: "stream_event list \<Rightarrow> u8 list \<Rightarrow> unit io_result"

text \<open>A write never reports more than it was given, so that the slice that remains exists.\<close>

fun write_all ::
    "nat \<Rightarrow> tcp_stream \<Rightarrow> u8 list \<Rightarrow> stream_event list \<Rightarrow> unit result option \<times> stream_event list" where
  "write_all 0 stream bytes tr = (None, tr)"
| "write_all (Suc k) stream bytes tr =
     (if bytes = [] then (Some (Inr ()), tr)
      else
      let ready = st_writable stream tr; tr = Writable ready # tr in
      case ready of
        Inl e \<Rightarrow> (Some (Inl (error_from e)), tr)
      | Inr _ \<Rightarrow>
          let r = st_write stream tr bytes; tr = Wrote bytes r # tr in
          (case r of
             Inr len \<Rightarrow>
               if len = 0 then (Some (Inl (Runtime ''tcp stream closed before all bytes were written'')), tr)
               else write_all k stream (drop len bytes) tr
           | Inl error \<Rightarrow>
               if error_kind error = KindWouldBlock then write_all k stream bytes tr
               else (Some (Inl (error_from error)), tr)))"

fun tokio_echo_connection ::
    "nat \<Rightarrow> tcp_stream \<Rightarrow> stream_event list \<Rightarrow> unit result option \<times> stream_event list" where
  "tokio_echo_connection 0 stream tr = (None, tr)"
| "tokio_echo_connection (Suc k) stream tr =
     (let ready = st_readable stream tr; tr = Readable ready # tr in
      case ready of
        Inl e \<Rightarrow> (Some (Inl (error_from e)), tr)
      | Inr _ \<Rightarrow>
          let r = st_read stream tr; tr = Read r # tr in
          (case r of
             Inr bytes \<Rightarrow>
               if bytes = [] then (Some (Inr ()), tr)
               else (case write_all k stream bytes tr of
                       (Some (Inr _), tr) \<Rightarrow> tokio_echo_connection k stream tr
                     | ended \<Rightarrow> ended)
           | Inl error \<Rightarrow>
               if error_kind error = KindWouldBlock then tokio_echo_connection k stream tr
               else (Some (Inl (error_from error)), tr)))"

text \<open>On async-std, reading waits for data, and \<open>write_all\<close> is a function of that library.\<close>

fun async_echo_connection ::
    "nat \<Rightarrow> tcp_stream \<Rightarrow> stream_event list \<Rightarrow> unit result option \<times> stream_event list" where
  "async_echo_connection 0 stream tr = (None, tr)"
| "async_echo_connection (Suc k) stream tr =
     (let r = st_read stream tr; tr = Read r # tr in
      case r of
        Inl e \<Rightarrow> (Some (Inl (error_from e)), tr)
      | Inr bytes \<Rightarrow>
          if bytes = [] then (Some (Inr ()), tr)
          else
            let r = st_write_all stream tr bytes; tr = WroteAll bytes r # tr in
            (case r of
               Inl e \<Rightarrow> (Some (Inl (error_from e)), tr)
             | Inr _ \<Rightarrow> async_echo_connection k stream tr))"

definition echo_connection ::
    "runtime \<Rightarrow> nat \<Rightarrow> tcp_stream \<Rightarrow> unit result option \<times> stream_event list" where
  "echo_connection rt k stream =
     (case rt of
        Tokio \<Rightarrow> tokio_echo_connection k stream []
      | AsyncStd \<Rightarrow> async_echo_connection k stream [])"

section \<open>UDP\<close>

text \<open>The handler of \<open>udp_server.rs\<close>.\<close>

definition send_echo :: "UdpSocketInner \<Rightarrow> u8 list \<Rightarrow> SocketAddr \<Rightarrow> unit result io" where
  "send_echo socket payload peer = io_try (send_to socket payload peer) (\<lambda>_. io_ok ())"

definition echo_handler :: "UdpSocketInner \<Rightarrow> PacketMeta \<Rightarrow> u8 list \<Rightarrow> unit result io" where
  "echo_handler socket meta payload =
     (case peer_addr meta of
        None \<Rightarrow> io_ok ()
      | Some peer \<Rightarrow> send_echo socket payload peer)"

text \<open>
  The loop of \<open>serve_socket_echo\<close> on what arrives at the socket or at the channel of a routed one;
  at the end of the list it waits for more.
\<close>

type_synonym arrival = "(u8 list \<times> SocketAddr) io_result \<times> RoutedPacket option"

fun echo_packets :: "UdpSocketInner \<Rightarrow> arrival list \<Rightarrow> u8 list \<Rightarrow> unit result io" where
  "echo_packets socket [] buffer = io_ok ()"
| "echo_packets socket (arrival # arrivals) buffer =
     (case recv_from socket (fst arrival) (snd arrival) buffer of
        Inl e \<Rightarrow> io_err e
      | Inr (len, peer, buffer) \<Rightarrow>
          io_try (send_to socket (take len buffer) peer) (\<lambda>_. echo_packets socket arrivals buffer))"

definition serve_socket_echo :: "UdpSocketInner \<Rightarrow> arrival list \<Rightarrow> unit result io" where
  "serve_socket_echo socket arrivals =
     io_try (socket_local_addr socket) (\<lambda>_. echo_packets socket arrivals (replicate 2048 0))"

section \<open>What was read and what was sent\<close>

fun bytes_read :: "stream_event list \<Rightarrow> u8 list" where
  "bytes_read [] = []"
| "bytes_read (Read (Inr bytes) # tr) = bytes_read tr @ bytes"
| "bytes_read (_ # tr) = bytes_read tr"

text \<open>A successful \<open>write_all\<close> of async-std has sent all of its bytes.\<close>

fun bytes_sent :: "stream_event list \<Rightarrow> u8 list" where
  "bytes_sent [] = []"
| "bytes_sent (Wrote bytes (Inr len) # tr) = bytes_sent tr @ take len bytes"
| "bytes_sent (WroteAll bytes (Inr _) # tr) = bytes_sent tr @ bytes"
| "bytes_sent (_ # tr) = bytes_sent tr"

text \<open>A read stores at most what the buffer holds.\<close>

definition fills_buffer :: "tcp_stream \<Rightarrow> bool" where
  "fills_buffer stream \<longleftrightarrow> (\<forall>tr bytes. st_read stream tr = Inr bytes \<longrightarrow> length bytes \<le> 4096)"

text \<open>After some number of events the peer has closed and the kernel no longer makes writes wait.\<close>

definition settles :: "nat \<Rightarrow> tcp_stream \<Rightarrow> bool" where
  "settles n stream \<longleftrightarrow>
     (\<forall>tr. n \<le> length tr \<longrightarrow>
        (\<forall>bytes. st_read stream tr = Inr bytes \<longrightarrow> bytes = []) \<and>
        (\<forall>e. st_read stream tr = Inl e \<longrightarrow> error_kind e \<noteq> KindWouldBlock) \<and>
        (\<forall>bytes e. st_write stream tr bytes = Inl e \<longrightarrow> error_kind e \<noteq> KindWouldBlock))"

text \<open>The bytes that are still to be sent, which is none after a normal end.\<close>

definition echoes :: "nat \<Rightarrow> unit result option \<times> stream_event list \<Rightarrow> bool" where
  "echoes n run \<longleftrightarrow>
     (\<exists>rest. bytes_sent (snd run) @ rest = bytes_read (snd run) \<and> length rest \<le> n \<and>
        (fst run = Some (Inr ()) \<longrightarrow> rest = []))"

lemma echoesI:
  "bytes_sent tr @ rest = bytes_read tr \<Longrightarrow> length rest \<le> n \<Longrightarrow> (r = Some (Inr ()) \<Longrightarrow> rest = []) \<Longrightarrow> echoes n (r, tr)"
  by (auto simp: echoes_def)

lemma write_all_echoes:
  "bytes_sent tr @ bytes = bytes_read tr \<Longrightarrow> length bytes \<le> n \<Longrightarrow> echoes n (write_all k stream bytes tr)"
proof (induction k arbitrary: bytes tr)
  case (Suc k)
  let ?tr1 = "Writable (st_writable stream tr) # tr"
  let ?r = "st_write stream ?tr1 bytes"
  have stop: "echoes n (Some (Inl e), ?tr1)" "echoes n (Some (Inl e), Wrote bytes (Inl x) # ?tr1)"
    "echoes n (Some (Inl e), Wrote bytes (Inr 0) # ?tr1)" for e x
    using Suc.prems by (auto intro!: echoesI [where rest = bytes])
  have more: "echoes n (write_all k stream (drop len bytes) (Wrote bytes (Inr len) # ?tr1))" for len
    using Suc.prems by (intro Suc.IH) auto
  have again: "echoes n (write_all k stream bytes (Wrote bytes (Inl x) # ?tr1))" for x
    using Suc.prems by (intro Suc.IH) auto
  show ?case
  proof (cases "bytes = []")
    case True
    with Suc.prems show ?thesis by (auto intro!: echoesI [where rest = "[]"])
  next
    case False
    with stop more again show ?thesis by (auto simp: Let_def split: sum.split)
  qed
qed (auto intro: echoesI)

lemma echoes_ended: "echoes n (Some (Inr ()), tr) \<Longrightarrow> bytes_sent tr = bytes_read tr"
  by (auto simp: echoes_def)

lemma tokio_echoes:
  assumes fill: "fills_buffer stream"
  shows "bytes_sent tr = bytes_read tr \<Longrightarrow> echoes 4096 (tokio_echo_connection k stream tr)"
proof (induction k arbitrary: tr)
  case (Suc k)
  let ?tr1 = "Readable (st_readable stream tr) # tr"
  have same: "echoes 4096 (r, Read (Inl e) # ?tr1)" "echoes 4096 (r, ?tr1)" "echoes 4096 (r, Read (Inr []) # ?tr1)" for r e
    using Suc.prems by (auto intro!: echoesI [where rest = "[]"])
  have again: "echoes 4096 (tokio_echo_connection k stream (Read (Inl e) # ?tr1))" for e
    using Suc.prems by (intro Suc.IH) auto
  have pass: "echoes 4096 (case write_all k stream bytes (Read (Inr bytes) # ?tr1) of
      (Some (Inr _), tr) \<Rightarrow> tokio_echo_connection k stream tr | ended \<Rightarrow> ended)"
    if "st_read stream ?tr1 = Inr bytes" for bytes
  proof -
    obtain r tr' where w: "write_all k stream bytes (Read (Inr bytes) # ?tr1) = (r, tr')" by fastforce
    have "length bytes \<le> 4096" using fill that by (auto simp: fills_buffer_def)
    then have e: "echoes 4096 (r, tr')"
      using write_all_echoes [of "Read (Inr bytes) # ?tr1" bytes 4096 k stream] Suc.prems w by simp
    show ?thesis
    proof (cases "r = Some (Inr ())")
      case True
      with e have "bytes_sent tr' = bytes_read tr'" by (auto dest: echoes_ended)
      with True Suc.IH w show ?thesis by simp
    next
      case False
      with e w show ?thesis by (auto split: option.split sum.split)
    qed
  qed
  show ?case using same again pass by (auto simp: Let_def split: sum.split)
qed (auto intro: echoesI)

lemma async_echoes:
  assumes fill: "fills_buffer stream"
  shows "bytes_sent tr = bytes_read tr \<Longrightarrow> echoes 4096 (async_echo_connection k stream tr)"
proof (induction k arbitrary: tr)
  case (Suc k)
  have same: "echoes 4096 (r, Read (Inl e) # tr)" "echoes 4096 (r, Read (Inr []) # tr)" for r e
    using Suc.prems by (auto intro!: echoesI [where rest = "[]"])
  have again: "echoes 4096 (async_echo_connection k stream (WroteAll bytes (Inr u) # Read (Inr bytes) # tr))" for bytes u
    using Suc.prems by (intro Suc.IH) auto
  have failed: "echoes 4096 (Some (Inl x), WroteAll bytes (Inl e) # Read (Inr bytes) # tr)"
    if "st_read stream tr = Inr bytes" for bytes x e
    using fill that Suc.prems by (intro echoesI [where rest = bytes]) (auto simp: fills_buffer_def)
  show ?case using same again failed by (auto simp: Let_def split: sum.split)
qed (auto intro: echoesI)

section \<open>The loops end\<close>

lemma write_all_longer: "length tr \<le> length (snd (write_all k stream bytes tr))"
proof (induction k arbitrary: bytes tr)
  case (Suc k)
  have "length tr \<le> length (snd (write_all k stream b (x # y # tr)))" for b x y
    using Suc.IH [where tr = "x # y # tr" and bytes = b] by simp
  then show ?case by (auto simp: Let_def split: sum.split)
qed simp

lemma write_all_ends:
  assumes s: "settles n stream"
  shows "n - length tr + length bytes < k \<Longrightarrow> fst (write_all k stream bytes tr) \<noteq> None"
proof (induction k arbitrary: bytes tr)
  case (Suc k)
  let ?tr1 = "Writable (st_writable stream tr) # tr"
  have progress: "fst (write_all k stream (drop len bytes) (Wrote bytes (Inr len) # ?tr1)) \<noteq> None"
    if "0 < len" "bytes \<noteq> []" for len
    using Suc.prems that by (intro Suc.IH) (cases bytes; cases len; simp)
  have again: "fst (write_all k stream bytes (Wrote bytes (Inl e) # ?tr1)) \<noteq> None"
    if "st_write stream ?tr1 bytes = Inl e" "error_kind e = KindWouldBlock" for e
  proof -
    have "length ?tr1 < n" using s that unfolding settles_def by (meson not_le)
    then show ?thesis using Suc.prems by (intro Suc.IH) auto
  qed
  show ?case using progress again by (auto simp: Let_def split: sum.split)
qed simp

lemma tokio_ends:
  assumes s: "settles n stream" and fill: "fills_buffer stream"
  shows "n - length tr + 4097 < k \<Longrightarrow> fst (tokio_echo_connection k stream tr) \<noteq> None"
proof (induction k arbitrary: tr)
  case (Suc k)
  let ?tr1 = "Readable (st_readable stream tr) # tr"
  have again: "fst (tokio_echo_connection k stream (Read (Inl e) # ?tr1)) \<noteq> None"
    if "st_read stream ?tr1 = Inl e" "error_kind e = KindWouldBlock" for e
  proof -
    have "length ?tr1 < n" using s that unfolding settles_def by (meson not_le)
    then show ?thesis using Suc.prems by (intro Suc.IH) auto
  qed
  have pass: "fst (case write_all k stream bytes (Read (Inr bytes) # ?tr1) of
      (Some (Inr _), tr) \<Rightarrow> tokio_echo_connection k stream tr | ended \<Rightarrow> ended) \<noteq> None"
    if "st_read stream ?tr1 = Inr bytes" "bytes \<noteq> []" for bytes
  proof -
    obtain r tr' where w: "write_all k stream bytes (Read (Inr bytes) # ?tr1) = (r, tr')" by fastforce
    have "length ?tr1 < n" using s that unfolding settles_def by (meson not_le)
    moreover have "length bytes \<le> 4096" using fill that by (auto simp: fills_buffer_def)
    ultimately have "r \<noteq> None"
      using write_all_ends [OF s, of "Read (Inr bytes) # ?tr1" bytes k] Suc.prems w by auto
    moreover have "length tr < length tr'"
      using write_all_longer [of "Read (Inr bytes) # ?tr1" k stream bytes] w by simp
    then have "fst (tokio_echo_connection k stream tr') \<noteq> None"
      using Suc.prems \<open>length ?tr1 < n\<close> by (intro Suc.IH) auto
    ultimately show ?thesis using w by (auto split: option.split sum.split)
  qed
  show ?case using again pass by (auto simp: Let_def split: sum.split)
qed simp

lemma async_ends:
  assumes s: "settles n stream"
  shows "n - length tr < k \<Longrightarrow> fst (async_echo_connection k stream tr) \<noteq> None"
proof (induction k arbitrary: tr)
  case (Suc k)
  have "fst (async_echo_connection k stream (WroteAll bytes (Inr u) # Read (Inr bytes) # tr)) \<noteq> None"
    if "st_read stream tr = Inr bytes" "bytes \<noteq> []" for bytes u
  proof -
    have "length tr < n" using s that unfolding settles_def by (meson not_le)
    then show ?thesis using Suc.prems by (intro Suc.IH) auto
  qed
  then show ?case by (auto simp: Let_def split: sum.split)
qed simp

section \<open>The contract of an echo loop\<close>

text \<open>What both builds promise: \<open>turns n\<close> turns are enough for a stream that settles after \<open>n\<close> events.\<close>

locale echo_loop =
  fixes echo :: "nat \<Rightarrow> tcp_stream \<Rightarrow> stream_event list \<Rightarrow> unit result option \<times> stream_event list"
    and turns :: "nat \<Rightarrow> nat"
  assumes loop_echoes: "fills_buffer stream \<Longrightarrow> bytes_sent tr = bytes_read tr \<Longrightarrow> echoes 4096 (echo k stream tr)"
    and loop_ends: "settles n stream \<Longrightarrow> fills_buffer stream \<Longrightarrow> turns n \<le> k \<Longrightarrow> fst (echo k stream []) \<noteq> None"
begin

lemma echo_sends_back:
  assumes "fills_buffer stream" and "echo k stream [] = (r, tr)"
  shows "prefix (bytes_sent tr) (bytes_read tr) \<and> length (bytes_read tr) \<le> length (bytes_sent tr) + 4096 \<and>
         (r = Some (Inr ()) \<longrightarrow> bytes_sent tr = bytes_read tr)"
proof -
  have "echoes 4096 (r, tr)" using loop_echoes [of stream "[]" k] assms by simp
  then obtain rest where rest: "bytes_sent tr @ rest = bytes_read tr" "length rest \<le> 4096"
    "r = Some (Inr ()) \<longrightarrow> rest = []" by (auto simp: echoes_def)
  then have "prefix (bytes_sent tr) (bytes_read tr)" by (metis prefixI)
  moreover have "length (bytes_read tr) \<le> length (bytes_sent tr) + 4096" using rest by (simp flip: rest(1))
  ultimately show ?thesis using rest by auto
qed

lemma echo_ends: "settles n stream \<Longrightarrow> fills_buffer stream \<Longrightarrow> \<exists>r tr. echo (turns n) stream [] = (Some r, tr)"
  using loop_ends [of n stream "turns n"] by (cases "echo (turns n) stream []") auto

end

interpretation tokio_echo: echo_loop tokio_echo_connection "\<lambda>n. n + 4098"
  by unfold_locales (simp_all add: tokio_echoes tokio_ends del: not_None_eq)

interpretation async_echo: echo_loop async_echo_connection "\<lambda>n. n + 1"
  by unfold_locales (simp_all add: async_echoes async_ends del: not_None_eq)

text \<open>A peer that sends two bytes and closes, on a system that takes one byte at a time.\<close>

definition chatty :: tcp_stream where
  "chatty =
     \<lparr>st_readable = (\<lambda>_. Inr ()), st_read = (\<lambda>tr. Inr (if length tr < 2 then [0x68, 0x69] else [])),
      st_writable = (\<lambda>_. Inr ()), st_write = (\<lambda>_ bytes. Inr 1), st_write_all = (\<lambda>_ _. Inr ())\<rparr>"

lemma chatty_ok: "fills_buffer chatty" "settles 2 chatty"
  by (auto simp: fills_buffer_def settles_def chatty_def split: if_splits)

section \<open>Echoing datagrams\<close>

text \<open>The datagram that an arrival is for a kind of socket, and the descriptor it is answered from.\<close>

fun arrived_packet :: "UdpSocketInner \<Rightarrow> arrival \<Rightarrow> (u8 list \<times> SocketAddr) option" where
  "arrived_packet (RuntimeSocket fd) arrival = to_ok (fst arrival)"
| "arrived_packet (Routed routed) arrival = map_option (\<lambda>p. (rp_payload p, rp_peer p)) (snd arrival)"

fun sending_fd :: "UdpSocketInner \<Rightarrow> fd" where
  "sending_fd (RuntimeSocket fd) = fd"
| "sending_fd (Routed routed) = ru_sender routed"

fun address_calls :: "UdpSocketInner \<Rightarrow> os_call list" where
  "address_calls (RuntimeSocket fd) = [LocalAddr fd]"
| "address_calls (Routed routed) = []"

lemma recv_from_arrived:
  assumes "recv_from socket (fst arrival) (snd arrival) buffer = Inr (len, peer, buffer')"
  shows "\<exists>data. arrived_packet socket arrival = Some (data, peer) \<and> (len, buffer') = store buffer data"
proof (cases socket)
  case (RuntimeSocket fd)
  with assms have "udp_recv_from (fst arrival) buffer = Inr (len, peer, buffer')"
    by (simp add: recv_from_def udp_recv_from_slice_def result_simps)
  with RuntimeSocket show ?thesis by (auto simp: udp_recv_from_Inr to_ok_def simp del: length_store(2))
next
  case (Routed routed)
  with assms obtain p where "snd arrival = Some p" "peer = rp_peer p" "(len, buffer') = store buffer (rp_payload p)"
    by (cases "snd arrival") (auto simp: recv_from_def routed_recv_from_slice_def recv_packet_def store_def result_simps Let_def)
  with Routed show ?thesis by simp
qed

lemma run_send_to:
  "run_state (send_to socket bytes peer) w =
     (map_err error_from (os_size (w_os w) (SendTo (sending_fd socket) bytes peer # w_calls w)),
      logged [SendTo (sending_fd socket) bytes peer] w)"
  by (cases socket) (simp_all add: send_to_def udp_send_to_def io_steps)

lemma echo_packets_run:
  "run_state (echo_packets socket arrivals buffer) w = (r, w') \<Longrightarrow>
     \<exists>ps. map Some ps = map (arrived_packet socket) (take (length ps) arrivals) \<and> length ps \<le> length arrivals \<and>
       w' = logged (map (\<lambda>(data, peer). SendTo (sending_fd socket) (take (length buffer) data) peer) ps) w \<and>
       (r = Inr () \<longrightarrow> length ps = length arrivals)"
proof (induction arrivals arbitrary: buffer w)
  case Nil
  then show ?case by (auto simp: io_steps intro!: exI [of _ "[]"])
next
  case (Cons a arrivals)
  show ?case
  proof (cases "recv_from socket (fst a) (snd a) buffer")
    case (Inl e)
    with Cons.prems show ?thesis by (auto simp: io_steps intro!: exI [of _ "[]"])
  next
    case (Inr x)
    obtain len peer b where x: "x = (len, peer, b)" by (cases x)
    from recv_from_arrived [OF Inr [unfolded x]] obtain data where
      p: "arrived_packet socket a = Some (data, peer)" and s: "(len, b) = store buffer data" by blast
    from s have d: "take len b = take (length buffer) data" "length b = length buffer"
      using take_store [of buffer data] length_store(1) [of buffer data] by (simp_all flip: s)
    let ?c = "SendTo (sending_fd socket) (take (length buffer) data) peer"
    show ?thesis
    proof (cases "os_size (w_os w) (?c # w_calls w)")
      case (Inl e)
      with Cons.prems Inr x p d show ?thesis
        by (auto simp: run_io_try run_send_to intro!: exI [of _ "[(data, peer)]"])
    next
      case ok: (Inr n)
      with Cons.prems Inr x d have "run_state (echo_packets socket arrivals b) (logged [?c] w) = (r, w')"
        by (simp add: run_io_try run_send_to)
      from Cons.IH [OF this] obtain ps where "map Some ps = map (arrived_packet socket) (take (length ps) arrivals)"
        "length ps \<le> length arrivals"
        "w' = logged (map (\<lambda>(data, peer). SendTo (sending_fd socket) (take (length b) data) peer) ps) (logged [?c] w)"
        "r = Inr () \<longrightarrow> length ps = length arrivals" by blast
      with p d show ?thesis by (intro exI [of _ "(data, peer) # ps"]) simp
    qed
  qed
qed

section \<open>Properties\<close>

text \<open>C38. The TCP echo server sends back what it reads: at any moment what it has sent is a prefix of what it
  has read, it holds back at most the 4096 bytes of its buffer, and when the handler ends normally
  everything has been sent. This holds for both builds, whatever the peer and the kernel do:
  partial writes, writes and reads that must be repeated, errors.\<close>

theorem echo_sends_back_what_it_reads:
  assumes "fills_buffer stream" and "echo_connection rt k stream = (r, tr)"
  shows "prefix (bytes_sent tr) (bytes_read tr) \<and> length (bytes_read tr) \<le> length (bytes_sent tr) + 4096 \<and>
         (r = Some (Inr ()) \<longrightarrow> bytes_sent tr = bytes_read tr)"
  using assms tokio_echo.echo_sends_back async_echo.echo_sends_back
  by (cases rt) (simp_all add: echo_connection_def)

theorem echo_sends_back_what_it_reads_witness:
  "\<exists>tr. echo_connection Tokio 9 chatty = (Some (Inr ()), tr) \<and> bytes_sent tr = bytes_read tr \<and> bytes_read tr = [0x68, 0x69]"
proof -
  obtain tr where tr: "echo_connection Tokio 9 chatty = (Some (Inr ()), tr)" and "bytes_read tr = [0x68, 0x69]"
    by (simp add: echo_connection_def chatty_def eval_nat_numeral Let_def)
  with echo_sends_back_what_it_reads [OF chatty_ok(1) tr] show ?thesis by simp
qed

text \<open>The echo loops end: if from some event on the peer has closed the connection and the kernel no longer
  makes the server wait, then the handler returns, and a bound on the number of turns is known in
  advance: one turn per event, and on tokio as many more as the buffer has bytes.\<close>

lemma echo_connection_ends:
  assumes "settles n stream" and "fills_buffer stream"
  shows "\<exists>r tr. echo_connection rt (if rt = Tokio then n + 4098 else n + 1) stream = (Some r, tr)"
  using tokio_echo.echo_ends [OF assms] async_echo.echo_ends [OF assms]
  by (cases rt) (simp_all add: echo_connection_def)

text \<open>The UDP echo loop answers every datagram, in order and to its sender, from the socket or, for a routed
  socket, from the descriptor it shares: its calls are those that look its address up, then one
  send per datagram of the first 2048 bytes of it, and never a byte that an earlier datagram left
  in the buffer. It stops at the first error only.\<close>

lemma serve_socket_echo_answers:
  assumes "run_state (serve_socket_echo socket arrivals) w = (r, w')"
  shows "\<exists>ps. map Some ps = map (arrived_packet socket) (take (length ps) arrivals) \<and>
           w' = logged (address_calls socket @
             map (\<lambda>(data, peer). SendTo (sending_fd socket) (take 2048 data) peer) ps) w \<and>
           (r = Inr () \<longrightarrow> length ps = length arrivals)"
proof -
  obtain a w1 where a: "run_state (socket_local_addr socket) w = (a, w1)" by fastforce
  then have w1: "w1 = logged (address_calls socket) w"
    by (cases socket) (auto simp: socket_local_addr_def io_steps)
  show ?thesis
  proof (cases a)
    case (Inl e)
    with assms a w1 show ?thesis by (auto simp: serve_socket_echo_def run_io_try intro!: exI [of _ "[]"])
  next
    case (Inr x)
    with assms a have "run_state (echo_packets socket arrivals (replicate 2048 0)) w1 = (r, w')"
      by (simp add: serve_socket_echo_def run_io_try)
    from echo_packets_run [OF this] w1 show ?thesis by fastforce
  qed
qed

end
