(* ===== verification/Tcp_Server.thy ===== *)
theory Tcp_Server
  imports Deploy Serve_Loop Schedule
begin

text \<open>
  The TCP server (\<open>src/core/tcp.rs\<close>). With kernel balancing every worker accepts on a socket of its
  own; without, one worker accepts on the only socket and sends each connection to the worker
  its addresses hash to, where a dispatch loop starts the handler. A connection is a number, a
  channel the index of the worker that receives from it, and the user's handler is what
  \<open>spawn_handler\<close> starts.
\<close>

section \<open>Choosing a worker\<close>

definition select_simulated_tcp_worker :: "PacketMeta \<Rightarrow> usize \<Rightarrow> usize result" where
  "select_simulated_tcp_worker meta workers =
     (if workers \<le> 1 then linux_reuseport_select meta workers
      else map_ok (\<lambda>worker_id. worker_id + 1) (linux_reuseport_select meta (workers - 1)))"

lemma select_simulated_in_range:
  assumes "select_simulated_tcp_worker meta n = Inr i"
  shows "i < n \<and> (1 < n \<longrightarrow> i \<noteq> 0)"
proof (cases "n \<le> 1")
  case False
  then obtain h where "i = h mod (n - 1) + 1"
    using assms by (auto simp: select_simulated_tcp_worker_def linux_reuseport_select_eq)
  moreover have "h mod (n - 1) < n - 1" using False by (intro mod_less_divisor) simp
  ultimately show ?thesis using False by linarith
qed (use assms in \<open>auto simp: select_simulated_tcp_worker_def linux_reuseport_select_eq split: if_splits\<close>)

section \<open>Loops\<close>

definition tcp_listener_turn :: "WorkerConcurrencyLimit \<Rightarrow> unit \<Rightarrow> (nat, unit flow) act" where
  "tcp_listener_turn limit _ = do {
     a \<leftarrow> is_active;
     if \<not> a then State_Monad.return Break else do {
     p \<leftarrow> acquire limit;
     case p of
       None \<Rightarrow> State_Monad.return Break
     | Some permit \<Rightarrow> do {
     a \<leftarrow> is_active;
     if \<not> a then do {release permit; State_Monad.return Break} else do {
     c \<leftarrow> await env_accept Accepted;
     case c of
       Some (Inr (stream, _)) \<Rightarrow> do {
         a \<leftarrow> is_active;
         if \<not> a then do {release permit; State_Monad.return Break} else do {
         r \<leftarrow> spawn_handler stream permit;
         State_Monad.return (if r then Continue () else Break)}}
     | _ \<Rightarrow> do {release permit; State_Monad.return Break}}}}}"

definition simulated_tcp_accept_turn ::
    "usize \<Rightarrow> SocketAddr \<Rightarrow> usize list \<Rightarrow> WorkerConcurrencyLimit list \<Rightarrow> unit \<Rightarrow> (nat, unit flow) act" where
  "simulated_tcp_accept_turn workers addr senders limits _ = do {
     a \<leftarrow> is_active;
     if \<not> a then State_Monad.return Break else do {
     c \<leftarrow> await env_accept Accepted;
     case c of
       Some (Inr (stream, peer)) \<Rightarrow> do {
         a \<leftarrow> is_active;
         if \<not> a then State_Monad.return Break else
         case select_simulated_tcp_worker \<lparr>peer_addr = Some peer, local_addr = Some addr\<rparr> workers of
           Inl _ \<Rightarrow> State_Monad.return Break
         | Inr worker_id \<Rightarrow>
         (case slice_get limits worker_id of
           None \<Rightarrow> State_Monad.return Break
         | Some limit \<Rightarrow> do {
         p \<leftarrow> try_acquire worker_id limit;
         case p of
           None \<Rightarrow> State_Monad.return (Continue ())
         | Some permit \<Rightarrow>
         (case slice_get senders worker_id of
           None \<Rightarrow> do {release permit; State_Monad.return Break}
         | Some sender \<Rightarrow> do {
         r \<leftarrow> send_work sender stream permit;
         State_Monad.return (if r then Continue () else Break)})})}
     | _ \<Rightarrow> State_Monad.return Break}}"

definition tcp_dispatch_turn :: "unit \<Rightarrow> (nat, unit flow) act" where
  "tcp_dispatch_turn _ = do {
     a \<leftarrow> observe env_server_active LoadServer;
     if \<not> a then State_Monad.return Break else do {
     w \<leftarrow> recv_work;
     case w of
       Some (stream, permit) \<Rightarrow> do {
         a \<leftarrow> observe env_server_active LoadServer;
         if \<not> a then do {release permit; State_Monad.return Break} else do {
         r \<leftarrow> spawn_handler stream permit;
         State_Monad.return (if r then Continue () else Break)}}
     | _ \<Rightarrow> State_Monad.return Break}}"

section \<open>Tasks\<close>

text \<open>What is submitted to a worker: the captured values of the closures in the source.\<close>

datatype tcp_task =
    TcpListenTask fd WorkerConcurrencyLimit
  | TcpDispatchTask usize
  | TcpAcceptTask fd usize SocketAddr "usize list" "WorkerConcurrencyLimit list"

fun tcp_task_turn :: "tcp_task \<Rightarrow> unit \<Rightarrow> (nat, unit flow) act" where
  "tcp_task_turn (TcpListenTask listener limit) = tcp_listener_turn limit"
| "tcp_task_turn (TcpDispatchTask receiver) = tcp_dispatch_turn"
| "tcp_task_turn (TcpAcceptTask listener workers addr senders limits) =
     simulated_tcp_accept_turn workers addr senders limits"

section \<open>Loops keep the contract\<close>

text \<open>What each loop has to hand over.\<close>

fun tcp_offer :: "nat event list \<Rightarrow> (nat option \<times> nat) option" where
  "tcp_offer (Accepted (Inr (stream, _)) # _) = Some (None, stream)"
| "tcp_offer _ = None"

fun tcp_route :: "usize \<Rightarrow> SocketAddr \<Rightarrow> nat event list \<Rightarrow> (nat option \<times> nat) option" where
  "tcp_route n addr (Accepted (Inr (stream, peer)) # _) =
     map_option (\<lambda>i. (Some i, stream))
       (to_ok (select_simulated_tcp_worker \<lparr>peer_addr = Some peer, local_addr = Some addr\<rparr> n))"
| "tcp_route n addr _ = None"

interpretation tcp_native: serving_loop "tcp_listener_turn limit" tcp_offer "\<lambda>_ _. True"
proof
  fix b tr
  assume "listening tcp_offer tr"
  then show "ensures (tcp_listener_turn limit b) tr (\<lambda>r tr'. case r of
      Continue b' \<Rightarrow> True \<and> listening tcp_offer tr' | Break \<Rightarrow> ended tcp_offer tr')"
    unfolding tcp_listener_turn_def
    by (auto intro!: ensures_rules split: turn_splits) (simp_all add: contract_simps)
next
  fix s b r s'
  assume "\<forall>tr. \<not> env_server_active (sc_env s) tr" and "run_state (tcp_listener_turn limit b) s = (r, s')"
  then show "r = Break \<and> delivered (sc_trace s') = delivered (sc_trace s)"
    unfolding tcp_listener_turn_def by (rule inactive_turn)
qed

interpretation tcp_accept: serving_loop
  "simulated_tcp_accept_turn n addr [0..<n] limits" "tcp_route n addr" "\<lambda>_ _. True"
proof
  fix b tr
  assume "listening (tcp_route n addr) tr"
  then show "ensures (simulated_tcp_accept_turn n addr [0..<n] limits b) tr (\<lambda>r tr'. case r of
      Continue b' \<Rightarrow> True \<and> listening (tcp_route n addr) tr' | Break \<Rightarrow> ended (tcp_route n addr) tr')"
    unfolding simulated_tcp_accept_turn_def
    by (auto intro!: ensures_rules split: turn_splits)
      (simp_all add: contract_simps byte_simps)
next
  fix s b r s'
  assume "\<forall>tr. \<not> env_server_active (sc_env s) tr"
    and "run_state (simulated_tcp_accept_turn n addr [0..<n] limits b) s = (r, s')"
  then show "r = Break \<and> delivered (sc_trace s') = delivered (sc_trace s)"
    unfolding simulated_tcp_accept_turn_def by (rule inactive_turn)
qed

interpretation tcp_dispatch: serving_loop tcp_dispatch_turn work_offer "\<lambda>_ _. True"
proof
  fix b :: unit and tr :: "nat event list"
  assume "listening work_offer tr"
  then show "ensures (tcp_dispatch_turn b) tr (\<lambda>r tr'. case r of
      Continue b' \<Rightarrow> True \<and> listening work_offer tr' | Break \<Rightarrow> ended work_offer tr')"
    unfolding tcp_dispatch_turn_def
    by (auto intro!: ensures_rules split: turn_splits) (simp_all add: contract_simps)
next
  fix s b r s'
  assume "\<forall>tr. \<not> env_server_active (sc_env s) tr" and "run_state (tcp_dispatch_turn b) s = (r, s')"
  then show "r = Break \<and> delivered (sc_trace s') = delivered (sc_trace s)"
    by (auto simp: tcp_dispatch_turn_def act_simps)
qed

section \<open>Server state\<close>

record 'h TcpServerState =
  tcp_active :: bool
  tcp_tasks :: "'h TaskHandle list mutex"

definition tcp_state_new :: "'h TcpServerState" where
  "tcp_state_new = \<lparr>tcp_active = True, tcp_tasks = mutex_new []\<rparr>"

definition tcp_register_task :: "'h TaskHandle \<Rightarrow> 'h TcpServerState \<Rightarrow> unit result \<times> 'h TcpServerState" where
  "tcp_register_task task self =
     (case lock (Runtime ''tcp task registry lock poisoned'') (tcp_tasks self) of
        Inl e \<Rightarrow> (Inl e, self)
      | Inr tasks \<Rightarrow> (Inr (), self\<lparr>tcp_tasks := (tcp_tasks self)\<lparr>mx_value := tasks @ [task]\<rparr>\<rparr>))"

definition tcp_state_close :: "('h \<Rightarrow> 'ex \<Rightarrow> 'ex) \<Rightarrow> ('ex, 'h TcpServerState, unit) dep" where
  "tcp_state_close do_cancel =
     State (\<lambda>d.
       let self = (d_server d)\<lparr>tcp_active := False\<rparr>
       in case lock () (tcp_tasks self) of
            Inl _ \<Rightarrow> ((), d\<lparr>d_server := self\<rparr>)
          | Inr tasks \<Rightarrow>
              ((), d\<lparr>d_runtime := cancel_all do_cancel tasks (d_runtime d),
                    d_server := self\<lparr>tcp_tasks := (tcp_tasks self)\<lparr>mx_value := []\<rparr>\<rparr>\<rparr>))"

section \<open>Setting up\<close>

definition tcp_add_reuse_port_listener ::
    "(bool \<Rightarrow> tcp_task \<Rightarrow> 'ex \<Rightarrow> 'h io_result \<times> 'ex) \<Rightarrow> nat \<Rightarrow> target \<Rightarrow> TcpServiceConfig \<Rightarrow>
     ('ex, 'h TcpServerState, unit result) dep" where
  "tcp_add_reuse_port_listener spawn current t config =
     with_runtime (\<lambda>rt.
     attempt (on_world (bind_tcp_workers t config (worker_count rt))) (\<lambda>listeners.
     if listeners = []
     then State_Monad.return (Inl (InvalidConfig ''worker count must be greater than zero''))
     else submit_all spawn current tcp_register_task
       (enumerate 0 (map (\<lambda>listener. TcpListenTask listener (limit_new (tcp_max_concurrency config))) listeners))))"

definition tcp_add_simulated_listener ::
    "(bool \<Rightarrow> tcp_task \<Rightarrow> 'ex \<Rightarrow> 'h io_result \<times> 'ex) \<Rightarrow> nat \<Rightarrow> target \<Rightarrow> TcpServiceConfig \<Rightarrow>
     ('ex, 'h TcpServerState, unit result) dep" where
  "tcp_add_simulated_listener spawn current t config =
     (if \<not> SUPPORTS_USERSPACE_REUSEPORT_SIMULATION
      then State_Monad.return
        (Inl (UnsupportedPlatformOption ''selected runtime requires native reuse-port worker sockets''))
      else
     attempt (on_world (bind_tcp t config)) (\<lambda>listener.
     attempt (on_world (io_from (sys os_addr (LocalAddr listener)))) (\<lambda>addr.
     with_runtime (\<lambda>rt.
     let workers = length (worker_executors rt);
         limits = worker_limits workers (tcp_max_concurrency config);
         senders = [0..<workers]
     in
     attempt (submit_all spawn current tcp_register_task
       (map (\<lambda>worker_id. (worker_id, TcpDispatchTask worker_id)) [0..<workers])) (\<lambda>_.
     submit_all spawn current tcp_register_task
       [(0, TcpAcceptTask listener workers addr senders limits)])))))"

definition tcp_serve_with_state ::
    "(bool \<Rightarrow> tcp_task \<Rightarrow> 'ex \<Rightarrow> 'h io_result \<times> 'ex) \<Rightarrow> nat \<Rightarrow> target \<Rightarrow> TcpServiceConfig \<Rightarrow>
     ('ex, 'h TcpServerState, unit result) dep" where
  "tcp_serve_with_state spawn current t config =
     attempt (State_Monad.return (tcp_validate config)) (\<lambda>_.
     attempt (on_server (\<lambda>_. (Inr (), tcp_state_new))) (\<lambda>_.
     if \<not> reuse_port_balancing (capabilities t)
     then tcp_add_simulated_listener spawn current t config
     else tcp_add_reuse_port_listener spawn current t config))"

definition tcp_close :: "('h \<Rightarrow> 'ex \<Rightarrow> 'ex) \<Rightarrow> ('ex, 'h TcpServerState, unit result) dep" where
  "tcp_close do_cancel =
     State_Monad.bind (tcp_state_close do_cancel) (\<lambda>_. State_Monad.return (Inr ()))"

section \<open>The registry\<close>

interpretation tcp_registry: task_registry tcp_register_task
  "\<lambda>sv. mx_value (tcp_tasks sv)" "\<lambda>sv. \<not> mx_poisoned (tcp_tasks sv)"
  "\<lambda>sv. sv\<lparr>tcp_tasks := mutex_new []\<rparr>"
  by unfold_locales (auto simp: tcp_register_task_def)

section \<open>What is set up\<close>

text \<open>The tasks of a server with the listeners \<open>fds\<close>; \<open>addr\<close> is the address of the only one.\<close>

definition tcp_tasks_of ::
    "target \<Rightarrow> TcpServiceConfig \<Rightarrow> usize \<Rightarrow> fd list \<Rightarrow> SocketAddr \<Rightarrow> (usize \<times> tcp_task) list" where
  "tcp_tasks_of t config n fds addr =
     (if t = Windows
      then map (\<lambda>i. (i, TcpDispatchTask i)) [0..<n] @
           [(0, TcpAcceptTask (hd fds) n addr [0..<n] (worker_limits n (tcp_max_concurrency config)))]
      else enumerate 0 (map (\<lambda>fd. TcpListenTask fd (limit_new (tcp_max_concurrency config))) fds))"

lemma bind_tcp_workers_length:
  "run_state (bind_tcp_workers t config n) w = (Inr fds, w') \<Longrightarrow> length fds = (if t = Windows then 1 else n)"
  using tcp_binder.collect_ok [of n t config w fds w']
  by (cases "t = Windows") (auto simp: bind_tcp_workers_def run_io_try_Inr run_io_ok)

lemma tcp_submit_tasks:
  assumes "\<forall>(i, task) \<in> set ts. i < length (rt_workers (d_runtime d))" and "all_open (d_runtime d)"
    and "d_server d = tcp_state_new"
  shows "\<exists>d' hs. run_state (submit_all tokio_spawn current tcp_register_task ts) d = (Inr (), d') \<and>
           d_server d' = \<lparr>tcp_active = True, tcp_tasks = mutex_new hs\<rparr> \<and>
           queued_on (d_runtime d) (d_runtime d') hs ts \<and> all_open (d_runtime d')"
proof -
  obtain d' hs where run: "run_state (submit_all tokio_spawn current tcp_register_task ts) d = (Inr (), d')"
    and hs: "mx_value (tcp_tasks (d_server d')) = hs" and q: "queued_on (d_runtime d) (d_runtime d') hs ts"
    and op: "all_open (d_runtime d')"
    and ok: "\<not> mx_poisoned (tcp_tasks (d_server d'))"
      "(d_server d')\<lparr>tcp_tasks := mutex_new []\<rparr> = tcp_state_new"
    using tcp_registry.submit_all_ok [OF assms(1,2), of current] assms(3)
    by (auto simp: tcp_state_new_def)
  have "d_server d' = \<lparr>tcp_active = True, tcp_tasks = mutex_new hs\<rparr>"
    using hs ok by (cases "d_server d'"; cases "tcp_tasks (d_server d')") (auto simp: mutex_new_def tcp_state_new_def)
  with run q op show ?thesis by blast
qed

lemma tcp_add_simulated_listener_eq:
  "tcp_add_simulated_listener spawn current Windows config =
     attempt (on_world (bind_tcp Windows config)) (\<lambda>listener.
     attempt (on_world (io_from (sys os_addr (LocalAddr listener)))) (\<lambda>addr.
     with_runtime (\<lambda>rt. submit_all spawn current tcp_register_task
       (tcp_tasks_of Windows config (worker_count rt) [listener] addr))))"
  by (simp add: tcp_add_simulated_listener_def SUPPORTS_USERSPACE_REUSEPORT_SIMULATION_def Let_def
      submit_all_append tcp_tasks_of_def worker_executors_def worker_count_def del: submit_all.simps)

text \<open>
  A server that could be set up has its listeners bound and exactly the tasks above queued,
  with their handles registered in the same order.
\<close>

lemma tcp_serve_ok:
  assumes op: "all_open (d_runtime d)" and n: "n = worker_count (d_runtime d)" "0 < n"
    and run: "run_state (tcp_serve_with_state tokio_spawn current t config) d = (Inr (), d')"
  shows "\<exists>fds addr w hs. run_state (bind_tcp_workers t config n) (d_world d) = (Inr fds, w) \<and>
           length fds = (if t = Windows then 1 else n) \<and>
           d_server d' = \<lparr>tcp_active = True, tcp_tasks = mutex_new hs\<rparr> \<and>
           queued_on (d_runtime d) (d_runtime d') hs (tcp_tasks_of t config n fds addr) \<and> all_open (d_runtime d')"
proof -
  obtain fds addr w w' where b: "run_state (bind_tcp_workers t config n) (d_world d) = (Inr fds, w)"
    and sub: "run_state (submit_all tokio_spawn current tcp_register_task (tcp_tasks_of t config n fds addr))
        (d\<lparr>d_server := tcp_state_new, d_world := w'\<rparr>) = (Inr (), d')"
  proof (cases "t = Windows")
    case True
    with run n obtain l w1 addr where l: "run_state (bind_tcp t config) (d_world d) = (Inr l, w1)"
      and sub: "run_state (submit_all tokio_spawn current tcp_register_task (tcp_tasks_of t config n [l] addr))
        (d\<lparr>d_server := tcp_state_new, d_world := logged [LocalAddr l] w1\<rparr>) = (Inr (), d')"
      by (auto simp: tcp_serve_with_state_def tcp_validate_def tcp_add_simulated_listener_eq
          dep_simps io_simps split: prod.splits sum.splits)
    have "run_state (bind_tcp_workers t config n) (d_world d) = (Inr [l], w1)"
      using l True by (simp add: bind_tcp_workers_def io_simps)
    from that [OF this sub] show ?thesis .
  next
    case False
    with run n obtain fds w where "run_state (bind_tcp_workers t config n) (d_world d) = (Inr fds, w)"
      "run_state (submit_all tokio_spawn current tcp_register_task (tcp_tasks_of t config n fds undefined))
        (d\<lparr>d_server := tcp_state_new, d_world := w\<rparr>) = (Inr (), d')"
      by (auto simp: tcp_serve_with_state_def tcp_validate_def tcp_add_reuse_port_listener_def dep_simps
          tcp_tasks_of_def split: prod.splits sum.splits if_splits)
    from that [OF this] show ?thesis .
  qed
  let ?d = "d\<lparr>d_server := tcp_state_new, d_world := w'\<rparr>"
  have len: "length fds = (if t = Windows then 1 else n)" by (rule bind_tcp_workers_length [OF b])
  then have "\<forall>(i, task) \<in> set (tcp_tasks_of t config n fds addr). i < length (rt_workers (d_runtime ?d))"
    using n by (auto simp: tcp_tasks_of_def worker_count_def in_set_enumerate_eq)
  from tcp_submit_tasks [OF this, of current] op sub b len show ?thesis by auto
qed

text \<open>With kernel balancing, serving is binding the listeners and submitting their tasks.\<close>

lemma tcp_serve_native:
  assumes "t \<noteq> Windows" and "0 < worker_count (d_runtime d)"
    and "run_state (bind_tcp_workers t config (worker_count (d_runtime d))) (d_world d) = (Inr fds, w)"
  shows "run_state (tcp_serve_with_state spawn current t config) d =
           run_state (submit_all spawn current tcp_register_task
             (enumerate 0 (map (\<lambda>fd. TcpListenTask fd (limit_new (tcp_max_concurrency config))) fds)))
             (d\<lparr>d_server := tcp_state_new, d_world := w\<rparr>)"
  using assms bind_tcp_workers_length [OF assms(3)]
  by (auto simp: tcp_serve_with_state_def tcp_validate_def tcp_add_reuse_port_listener_def dep_simps)

lemmas bind_tcp_eval =
  bind_tcp_workers_def numeral_2_eq_2 bind_tcp_def apply_socket_init_callback_def
  apply_common_options_def set_reuse_port_def linux_set_reuse_port_def unix_set_reuse_port_def
  transparent_defs calm_defs tcp_socket_config_def config_simps io_simps

text \<open>A runtime whose second worker has stopped.\<close>

definition second_worker_gone :: "'t executor ServerRuntime" where
  "second_worker_gone = two_workers\<lparr>rt_workers := (rt_workers two_workers)
     [1 := (rt_workers two_workers ! 1)\<lparr>wh_executor := executor_new\<lparr>ex_open := False\<rparr>\<rparr>]\<rparr>"

lemma second_worker_gone_simps:
  "worker_count second_worker_gone = 2" "ex_open (exec_of second_worker_gone 0)"
  "\<not> ex_open (exec_of second_worker_gone (Suc 0))" "ex_commands (exec_of second_worker_gone 0) = []"
  by (simp_all add: second_worker_gone_def worker_count_def two_workers_def executor_new_def)

section \<open>Properties\<close>

text \<open>C11. Closing reaches everything that serving started. After a successful \<open>serve\<close> and \<open>close\<close> on tokio,
  every worker's queue holds what it held before, then the server's tasks for that worker, at
  least one, and then a cancellation for each of them; the server is inactive and its registry
  empty.\<close>

theorem tcp_close_cancels_every_task:
  assumes "all_open (d_runtime d)" and "0 < worker_count (d_runtime d)"
    and "run_state (tcp_serve_with_state tokio_spawn current t config) d = (Inr (), d1)"
    and "run_state (tcp_close cancel) d1 = (r, d2)"
  shows "r = Inr () \<and> \<not> tcp_active (d_server d2) \<and> mx_value (tcp_tasks (d_server d2)) = [] \<and>
         (\<forall>i < worker_count (d_runtime d). \<exists>ids tasks. length ids = length tasks \<and> tasks \<noteq> [] \<and>
            ex_commands (exec_of (d_runtime d2) i) =
              ex_commands (exec_of (d_runtime d) i) @ map2 Spawn ids tasks @ map TaskCommand.Cancel ids)"
proof -
  let ?n = "worker_count (d_runtime d)"
  from tcp_serve_ok [OF assms(1) refl assms(2,3)] obtain fds addr hs where
    len: "length fds = (if t = Windows then 1 else ?n)"
    and sv: "d_server d1 = \<lparr>tcp_active = True, tcp_tasks = mutex_new hs\<rparr>"
    and q: "queued_on (d_runtime d) (d_runtime d1) hs (tcp_tasks_of t config ?n fds addr)"
    and op: "all_open (d_runtime d1)" by blast
  from assms(4) sv have close: "r = Inr ()" "d_runtime d2 = cancel_all cancel hs (d_runtime d1)"
    "\<not> tcp_active (d_server d2)" "mx_value (tcp_tasks (d_server d2)) = []"
    by (auto simp: tcp_close_def tcp_state_close_def Let_def)
  have "\<exists>ids tasks. length ids = length tasks \<and> tasks \<noteq> [] \<and>
      ex_commands (exec_of (d_runtime d2) i) =
        ex_commands (exec_of (d_runtime d) i) @ map2 Spawn ids tasks @ map TaskCommand.Cancel ids" if i: "i < ?n" for i
  proof (intro exI conjI)
    let ?ids = "for_worker_id i hs" and ?tasks = "for_worker_id i (tcp_tasks_of t config ?n fds addr)"
    from i have j: "i < length (rt_workers (d_runtime d))" by (simp add: worker_count_def)
    show "length ?ids = length ?tasks" by (rule queued_then_cancelled(2) [OF q op j])
    show "?tasks \<noteq> []"
      using i len by (auto simp: tcp_tasks_of_def for_worker_id_enumerate for_worker_id_each)
    show "ex_commands (exec_of (d_runtime d2) i) =
        ex_commands (exec_of (d_runtime d) i) @ map2 Spawn ?ids ?tasks @ map TaskCommand.Cancel ?ids"
      using queued_then_cancelled(1) [OF q op j] close(2) by simp
  qed
  with close show ?thesis by blast
qed

theorem tcp_close_cancels_every_task_witness:
  "\<exists>d1 d2. run_state (tcp_serve_with_state tokio_spawn 9 Linux (tcp_config_new (SocketAddrV4 0 80)))
       (calm_deployment tcp_state_new) = (Inr (), d1) \<and>
     run_state (tcp_close cancel) d1 = (Inr (), d2) \<and>
     (\<exists>ids tasks. tasks \<noteq> [] \<and>
        ex_commands (exec_of (d_runtime d2) 1) = map2 Spawn ids tasks @ map TaskCommand.Cancel ids)"
proof -
  let ?c = "tcp_config_new (SocketAddrV4 0 80)" and ?d = "calm_deployment tcp_state_new"
  obtain fds w where b: "run_state (bind_tcp_workers Linux ?c 2) calm_world = (Inr fds, w)"
    by (simp add: bind_tcp_eval)
  let ?ts = "enumerate 0 (map (\<lambda>fd. TcpListenTask fd (limit_new (tcp_max_concurrency ?c))) fds)"
  have "\<forall>(i, task) \<in> set ?ts. i < 2"
    using bind_tcp_workers_length [OF b] by (auto simp: in_set_enumerate_eq)
  from tcp_submit_tasks [of ?ts "?d\<lparr>d_server := tcp_state_new, d_world := w\<rparr>" 9] this
    tcp_serve_native [of Linux ?d ?c fds w tokio_spawn 9] b
  obtain d1 where d1: "run_state (tcp_serve_with_state tokio_spawn 9 Linux ?c) ?d = (Inr (), d1)" by auto
  obtain r d2 where d2: "run_state (tcp_close cancel) d1 = (r, d2)" by fastforce
  have main: "r = Inr () \<and> (\<exists>ids tasks. length ids = length tasks \<and> tasks \<noteq> [] \<and>
        ex_commands (exec_of (d_runtime d2) 1) = map2 Spawn ids tasks @ map TaskCommand.Cancel ids)"
    using tcp_close_cancels_every_task [OF _ _ d1 d2] by (auto dest!: spec [of _ 1])
  with d1 d2 show ?thesis by blast
qed

text \<open>C9. Without kernel balancing, every accepted connection goes to the worker its addresses select, in
  the order of arrival, and to no other: what the accept loop hands over is a subsequence of
  what it should hand over, and as long as it runs the only connections left out are those for
  which the worker's limit refused a permit. With two workers or more none goes to worker 0,
  which runs the accept loop.\<close>

theorem tcp_accept_loop_routes:
  assumes "run_state (loop_run k (simulated_tcp_accept_turn n addr [0..<n] limits) ()) \<lparr>sc_env = e, sc_trace = []\<rparr> = (r, s)"
  shows "subseq (delivered (sc_trace s)) (offered (tcp_route n addr) (sc_trace s)) \<and>
         (r \<noteq> Break \<longrightarrow> mset (map fst (offered (tcp_route n addr) (sc_trace s))) =
            mset (map fst (delivered (sc_trace s))) + refused (sc_trace s)) \<and>
         (\<forall>(w, stream) \<in> set (delivered (sc_trace s)). \<exists>i<n. w = Some i \<and> (1 < n \<longrightarrow> i \<noteq> 0))"
proof -
  let ?tr = "sc_trace s"
  note c = tcp_accept.loop_from_start [OF TrueI assms]
  have route: "\<exists>i<n. w = Some i \<and> (1 < n \<longrightarrow> i \<noteq> 0)" if "tcp_route n addr tr = Some (w, stream)" for w stream tr
    using that
    by (cases "(n, addr, tr)" rule: tcp_route.cases)
      (auto simp: result_simps dest: select_simulated_in_range)
  from c have "set (delivered ?tr) \<subseteq> set (offered (tcp_route n addr) ?tr)"
    by (blast dest: subseq_set)
  with route have "\<forall>(w, stream) \<in> set (delivered ?tr). \<exists>i<n. w = Some i \<and> (1 < n \<longrightarrow> i \<noteq> 0)"
    by (auto dest!: subsetD offered_set)
  with c show ?thesis by simp
qed

theorem tcp_accept_loop_routes_witness:
  "\<exists>r s. run_state (loop_run 2 (simulated_tcp_accept_turn 2 (SocketAddrV4 0 80) [0..<2] (worker_limits 2 (Some 5))) ())
       \<lparr>sc_env = busy_env, sc_trace = []\<rparr> = (r, s) \<and> r \<noteq> Break \<and>
     delivered (sc_trace s) = [(Some 1, 2), (Some 1, 9)] \<and>
     subseq (delivered (sc_trace s)) (offered (tcp_route 2 (SocketAddrV4 0 80)) (sc_trace s))"
proof -
  have select: "select_simulated_tcp_worker meta 2 = Inr 1" for meta
    by (simp add: select_simulated_tcp_worker_def linux_reuseport_select_def Let_def)
  obtain r s where r: "run_state (loop_run 2 (simulated_tcp_accept_turn 2 (SocketAddrV4 0 80) [0..<2]
      (worker_limits 2 (Some 5))) ()) \<lparr>sc_env = busy_env, sc_trace = []\<rparr> = (r, s)"
    and d: "r \<noteq> Break" "delivered (sc_trace s) = [(Some 1, 2), (Some 1, 9)]"
    using select by (simp add: simulated_tcp_accept_turn_def worker_limits_def slice_get_def run_loops)
  from tcp_accept_loop_routes [OF r] r d show ?thesis by blast
qed

text \<open>C29. Permits are neither lost nor duplicated. Whatever happens around it, every task of a TCP server
  passes each permit it obtains to exactly one handler or worker or drops it; after it has seen
  a flag cleared it does nothing but drop its permit; and once the server is closed it ends
  within one turn without handing anything over.\<close>

theorem tcp_tasks_conserve_permits:
  assumes "(i, task) \<in> set (tcp_tasks_of t config n fds addr)"
    and "run_state (loop_run k (tcp_task_turn task) ()) \<lparr>sc_env = e, sc_trace = []\<rparr> = (r, s)"
  shows "gained (sc_trace s) = given (sc_trace s) + released (sc_trace s) \<and> quiet (sc_trace s) \<and>
         ((\<forall>tr. \<not> env_server_active e tr) \<and> 0 < k \<longrightarrow> r = Break \<and> delivered (sc_trace s) = [])"
proof -
  from assms(1) consider (listen) l limit where "task = TcpListenTask l limit"
    | (dispatch) j where "task = TcpDispatchTask j"
    | (accept) l limits where "task = TcpAcceptTask l n addr [0..<n] limits"
    by (auto simp: tcp_tasks_of_def in_set_enumerate_eq split: if_splits)
  then show ?thesis
  proof cases
    case listen
    with assms(2) show ?thesis by (simp add: tcp_native.loop_safe)
  next
    case dispatch
    with assms(2) show ?thesis by (simp add: tcp_dispatch.loop_safe)
  next
    case accept
    with assms(2) show ?thesis by (simp add: tcp_accept.loop_safe)
  qed
qed

theorem tcp_tasks_conserve_permits_witness:
  "\<exists>r s. run_state (loop_run 2 (tcp_task_turn (TcpListenTask 3 (limit_new (Some 1)))) ())
       \<lparr>sc_env = busy_env, sc_trace = []\<rparr> = (r, s) \<and>
     gained (sc_trace s) = {#Some 2, Some 11#} \<and> given (sc_trace s) = gained (sc_trace s) \<and>
     gained (sc_trace s) = given (sc_trace s) + released (sc_trace s)"
proof -
  let ?c = "tcp_with_max_concurrency (tcp_config_new (SocketAddrV4 0 80)) 1"
  have task: "(0, TcpListenTask 3 (limit_new (Some 1))) \<in> set (tcp_tasks_of Linux ?c 1 [3] (SocketAddrV4 0 80))"
    by (simp add: tcp_tasks_of_def config_simps)
  obtain r s where r: "run_state (loop_run 2 (tcp_task_turn (TcpListenTask 3 (limit_new (Some 1)))) ())
      \<lparr>sc_env = busy_env, sc_trace = []\<rparr> = (r, s)"
    and g: "gained (sc_trace s) = {#Some 2, Some 11#}" "given (sc_trace s) = gained (sc_trace s)"
    by (simp add: tcp_listener_turn_def run_loops)
  from tcp_tasks_conserve_permits [OF task r] r g show ?thesis by blast
qed

text \<open>C33. A set-up that fails on the way leaves behind what it has started. When a worker cannot take its task,
  \<open>serve\<close> returns an error, but every worker before it keeps its accept task queued, without a
  cancellation, and the caller gets no server to close.\<close>

theorem failed_serve_leaves_tasks:
  assumes "t \<noteq> Windows" and "j < worker_count (d_runtime d)"
    and "run_state (bind_tcp_workers t config (worker_count (d_runtime d))) (d_world d) = (Inr fds, w)"
    and "\<forall>i<j. ex_open (exec_of (d_runtime d) i)" and "\<not> ex_open (exec_of (d_runtime d) j)"
  shows "\<exists>e d'. run_state (tcp_serve_with_state tokio_spawn current t config) d = (Inl e, d') \<and>
         (\<forall>i<j. \<exists>k. ex_commands (exec_of (d_runtime d') i) =
            ex_commands (exec_of (d_runtime d) i) @ [Spawn k (TcpListenTask (fds ! i) (limit_new (tcp_max_concurrency config)))])"
proof -
  let ?n = "worker_count (d_runtime d)" and ?d = "d\<lparr>d_server := tcp_state_new, d_world := w\<rparr>"
  let ?xs = "map (\<lambda>fd. TcpListenTask fd (limit_new (tcp_max_concurrency config))) fds"
  have len: "length ?xs = ?n" using bind_tcp_workers_length [OF assms(3)] assms(1) by simp
  let ?ts = "enumerate 0 (take j ?xs)"
  have split: "enumerate 0 ?xs = ?ts @ (j, ?xs ! j) # enumerate (Suc j) (drop (Suc j) ?xs)"
    using assms(2) len
    by (metis add_0 append_take_drop_id Cons_nth_drop_Suc enumerate_append_eq enumerate_simps(2) length_take min.absorb4)
  have "\<forall>(i, task) \<in> set ?ts. i < length (rt_workers (d_runtime ?d)) \<and> ex_open (exec_of (d_runtime ?d) i)"
    using assms(2,4) by (auto simp: in_set_enumerate_eq worker_count_def)
  from tcp_registry.submit_all_stops [OF this, of j current "?xs ! j" "enumerate (Suc j) (drop (Suc j) ?xs)"] assms(2,5)
  obtain e d' hs where run: "run_state (submit_all tokio_spawn current tcp_register_task (enumerate 0 ?xs)) ?d = (Inl e, d')"
    and q: "queued_on (d_runtime d) (d_runtime d') hs ?ts"
    by (auto simp: split tcp_state_new_def worker_count_def)
  have serve: "run_state (tcp_serve_with_state tokio_spawn current t config) d = (Inl e, d')"
    using tcp_serve_native [OF assms(1) _ assms(3)] run assms(2) by auto
  have "\<exists>k. ex_commands (exec_of (d_runtime d') i) = ex_commands (exec_of (d_runtime d) i) @ [Spawn k (?xs ! i)]"
    if i: "i < j" for i
  proof -
    have one: "for_worker_id i ?ts = [?xs ! i]" using i assms(2) len by (simp add: for_worker_id_enumerate)
    then obtain k where "for_worker_id i hs = [k]"
      using q for_worker_id_length [of hs ?ts i] by (auto simp: queued_on_def length_Suc_conv)
    with q one i assms(2) show ?thesis by (auto simp: queued_on_def worker_count_def)
  qed
  with serve len assms(2) show ?thesis by fastforce
qed

theorem failed_serve_leaves_tasks_witness:
  "\<exists>e d'. run_state (tcp_serve_with_state tokio_spawn 9 Linux (tcp_config_new (SocketAddrV4 0 80)))
       (calm_deployment tcp_state_new\<lparr>d_runtime := second_worker_gone\<rparr>) = (Inl e, d') \<and>
     (\<exists>k task. ex_commands (exec_of (d_runtime d') 0) = [Spawn k task])"
proof -
  let ?c = "tcp_config_new (SocketAddrV4 0 80)"
  let ?d = "calm_deployment tcp_state_new\<lparr>d_runtime := second_worker_gone\<rparr> :: (tcp_task executor, nat TcpServerState) deployment"
  obtain fds w where b: "run_state (bind_tcp_workers Linux ?c 2) calm_world = (Inr fds, w)"
    by (simp add: bind_tcp_eval)
  have "\<exists>e d'. run_state (tcp_serve_with_state tokio_spawn 9 Linux ?c) ?d = (Inl e, d') \<and>
      (\<forall>i<1. \<exists>k. ex_commands (exec_of (d_runtime d') i) = ex_commands (exec_of (d_runtime ?d) i) @
         [Spawn k (TcpListenTask (fds ! i) (limit_new (tcp_max_concurrency ?c)))])"
    by (rule failed_serve_leaves_tasks) (use b in \<open>simp_all add: second_worker_gone_simps\<close>)
  then show ?thesis by (auto simp: second_worker_gone_simps)
qed

end
