(* ===== verification/Static_Files.thy ===== *)
theory Static_Files
  imports Platform "HOL-Library.Sublist"
begin

text \<open>
  The static file server that comes with the crate (\<open>examples/hyper_static.rs\<close>): from the path of
  a request to a file below the root directory, the plain HTTP responses of the async-std build
  and the handler of the tokio build. Rust strings are their UTF-8 bytes, a path is the list of
  its components and the file system is a parameter, as it is during one request. What hyper
  makes of a request, its method and the path of its URI, is an argument.
\<close>

section \<open>Text\<close>

definition ascii :: "string \<Rightarrow> u8 list" where
  "ascii s = map of_char s"

text \<open>
  The character at the front of a byte string (\<open>std::str::from_utf8\<close>): whether it is well-formed,
  and the number of its bytes, or of the bytes that form no character.
\<close>

definition continuation :: "u8 \<Rightarrow> bool" where
  "continuation b \<longleftrightarrow> 0x80 \<le> b \<and> b \<le> 0xbf"

definition second_ok :: "u8 \<Rightarrow> u8 \<Rightarrow> bool" where
  "second_ok a b \<longleftrightarrow>
     (if a = 0xe0 then 0xa0 \<le> b \<and> b \<le> 0xbf
      else if a = 0xed then 0x80 \<le> b \<and> b \<le> 0x9f
      else if a = 0xf0 then 0x90 \<le> b \<and> b \<le> 0xbf
      else if a = 0xf4 then 0x80 \<le> b \<and> b \<le> 0x8f
      else continuation b)"

definition utf8_head :: "u8 \<Rightarrow> u8 list \<Rightarrow> bool \<times> nat" where
  "utf8_head a bs =
     (let get = (\<lambda>i. if i < length bs then bs ! i else 0)
      in
      if a < 0x80 then (True, 1)
      else if 0xc2 \<le> a \<and> a \<le> 0xdf then
        if continuation (get 0) then (True, 2) else (False, 1)
      else if 0xe0 \<le> a \<and> a \<le> 0xef then
        if \<not> second_ok a (get 0) then (False, 1)
        else if continuation (get 1) then (True, 3) else (False, 2)
      else if 0xf0 \<le> a \<and> a \<le> 0xf4 then
        if \<not> second_ok a (get 0) then (False, 1)
        else if \<not> continuation (get 1) then (False, 2)
        else if continuation (get 2) then (True, 4) else (False, 3)
      else (False, 1))"

function utf8_valid :: "u8 list \<Rightarrow> bool" where
  "utf8_valid [] \<longleftrightarrow> True"
| "utf8_valid (a # bs) \<longleftrightarrow> fst (utf8_head a bs) \<and> utf8_valid (drop (snd (utf8_head a bs) - 1) bs)"
  by pat_completeness auto
termination
  by (relation "measure length") auto

text \<open>\<open>String::from_utf8_lossy\<close> puts U+FFFD for what forms no character.\<close>

function from_utf8_lossy :: "u8 list \<Rightarrow> u8 list" where
  "from_utf8_lossy [] = []"
| "from_utf8_lossy (a # bs) =
     (let (valid, n) = utf8_head a bs
      in (if valid then take n (a # bs) else [0xef, 0xbf, 0xbd]) @ from_utf8_lossy (drop (n - 1) bs))"
  by pat_completeness auto
termination
  by (relation "measure length") auto

text \<open>\<open>str::split\<close> with a character, \<open>str::lines().next()\<close>, \<open>str::split_whitespace\<close>.\<close>

fun split_on :: "u8 \<Rightarrow> u8 list \<Rightarrow> u8 list list" where
  "split_on c [] = [[]]"
| "split_on c (b # bs) =
     (if b = c then [] # split_on c bs
      else case split_on c bs of s # ss \<Rightarrow> (b # s) # ss | [] \<Rightarrow> [[b]])"

definition first_line :: "u8 list \<Rightarrow> u8 list option" where
  "first_line text =
     (let line = takeWhile (\<lambda>b. b \<noteq> 10) text
      in if text = [] then None
         else if 10 \<in> set text \<and> line \<noteq> [] \<and> last line = 13 then Some (butlast line)
         else Some line)"

text \<open>The number of bytes of the white space character (Unicode \<open>White_Space\<close>) at the front, or 0.\<close>

definition white_space :: "u8 list \<Rightarrow> nat" where
  "white_space bs =
     (if bs \<noteq> [] \<and> (9 \<le> bs ! 0 \<and> bs ! 0 \<le> 13 \<or> bs ! 0 = 32) then 1
      else if take 2 bs = [0xc2, 0x85] \<or> take 2 bs = [0xc2, 0xa0] then 2
      else if take 3 bs \<in> {[0xe1, 0x9a, 0x80], [0xe2, 0x80, 0xa8], [0xe2, 0x80, 0xa9], [0xe2, 0x80, 0xaf],
          [0xe2, 0x81, 0x9f], [0xe3, 0x80, 0x80]} then 3
      else if take 2 bs = [0xe2, 0x80] \<and> 3 \<le> length bs \<and> 0x80 \<le> bs ! 2 \<and> bs ! 2 \<le> 0x8a then 3
      else 0)"

text \<open>The words after a word whose bytes so far are \<open>word\<close>.\<close>

function split_whitespace :: "u8 list \<Rightarrow> u8 list \<Rightarrow> u8 list list" where
  "split_whitespace word [] = (if word = [] then [] else [word])"
| "split_whitespace word (b # bs) =
     (if white_space (b # bs) = 0 then split_whitespace (word @ [b]) bs
      else (if word = [] then [] else [word]) @
        split_whitespace [] (drop (white_space (b # bs) - 1) bs))"
  by pat_completeness auto
termination
  by (relation "measure (length \<circ> snd)") auto

declare split_whitespace.simps [simp del]

section \<open>Paths\<close>

datatype ResolveError = Forbidden | NotFound

type_synonym path = "u8 list list"

record file_system =
  fs_is_dir :: "path \<Rightarrow> bool"
  fs_is_file :: "path \<Rightarrow> bool"
  fs_canonicalize :: "path \<Rightarrow> path io_result"
  fs_read :: "path \<Rightarrow> u8 list io_result"

definition from_hex :: "u8 \<Rightarrow> ResolveError + u8" where
  "from_hex byte =
     (if 0x30 \<le> byte \<and> byte \<le> 0x39 then Inr (byte - 0x30)
      else if 0x61 \<le> byte \<and> byte \<le> 0x66 then Inr (byte - 0x61 + 10)
      else if 0x41 \<le> byte \<and> byte \<le> 0x46 then Inr (byte - 0x41 + 10)
      else Inl Forbidden)"

text \<open>The loop of \<open>percent_decode\<close>, on the bytes from the index on.\<close>

fun decode_bytes :: "u8 list \<Rightarrow> ResolveError + u8 list" where
  "decode_bytes [] = Inr []"
| "decode_bytes (b # bs) =
     (if b = 0x25
      then case bs of
        h # l # rest \<Rightarrow>
          and_then (from_hex h) (\<lambda>high.
          and_then (from_hex l) (\<lambda>low.
          map_ok ((#) (push_bit 4 high OR low)) (decode_bytes rest)))
      | _ \<Rightarrow> Inl Forbidden
      else map_ok ((#) b) (decode_bytes bs))"

definition percent_decode :: "u8 list \<Rightarrow> ResolveError + u8 list" where
  "percent_decode segment =
     and_then (decode_bytes segment) (\<lambda>decoded. if utf8_valid decoded then Inr decoded else Inl Forbidden)"

text \<open>
  Whether a path begins with a drive (on Windows) or at the root. A name that has passed the
  other tests holds no separator.
\<close>

definition prefix_or_root :: "target \<Rightarrow> u8 list \<Rightarrow> bool" where
  "prefix_or_root t segment \<longleftrightarrow>
     (case segment of
        [] \<Rightarrow> False
      | a # bs \<Rightarrow> a = 0x2f \<or>
          (t = Windows \<and>
            (a = 0x5c \<or> (0x41 \<le> a \<and> a \<le> 0x5a \<or> 0x61 \<le> a \<and> a \<le> 0x7a) \<and> bs \<noteq> [] \<and> hd bs = 0x3a)))"

definition forbidden_segment :: "target \<Rightarrow> u8 list \<Rightarrow> bool" where
  "forbidden_segment t segment \<longleftrightarrow>
     segment = ascii ''..'' \<or> 0 \<in> set segment \<or> 0x2f \<in> set segment \<or> 0x5c \<in> set segment \<or>
     prefix_or_root t segment"

fun push_segments :: "target \<Rightarrow> path \<Rightarrow> u8 list list \<Rightarrow> ResolveError + path" where
  "push_segments t candidate [] = Inr candidate"
| "push_segments t candidate (raw_segment # raws) =
     (if raw_segment = [] then push_segments t candidate raws
      else
        and_then (percent_decode raw_segment) (\<lambda>segment.
        if segment = ascii ''.'' then push_segments t candidate raws
        else if forbidden_segment t segment then Inl Forbidden
        else push_segments t (candidate @ [segment]) raws))"

definition resolve_path :: "file_system \<Rightarrow> target \<Rightarrow> path \<Rightarrow> u8 list \<Rightarrow> ResolveError + path" where
  "resolve_path fs t root uri_path =
     and_then (push_segments t root (split_on 0x2f uri_path)) (\<lambda>candidate.
     let candidate =
       if fs_is_dir fs candidate \<or> (uri_path \<noteq> [] \<and> last uri_path = 0x2f)
       then candidate @ [ascii ''index.html''] else candidate
     in
     case fs_canonicalize fs candidate of
       Inl error \<Rightarrow> Inl (if error_kind error = KindNotFound then NotFound else Forbidden)
     | Inr canonical \<Rightarrow>
         if \<not> prefix root canonical then Inl Forbidden
         else if \<not> fs_is_file fs canonical then Inl NotFound
         else Inr canonical)"

text \<open>\<open>Path::extension\<close>: what follows the last dot, unless that is the first byte of the name.\<close>

definition extension :: "path \<Rightarrow> u8 list option" where
  "extension path =
     (let name = last path; after = takeWhile (\<lambda>b. b \<noteq> 0x2e) (rev name)
      in if path = [] \<or> name = ascii ''..'' \<or> length name \<le> length after + 1 then None else Some (rev after))"

definition content_type_str :: "path \<Rightarrow> string" where
  "content_type_str path =
     (case extension path of
        None \<Rightarrow> ''application/octet-stream''
      | Some e \<Rightarrow>
          if e = ascii ''html'' \<or> e = ascii ''htm'' then ''text/html; charset=utf-8''
          else if e = ascii ''css'' then ''text/css; charset=utf-8''
          else if e = ascii ''js'' then ''application/javascript''
          else if e = ascii ''json'' then ''application/json''
          else if e = ascii ''png'' then ''image/png''
          else if e = ascii ''jpg'' \<or> e = ascii ''jpeg'' then ''image/jpeg''
          else if e = ascii ''gif'' then ''image/gif''
          else if e = ascii ''svg'' then ''image/svg+xml''
          else if e \<in> {ascii ''txt'', ascii ''toml'', ascii ''md'', ascii ''yaml'', ascii ''bat'', ascii ''sh''}
          then ''text/plain; charset=utf-8''
          else ''application/octet-stream'')"

section \<open>The handler on tokio\<close>

record response =
  rs_status :: nat
  rs_content_type :: string
  rs_body :: "u8 list"

definition text_response :: "nat \<Rightarrow> string \<Rightarrow> response" where
  "text_response status message =
     \<lparr>rs_status = status, rs_content_type = ''text/plain; charset=utf-8'', rs_body = ascii message\<rparr>"

definition response_for_path :: "file_system \<Rightarrow> target \<Rightarrow> path \<Rightarrow> u8 list \<Rightarrow> bool \<Rightarrow> response" where
  "response_for_path fs t root uri_path headers_only =
     (case resolve_path fs t root uri_path of
        Inl Forbidden \<Rightarrow> text_response 403 ''forbidden''
      | Inl NotFound \<Rightarrow> text_response 404 ''not found''
      | Inr path \<Rightarrow>
          (case fs_read fs path of
             Inr bytes \<Rightarrow>
               \<lparr>rs_status = 200, rs_content_type = content_type_str path,
                rs_body = (if headers_only then [] else bytes)\<rparr>
           | Inl error \<Rightarrow>
               if error_kind error = KindNotFound then text_response 404 ''not found''
               else text_response 500 ''internal server error''))"

definition serve_request :: "file_system \<Rightarrow> target \<Rightarrow> path \<Rightarrow> u8 list \<Rightarrow> u8 list \<Rightarrow> response" where
  "serve_request fs t root method uri_path =
     (if method = ascii ''GET'' then response_for_path fs t root uri_path False
      else if method = ascii ''HEAD'' then response_for_path fs t root uri_path True
      else text_response 405 ''method not allowed'')"

section \<open>The connection on async-std\<close>

abbreviation CRLF :: string where
  "CRLF \<equiv> [CHR 0x0d, CHR 0x0a]"

definition plain_response :: "nat \<Rightarrow> string \<Rightarrow> string \<Rightarrow> u8 list \<Rightarrow> u8 list" where
  "plain_response status reason content_type body =
     ascii (''HTTP/1.1 '' @ show_nat status @ '' '' @ reason @ CRLF @
       ''Content-Length: '' @ show_nat (length body) @ CRLF @
       ''Content-Type: '' @ content_type @ CRLF @ ''Connection: close'' @ CRLF @ CRLF) @ body"

abbreviation plain_text :: "nat \<Rightarrow> string \<Rightarrow> string \<Rightarrow> u8 list" where
  "plain_text status reason message \<equiv>
     plain_response status reason ''text/plain; charset=utf-8'' (ascii message)"

definition plain_response_for_request :: "file_system \<Rightarrow> target \<Rightarrow> path \<Rightarrow> u8 list \<Rightarrow> u8 list" where
  "plain_response_for_request fs t root request =
     (case first_line (from_utf8_lossy request) of
        None \<Rightarrow> plain_text 400 ''Bad Request'' ''bad request''
      | Some request_line \<Rightarrow>
          let parts = split_whitespace [] request_line;
              method = (if 0 < length parts then parts ! 0 else []);
              path = (if 1 < length parts then parts ! 1 else [])
          in
          if method \<noteq> ascii ''GET'' \<and> method \<noteq> ascii ''HEAD''
          then plain_text 405 ''Method Not Allowed'' ''method not allowed''
          else
          let headers_only = (method = ascii ''HEAD'');
              path = takeWhile (\<lambda>b. b \<noteq> 0x3f) path
          in
          case resolve_path fs t root path of
            Inl Forbidden \<Rightarrow> plain_text 403 ''Forbidden'' ''forbidden''
          | Inl NotFound \<Rightarrow> plain_text 404 ''Not Found'' ''not found''
          | Inr path \<Rightarrow>
              (case fs_read fs path of
                 Inr bytes \<Rightarrow>
                   plain_response 200 ''OK'' (content_type_str path) (if headers_only then [] else bytes)
               | Inl error \<Rightarrow>
                   if error_kind error = KindNotFound then plain_text 404 ''Not Found'' ''not found''
                   else plain_text 500 ''Internal Server Error'' ''internal server error''))"

text \<open>
  Reading a request. What the reads give is an argument; \<open>None\<close> says that the connection waits
  for more. An empty read is the end of the stream.
\<close>

definition has_blank_line :: "u8 list \<Rightarrow> bool" where
  "has_blank_line request \<longleftrightarrow>
     list_ex (\<lambda>i. take 4 (drop i request) = ascii (CRLF @ CRLF)) [0..<length request]"

fun read_request :: "u8 list io_result list \<Rightarrow> u8 list \<Rightarrow> u8 list result option" where
  "read_request reads request =
     (if length request \<le> 8192
      then case reads of
        [] \<Rightarrow> None
      | Inl e # _ \<Rightarrow> Some (Inl (error_from e))
      | Inr buffer # reads \<Rightarrow>
          if buffer = [] then Some (Inr [])
          else if has_blank_line (request @ buffer) then Some (Inr (request @ buffer))
          else read_request reads (request @ buffer)
      else Some (Inl (Handler ''http request headers were not complete'')))"

declare read_request.simps [simp del]

text \<open>The bytes that are written to the connection.\<close>

definition serve_plain_connection ::
    "file_system \<Rightarrow> target \<Rightarrow> path \<Rightarrow> u8 list io_result list \<Rightarrow> u8 list result option" where
  "serve_plain_connection fs t root reads =
     map_option (map_ok (\<lambda>request.
       if request = [] then [] else plain_response_for_request fs t root request)) (read_request reads [])"

section \<open>Paths stay below the root\<close>

text \<open>
  A name that refers to an entry of a directory, and nothing else: not the directory itself or
  its parent, without separators and NUL, and on Windows not beginning with the letter of a drive.
\<close>

definition drive :: "u8 list \<Rightarrow> bool" where
  "drive name \<longleftrightarrow>
     2 \<le> length name \<and> name ! 1 = 0x3a \<and> (0x41 \<le> name ! 0 \<and> name ! 0 \<le> 0x5a \<or> 0x61 \<le> name ! 0 \<and> name ! 0 \<le> 0x7a)"

definition plain_name :: "target \<Rightarrow> u8 list \<Rightarrow> bool" where
  "plain_name t name \<longleftrightarrow>
     name \<noteq> [] \<and> utf8_valid name \<and> name \<noteq> ascii ''.'' \<and> name \<noteq> ascii ''..'' \<and>
     0 \<notin> set name \<and> 0x2f \<notin> set name \<and> 0x5c \<notin> set name \<and> \<not> (t = Windows \<and> drive name)"

lemma plain_name_iff:
  "plain_name t name \<longleftrightarrow>
     name \<noteq> [] \<and> utf8_valid name \<and> name \<noteq> ascii ''.'' \<and> \<not> forbidden_segment t name"
proof (cases name)
  case (Cons a bs)
  have "drive (a # bs) \<longleftrightarrow> (0x41 \<le> a \<and> a \<le> 0x5a \<or> 0x61 \<le> a \<and> a \<le> 0x7a) \<and> bs \<noteq> [] \<and> hd bs = 0x3a"
    by (cases bs) (auto simp: drive_def)
  with Cons show ?thesis
    unfolding plain_name_def forbidden_segment_def prefix_or_root_def by (simp, blast)
qed (simp add: plain_name_def)

lemma decode_bytes_nonempty: "decode_bytes raw = Inr s \<Longrightarrow> raw \<noteq> [] \<Longrightarrow> s \<noteq> []"
  by (cases raw) (auto simp: result_simps split: if_splits list.splits)

lemma push_segments_plain:
  assumes "push_segments t candidate raws = Inr c"
  shows "\<exists>names. c = candidate @ names \<and> list_all (plain_name t) names"
  using assms
proof (induction raws arbitrary: candidate)
  case (Cons raw raws)
  show ?case
  proof (cases "raw = []")
    case False
    with Cons.prems obtain segment where s: "percent_decode raw = Inr segment"
      by (auto simp: result_simps)
    with False have ok: "segment \<noteq> []" "utf8_valid segment"
      by (auto simp: percent_decode_def result_simps dest: decode_bytes_nonempty split: if_splits)
    show ?thesis
    proof (cases "segment = ascii ''.''")
      case True
      with Cons False s show ?thesis by simp
    next
      case nodot: False
      with Cons.prems False s have "\<not> forbidden_segment t segment"
        and rest: "push_segments t (candidate @ [segment]) raws = Inr c" by (auto split: if_splits)
      with ok nodot have "plain_name t segment" by (simp add: plain_name_iff)
      with Cons.IH [OF rest] show ?thesis by (auto intro: exI [of _ "segment # names" for names])
    qed
  qed (use Cons in simp)
qed simp

lemma percent_decode_valid: "percent_decode raw = Inr segment \<Longrightarrow> utf8_valid segment"
  by (auto simp: percent_decode_def result_simps split: if_splits)

lemma push_segments_allowed:
  "push_segments t candidate raws = Inr c \<Longrightarrow> raw \<in> set raws \<Longrightarrow>
     \<exists>segment. percent_decode raw = Inr segment \<and> (segment = [] \<or> segment = ascii ''.'' \<or> plain_name t segment)"
proof (induction raws arbitrary: candidate)
  case (Cons x raws)
  have empty: "percent_decode [] = Inr []" by (simp add: percent_decode_def)
  from Cons show ?case
    by (auto simp: result_simps empty plain_name_iff split: if_splits dest: percent_decode_valid)
qed simp

lemma plain_index_html: "plain_name t (ascii ''index.html'')"
  by (simp add: plain_name_iff forbidden_segment_def prefix_or_root_def ascii_def utf8_head_def)

section \<open>Encoded names\<close>

definition hex_digit :: "u8 \<Rightarrow> u8" where
  "hex_digit n = (if n < 10 then 0x30 + n else 0x37 + n)"

definition percent_encode :: "u8 list \<Rightarrow> u8 list" where
  "percent_encode name = concat (map (\<lambda>b. [0x25, hex_digit (drop_bit 4 b), hex_digit (b AND 0xf)]) name)"

lemma from_hex_digit:
  assumes "n < 16"
  shows "from_hex (hex_digit n) = Inr n"
proof -
  have "list_all (\<lambda>m. from_hex (hex_digit (of_nat m)) = Inr (of_nat m)) [0..<16]" by code_simp
  moreover have "unat n < 16" using assms by (simp add: word_less_nat_alt)
  ultimately have "from_hex (hex_digit (of_nat (unat n))) = Inr (of_nat (unat n))"
    unfolding list_all_iff by (metis atLeastLessThan_iff le0 set_upt)
  then show ?thesis by simp
qed

lemma byte_nibbles:
  fixes b :: u8
  shows "push_bit 4 (drop_bit 4 b) OR (b AND 0xf) = b" "drop_bit 4 b < 16" "b AND 0xf < 16"
proof -
  have mask: "(0xf :: u8) = mask 4" by (simp add: mask_eq_exp_minus_1)
  show "push_bit 4 (drop_bit 4 b) OR (b AND 0xf) = b"
    by (rule bit_word_eqI) (auto simp: mask bit_simps)
  have "unat b < 256" by (rule unat_u8_lt)
  then have "unat (drop_bit 4 b) < 16" by (simp add: drop_bit_eq_div unat_div_distrib less_mult_imp_div_less)
  then show "drop_bit 4 b < 16" by (simp add: word_less_nat_alt)
  have "unat (b AND 0xf) < 16" by (simp add: mask flip: take_bit_eq_mask) (simp add: take_bit_eq_mod unat_mod_distrib)
  then show "b AND 0xf < 16" by (simp add: word_less_nat_alt)
qed

lemma decode_encode: "decode_bytes (percent_encode name) = Inr name"
  by (induction name) (simp_all add: percent_encode_def from_hex_digit byte_nibbles)

lemma percent_decode_encode: "utf8_valid name \<Longrightarrow> percent_decode (percent_encode name) = Inr name"
  by (simp add: percent_decode_def decode_encode)

lemma hex_digit_not_slash: "n < 16 \<Longrightarrow> hex_digit n \<noteq> 0x2f"
proof
  assume "n < 16" and "hex_digit n = 0x2f"
  with from_hex_digit [of n] show False by (simp add: from_hex_def)
qed

lemma percent_encode_no_slash: "0x2f \<notin> set (percent_encode name)"
  using hex_digit_not_slash [OF byte_nibbles(2)] hex_digit_not_slash [OF byte_nibbles(3)]
  by (auto simp: percent_encode_def)

lemma percent_encode_eq_Nil [simp]: "percent_encode name = [] \<longleftrightarrow> name = []"
  by (cases name) (simp_all add: percent_encode_def)

text \<open>The path of a URI that names the components one by one.\<close>

definition uri_of :: "u8 list list \<Rightarrow> u8 list" where
  "uri_of names = concat (map (\<lambda>name. 0x2f # percent_encode name) names)"

lemma uri_of_append: "uri_of (xs @ ys) = uri_of xs @ uri_of ys"
  by (simp add: uri_of_def)

lemma split_on_last: "c \<notin> set xs \<Longrightarrow> split_on c xs = [xs]"
  by (induction xs) auto

lemma split_on_append: "c \<notin> set xs \<Longrightarrow> split_on c (xs @ c # ys) = xs # split_on c ys"
  by (induction xs) auto

lemma split_on_uri: "c \<notin> set xs \<Longrightarrow> c = 0x2f \<Longrightarrow> split_on c (xs @ uri_of names) = xs # map percent_encode names"
proof (induction names arbitrary: xs)
  case Nil
  then show ?case by (simp add: uri_of_def split_on_last)
next
  case (Cons name names)
  have "split_on c (xs @ uri_of (name # names)) = xs # split_on c (percent_encode name @ uri_of names)"
    using Cons.prems by (simp add: uri_of_def split_on_append)
  with Cons.IH [of "percent_encode name"] Cons.prems percent_encode_no_slash show ?case by simp
qed

lemma push_encoded:
  "list_all (plain_name t) names \<Longrightarrow> push_segments t c (map percent_encode names) = Inr (c @ names)"
  by (induction names arbitrary: c) (auto simp: plain_name_iff percent_decode_encode)

lemma last_uri_of:
  assumes "names \<noteq> []" and "list_all (plain_name t) names"
  shows "last (uri_of names) \<noteq> 0x2f"
proof -
  have "last names \<noteq> []" using assms by (metis last_in_set list_all_iff plain_name_iff)
  then have "percent_encode (last names) \<noteq> []" by simp
  moreover have "uri_of names = uri_of (butlast names) @ 0x2f # percent_encode (last names)"
    using uri_of_append [of "butlast names" "[last names]"] assms(1) by (simp add: uri_of_def)
  ultimately have "last (uri_of names) \<in> set (percent_encode (last names))" by simp
  with percent_encode_no_slash show ?thesis by metis
qed

section \<open>Requests\<close>

definition graphic :: "u8 \<Rightarrow> bool" where
  "graphic b \<longleftrightarrow> 0x21 \<le> b \<and> b \<le> 0x7e"

lemma lossy_ascii:
  "list_all (\<lambda>b. b < 0x80) xs \<Longrightarrow> from_utf8_lossy (xs @ ys) = xs @ from_utf8_lossy ys"
  by (induction xs) (simp_all add: utf8_head_def)

lemma white_space_graphic: "graphic b \<Longrightarrow> white_space (b # bs) = 0"
proof -
  assume "graphic b"
  then have "b \<noteq> 0xc2" "b \<noteq> 0xe1" "b \<noteq> 0xe2" "b \<noteq> 0xe3" "\<not> (9 \<le> b \<and> b \<le> 13)" "b \<noteq> 32"
    by (auto simp: graphic_def word_le_nat_alt)
  then show ?thesis by (simp add: white_space_def take_Cons')
qed

lemma split_whitespace_word:
  "list_all graphic w \<Longrightarrow> split_whitespace acc (w @ bs) = split_whitespace (acc @ w) bs"
  by (induction w arbitrary: acc) (simp_all add: split_whitespace.simps white_space_graphic)

lemma split_whitespace_space:
  "split_whitespace acc (32 # bs) = (if acc = [] then [] else [acc]) @ split_whitespace [] bs"
  by (simp add: split_whitespace.simps white_space_def)

text \<open>The status line's text for the codes the server uses.\<close>

definition reason_phrase :: "nat \<Rightarrow> string" where
  "reason_phrase status =
     (if status = 200 then ''OK'' else if status = 403 then ''Forbidden'' else if status = 404 then ''Not Found''
      else if status = 405 then ''Method Not Allowed'' else ''Internal Server Error'')"

definition render :: "response \<Rightarrow> u8 list" where
  "render r = plain_response (rs_status r) (reason_phrase (rs_status r)) (rs_content_type r) (rs_body r)"

lemma show_numbers: "show_nat 200 = ''200''" "show_nat 0 = ''0''"
  by code_simp+

lemma request_words:
  assumes "list_all graphic method" and "method \<noteq> []" and "list_all graphic target" and "target \<noteq> []"
  shows "first_line (from_utf8_lossy (method @ 32 # target @ 32 # ascii (''HTTP/1.1'' @ CRLF) @ rest)) =
           Some (method @ 32 # target @ 32 # ascii ''HTTP/1.1'')"
    and "split_whitespace [] (method @ 32 # target @ 32 # ascii ''HTTP/1.1'') = [method, target, ascii ''HTTP/1.1'']"
proof -
  let ?line = "method @ 32 # target @ 32 # ascii ''HTTP/1.1''"
  have line: "list_all (\<lambda>b. b < 0x80 \<and> b \<noteq> 10) ?line"
    using assms(1,3) by (auto simp: list_all_iff graphic_def ascii_def word_le_nat_alt word_less_nat_alt)
  then have "from_utf8_lossy (?line @ 13 # 10 # rest) = ?line @ 13 # 10 # from_utf8_lossy rest"
    by (subst lossy_ascii) (auto simp: list_all_iff utf8_head_def)
  moreover have "takeWhile (\<lambda>b. b \<noteq> 10) (?line @ 13 # 10 # from_utf8_lossy rest) = ?line @ [13]"
    using line by (subst takeWhile_append2) (auto simp: list_all_iff)
  ultimately show "first_line (from_utf8_lossy (method @ 32 # target @ 32 # ascii (''HTTP/1.1'' @ CRLF) @ rest)) = Some ?line"
    by (simp add: first_line_def ascii_def butlast_append)
  have "list_all graphic (ascii ''HTTP/1.1'')" "ascii ''HTTP/1.1'' \<noteq> []" by (simp_all add: ascii_def graphic_def)
  from split_whitespace_word [OF this(1), of "[]" "[]"] this(2) assms
  show "split_whitespace [] ?line = [method, target, ascii ''HTTP/1.1'']"
    by (simp add: split_whitespace_word split_whitespace_space split_whitespace.simps(1))
qed

lemma serve_request_reasons:
  "serve_request fs t root method path =
     (if method \<noteq> ascii ''GET'' \<and> method \<noteq> ascii ''HEAD'' then text_response 405 ''method not allowed''
      else response_for_path fs t root path (method = ascii ''HEAD''))"
proof -
  have "ascii ''GET'' \<noteq> ascii ''HEAD''" by (simp add: ascii_def)
  then show ?thesis by (simp add: serve_request_def)
qed

lemma render_text:
  "render (text_response 403 m) = plain_text 403 ''Forbidden'' m"
  "render (text_response 404 m) = plain_text 404 ''Not Found'' m"
  "render (text_response 405 m) = plain_text 405 ''Method Not Allowed'' m"
  "render (text_response 500 m) = plain_text 500 ''Internal Server Error'' m"
  by (simp_all add: render_def text_response_def reason_phrase_def)

lemma render_file:
  "render \<lparr>rs_status = 200, rs_content_type = ct, rs_body = body\<rparr> = plain_response 200 ''OK'' ct body"
  by (simp add: render_def reason_phrase_def)

lemma plain_response_eq:
  assumes "list_all graphic method" and "method \<noteq> []" and "list_all graphic target" and "target \<noteq> []"
  shows "plain_response_for_request fs t root (method @ 32 # target @ 32 # ascii (''HTTP/1.1'' @ CRLF) @ rest) =
         render (serve_request fs t root method (takeWhile (\<lambda>b. b \<noteq> 0x3f) target))"
proof -
  obtain path where path: "takeWhile (\<lambda>b. b \<noteq> 0x3f) target = path" by simp
  show ?thesis
    unfolding plain_response_for_request_def request_words(1) [OF assms] option.case Let_def request_words(2) [OF assms]
      serve_request_reasons response_for_path_def
    by (simp add: path render_text if_distrib [of render] split: sum.split ResolveError.split)
      (simp add: render_file render_text split: sum.split)
qed

text \<open>At least one byte per read is needed to go on.\<close>

lemma read_request_ends: "8193 \<le> length request + length reads \<Longrightarrow> read_request reads request \<noteq> None"
proof (induction reads arbitrary: request)
  case (Cons r reads)
  show ?case
  proof (cases r)
    case (Inr buffer)
    have "buffer \<noteq> [] \<Longrightarrow> read_request reads (request @ buffer) \<noteq> None"
      using Cons.prems by (intro Cons.IH) (cases buffer; simp)
    with Inr show ?thesis by (subst read_request.simps) simp
  qed (simp add: read_request.simps)
qed (simp add: read_request.simps)

lemma read_request_size:
  assumes "\<forall>r \<in> set reads. \<forall>buffer. r = Inr buffer \<longrightarrow> length buffer \<le> 1024"
    and "read_request reads request = Some (Inr result)"
  shows "length result \<le> 9216 \<and> (result = [] \<or> has_blank_line result)"
  using assms
proof (induction reads arbitrary: request)
  case (Cons r reads)
  from Cons.prems(2) Cons.prems(1) Cons.IH show ?case
    unfolding read_request.simps [of "r # reads" request] by (auto split: if_splits sum.splits)
qed (simp add: read_request.simps split: if_splits)

text \<open>A file system with one page in one directory.\<close>

definition one_page :: file_system where
  "one_page =
     \<lparr>fs_is_dir = (\<lambda>p. p = [ascii ''srv'']), fs_is_file = (\<lambda>p. p = [ascii ''srv'', ascii ''a.txt'']),
      fs_canonicalize = (\<lambda>p. if p \<in> {[ascii ''srv''], [ascii ''srv'', ascii ''a.txt'']} then Inr p
        else Inl \<lparr>error_kind = KindNotFound, error_text = ''not found''\<rparr>),
      fs_read = (\<lambda>p. Inr (ascii ''hello''))\<rparr>"

lemmas resolve_eval =
  resolve_path_def one_page_def percent_decode_def from_hex_def forbidden_segment_def prefix_or_root_def
  ascii_def utf8_head_def

section \<open>Properties\<close>

text \<open>C12. No request escapes the root directory. A path that is resolved is a file at or below the root, and
  the only path that the file system was asked to canonicalise is the root followed by plain
  names: non-empty, without separators, NUL bytes or a drive, and neither \<open>.\<close> nor \<open>..\<close>. Each
  segment of a URI that is resolved decodes to such a name, to nothing or to \<open>.\<close>.\<close>

theorem resolved_path_below_root:
  assumes "resolve_path fs t root uri = Inr p"
  shows "prefix root p \<and> fs_is_file fs p \<and>
         (\<exists>names. list_all (plain_name t) names \<and> fs_canonicalize fs (root @ names) = Inr p) \<and>
         (\<forall>raw \<in> set (split_on 0x2f uri). \<exists>segment. percent_decode raw = Inr segment \<and>
            (segment = [] \<or> segment = ascii ''.'' \<or> plain_name t segment))"
proof -
  from assms obtain c where c: "push_segments t root (split_on 0x2f uri) = Inr c" and
    found: "(let candidate = if fs_is_dir fs c \<or> (uri \<noteq> [] \<and> last uri = 0x2f) then c @ [ascii ''index.html''] else c
      in case fs_canonicalize fs candidate of
        Inl error \<Rightarrow> Inl (if error_kind error = KindNotFound then NotFound else Forbidden)
      | Inr canonical \<Rightarrow>
          if \<not> prefix root canonical then Inl Forbidden
          else if \<not> fs_is_file fs canonical then Inl NotFound else Inr canonical) = Inr p"
    unfolding resolve_path_def and_then_eq_Inr by blast
  obtain more where more: "more \<in> {[], [ascii ''index.html'']}" and
    p: "prefix root p" "fs_is_file fs p" "fs_canonicalize fs (c @ more) = Inr p"
  proof (cases "fs_is_dir fs c \<or> (uri \<noteq> [] \<and> last uri = 0x2f)")
    case True
    with found that [of "[ascii ''index.html'']"] show ?thesis
      by (cases "fs_canonicalize fs (c @ [ascii ''index.html''])") (simp_all split: if_splits)
  next
    case False
    with found that [of "[]"] show ?thesis
      by (cases "fs_canonicalize fs c") (simp_all split: if_splits)
  qed
  from push_segments_plain [OF c] obtain names where "c = root @ names" "list_all (plain_name t) names" by blast
  with p(3) more plain_index_html have "\<exists>names. list_all (plain_name t) names \<and> fs_canonicalize fs (root @ names) = Inr p"
    by (intro exI [of _ "names @ more"]) auto
  with p(1,2) push_segments_allowed [OF c] show ?thesis by blast
qed

theorem resolved_path_below_root_witness:
  "resolve_path one_page Linux [ascii ''srv''] (ascii ''/./%61.txt'') = Inr [ascii ''srv'', ascii ''a.txt''] \<and>
   prefix [ascii ''srv''] [ascii ''srv'', ascii ''a.txt''] \<and>
   resolve_path one_page Linux [ascii ''srv''] (ascii ''/%2e%2E/a.txt'') = Inl Forbidden"
proof -
  have r: "resolve_path one_page Linux [ascii ''srv''] (ascii ''/./%61.txt'') = Inr [ascii ''srv'', ascii ''a.txt'']"
    by (simp add: resolve_eval)
  have "resolve_path one_page Linux [ascii ''srv''] (ascii ''/%2e%2E/a.txt'') = Inl Forbidden"
    by (simp add: resolve_eval)
  with resolved_path_below_root [OF r] r show ?thesis by simp
qed

text \<open>Every plain file can be reached: the path that spells its names out with all bytes percent-encoded
  resolves to what the file system makes of them, whatever the bytes of the names.\<close>

lemma encoded_path_resolves:
  assumes "names \<noteq> []" and "list_all (plain_name t) names" and "\<not> fs_is_dir fs (root @ names)"
    and "fs_canonicalize fs (root @ names) = Inr p" and "prefix root p" and "fs_is_file fs p"
  shows "resolve_path fs t root (uri_of names) = Inr p"
proof -
  have "push_segments t root (split_on 0x2f (uri_of names)) = Inr (root @ names)"
    using split_on_uri [of "0x2f" "[]" names] push_encoded [OF assms(2)] by simp
  with last_uri_of [OF assms(1,2)] assms(3-6) show ?thesis by (simp add: resolve_path_def Let_def)
qed

text \<open>C36. The two builds of the server answer alike: the response that the async-std build writes for a request
  is the rendering of the response that the tokio build returns for its method and path, with
  the query cut off, whatever the rest of the request. To a \<open>HEAD\<close> for an existing file the
  async-std build announces a content of length 0, whatever the size of the file.\<close>

theorem plain_and_hyper_agree:
  assumes "list_all graphic method" and "method \<noteq> []" and "list_all graphic target" and "target \<noteq> []"
    and "request = method @ 32 # target @ 32 # ascii (''HTTP/1.1'' @ CRLF) @ rest"
    and "r = serve_request fs t root method (takeWhile (\<lambda>b. b \<noteq> 0x3f) target)"
  shows "plain_response_for_request fs t root request = render r \<and>
         (method = ascii ''HEAD'' \<and> rs_status r = 200 \<longrightarrow>
           prefix (ascii (''HTTP/1.1 200 OK'' @ CRLF @ ''Content-Length: 0'' @ CRLF)) (plain_response_for_request fs t root request))"
proof -
  note eq = plain_response_eq [OF assms(1-4), of fs t root rest, folded assms(5,6)]
  have "rs_body r = []" if "method = ascii ''HEAD''" "rs_status r = 200"
    using that assms(6)
    by (auto simp: serve_request_def response_for_path_def text_response_def ascii_def
        split: sum.splits ResolveError.splits if_splits)
  then have "prefix (ascii (''HTTP/1.1 200 OK'' @ CRLF @ ''Content-Length: 0'' @ CRLF)) (render r)"
    if "method = ascii ''HEAD''" "rs_status r = 200"
    using that by (simp add: render_def plain_response_def reason_phrase_def show_numbers ascii_def)
  with eq show ?thesis by simp
qed

theorem plain_and_hyper_agree_witness:
  "prefix (ascii (''HTTP/1.1 200 OK'' @ CRLF @ ''Content-Length: 0'' @ CRLF))
     (plain_response_for_request one_page Linux [ascii ''srv'']
       (ascii ''HEAD'' @ 32 # ascii ''/a.txt?v=2'' @ 32 # ascii (''HTTP/1.1'' @ CRLF) @ [0xff])) \<and>
   rs_body (serve_request one_page Linux [ascii ''srv''] (ascii ''GET'') (ascii ''/a.txt'')) = ascii ''hello''"
proof -
  let ?m = "ascii ''HEAD''" and ?target = "ascii ''/a.txt?v=2''"
  have words: "list_all graphic ?m" "?m \<noteq> []" "list_all graphic ?target" "?target \<noteq> []"
    by (simp_all add: ascii_def graphic_def)
  have path: "takeWhile (\<lambda>b. b \<noteq> 0x3f) ?target = ascii ''/a.txt''" by (simp add: ascii_def)
  have r: "resolve_path one_page Linux [ascii ''srv''] (ascii ''/a.txt'') = Inr [ascii ''srv'', ascii ''a.txt'']"
    by (simp add: resolve_eval)
  then have "rs_status (serve_request one_page Linux [ascii ''srv''] ?m (ascii ''/a.txt'')) = 200"
    "rs_body (serve_request one_page Linux [ascii ''srv''] (ascii ''GET'') (ascii ''/a.txt'')) = ascii ''hello''"
    by (simp_all add: serve_request_reasons response_for_path_def) (simp_all add: one_page_def ascii_def)
  with plain_and_hyper_agree [OF words refl refl, of one_page Linux "[ascii ''srv'']" "[0xff]", unfolded path]
  show ?thesis by blast
qed

text \<open>C37. A request is read within bounds: when a read gives at most the 1024 bytes of the buffer, the request
  that is passed on has at most 9216 bytes and a blank line, or is empty because the stream
  ended; and the server waits for at most 8193 reads before it decides.\<close>

theorem request_reading_bounded:
  assumes "\<forall>r \<in> set reads. \<forall>buffer. r = Inr buffer \<longrightarrow> length buffer \<le> 1024"
  shows "(8192 < length reads \<longrightarrow> read_request reads [] \<noteq> None) \<and>
         (\<forall>request. read_request reads [] = Some (Inr request) \<longrightarrow>
            length request \<le> 9216 \<and> (request = [] \<or> has_blank_line request))"
  using read_request_ends [of "[]" reads] read_request_size [OF assms, of "[]"] by simp

theorem request_reading_bounded_witness:
  "read_request [Inr (ascii (''GET / HTTP/1.1'' @ CRLF)), Inr (ascii CRLF)] [] =
     Some (Inr (ascii (''GET / HTTP/1.1'' @ CRLF @ CRLF))) \<and> length (ascii (''GET / HTTP/1.1'' @ CRLF @ CRLF)) \<le> 9216"
proof -
  let ?reads = "[Inr (ascii (''GET / HTTP/1.1'' @ CRLF)), Inr (ascii CRLF)]"
  have r: "read_request ?reads [] = Some (Inr (ascii (''GET / HTTP/1.1'' @ CRLF @ CRLF)))"
    by (simp add: read_request.simps has_blank_line_def ascii_def)
  have "\<forall>r \<in> set ?reads. \<forall>buffer. r = Inr buffer \<longrightarrow> length buffer \<le> 1024" by (auto simp: ascii_def)
  from request_reading_bounded [OF this] r show ?thesis by blast
qed

end
