(* ===== verification/Example_Programs.thy ===== *)
theory Example_Programs
  imports Addr_Text Echo_Handlers Udp_Server Tcp_Server Static_Files
begin

text \<open>
  The programs that come with the crate (\<open>examples/tcp_echo.rs\<close>, \<open>udp_server.rs\<close>,
  \<open>udp_serve_socket.rs\<close> and \<open>hyper_static.rs\<close>): their command lines, and how they start a runtime and
  a server on it. The handlers they pass to the server are in \<open>Echo_Handlers\<close> and \<open>Static_Files\<close>;
  the server's tasks do not depend on them. What a program prints is not modelled.
\<close>

section \<open>Command lines\<close>

record UdpArgs =
  ua_addr :: SocketAddr
  ua_workers :: usize

text \<open>The arguments after the name of the program. \<open>None\<close> stands for the exit after the usage text.\<close>

fun udp_args_loop :: "string list \<Rightarrow> UdpArgs \<Rightarrow> UdpArgs option result" where
  "udp_args_loop [] args = Inr (Some args)"
| "udp_args_loop (arg # rest) args =
     (if arg = ''--addr'' then
        (case rest of
           [] \<Rightarrow> Inl (InvalidConfig ''--addr requires a socket address'')
         | value # rest \<Rightarrow>
             (case parse_socket_addr value of
                Inl error \<Rightarrow> Inl (InvalidConfig (''invalid --addr value `'' @ value @ ''`: '' @ error))
              | Inr addr \<Rightarrow> udp_args_loop rest (args\<lparr>ua_addr := addr\<rparr>)))
      else if arg = ''--workers'' then
        (case rest of
           [] \<Rightarrow> Inl (InvalidConfig ''--workers requires a positive integer'')
         | value # rest \<Rightarrow>
             (case parse_usize value of
                Inl error \<Rightarrow> Inl (InvalidConfig (''invalid --workers value `'' @ value @ ''`: '' @ error))
              | Inr workers \<Rightarrow>
                  if workers = 0 then Inl (InvalidConfig ''--workers must be greater than zero'')
                  else udp_args_loop rest (args\<lparr>ua_workers := workers\<rparr>)))
      else if arg = ''--help'' \<or> arg = ''-h'' then Inr None
      else Inl (InvalidConfig (''unknown argument `'' @ arg @ ''`; use --help'')))"

definition default_addr :: "string \<Rightarrow> SocketAddr result" where
  "default_addr text =
     map_err (\<lambda>error. InvalidConfig (''invalid default address: '' @ error)) (parse_socket_addr text)"

definition udp_server_parse :: "string list \<Rightarrow> UdpArgs option result" where
  "udp_server_parse args =
     and_then (default_addr ''127.0.0.1:7001'') (\<lambda>addr.
     udp_args_loop args \<lparr>ua_addr = addr, ua_workers = 4\<rparr>)"

text \<open>The loop of \<open>udp_serve_socket.rs\<close> is the same, only the default address differs.\<close>

definition udp_serve_socket_parse :: "string list \<Rightarrow> UdpArgs option result" where
  "udp_serve_socket_parse args =
     and_then (default_addr ''127.0.0.1:7002'') (\<lambda>addr.
     udp_args_loop args \<lparr>ua_addr = addr, ua_workers = 4\<rparr>)"

record StaticArgs =
  sa_addr :: SocketAddr
  sa_root :: string

fun static_args_loop :: "string list \<Rightarrow> StaticArgs \<Rightarrow> StaticArgs option result" where
  "static_args_loop [] args = Inr (Some args)"
| "static_args_loop (arg # rest) args =
     (if arg = ''--addr'' then
        (case rest of
           [] \<Rightarrow> Inl (InvalidConfig ''--addr requires a socket address'')
         | value # rest \<Rightarrow>
             (case parse_socket_addr value of
                Inl error \<Rightarrow> Inl (InvalidConfig (''invalid --addr value `'' @ value @ ''`: '' @ error))
              | Inr addr \<Rightarrow> static_args_loop rest (args\<lparr>sa_addr := addr\<rparr>)))
      else if arg = ''--root'' then
        (case rest of
           [] \<Rightarrow> Inl (InvalidConfig ''--root requires a directory path'')
         | value # rest \<Rightarrow> static_args_loop rest (args\<lparr>sa_root := value\<rparr>))
      else if arg = ''--help'' \<or> arg = ''-h'' then Inr None
      else Inl (InvalidConfig (''unknown argument `'' @ arg @ ''`; use --help'')))"

definition static_parse :: "string io_result \<Rightarrow> string list \<Rightarrow> StaticArgs option result" where
  "static_parse current_dir args =
     and_then (default_addr ''127.0.0.1:8080'') (\<lambda>addr.
     and_then (map_err error_from current_dir) (\<lambda>root.
     static_args_loop args \<lparr>sa_addr = addr, sa_root = root\<rparr>))"

text \<open>
  The root as given is text, which may be relative; \<open>canonicalize\<close> is what the file system makes of
  it and \<open>display\<close> the text of a path.
\<close>

definition canonical_root ::
    "(string \<Rightarrow> path io_result) \<Rightarrow> (path \<Rightarrow> string) \<Rightarrow> file_system \<Rightarrow> string \<Rightarrow> path result" where
  "canonical_root canonicalize display fs root =
     and_then (map_err (\<lambda>error. InvalidConfig (''static root `'' @ root @ ''` is invalid: '' @ error_text error))
       (canonicalize root)) (\<lambda>root.
     if \<not> fs_is_dir fs root
     then Inl (InvalidConfig (''static root `'' @ display root @ ''` is not a directory''))
     else Inr root)"

section \<open>Starting\<close>

text \<open>What a program finds: processors, threads, the platform and the runtime it was built for.\<close>

record 'ex host =
  h_cpus :: nat
  h_spawn_thread :: "string \<Rightarrow> 'ex thread_result"
  h_current :: nat
  h_target :: target
  h_runtime :: runtime
  h_world :: world

text \<open>A server is set up on a fresh runtime; afterwards the program waits forever.\<close>

definition serve_on ::
    "'ex host \<Rightarrow> ServerRuntimeConfig \<Rightarrow> 'sv \<Rightarrow> ('ex, 'sv, unit result) dep \<Rightarrow> ('ex, 'sv) deployment result" where
  "serve_on h config server serve =
     and_then (map_err fst (start (h_cpus h) (h_spawn_thread h) config)) (\<lambda>runtime.
     case run_state serve \<lparr>d_world = h_world h, d_runtime = runtime, d_server = server\<rparr> of
       (r, d) \<Rightarrow> map_ok (\<lambda>_. d) r)"

definition tcp_echo_run ::
    "'ex host \<Rightarrow> (tcp_task, 'ex, 'h) spawner \<Rightarrow> ('ex, 'h TcpServerState) deployment result" where
  "tcp_echo_run h spawn =
     and_then (map_err (\<lambda>error. InvalidConfig (''invalid bind address: '' @ error))
       (parse_socket_addr ''127.0.0.1:7000'')) (\<lambda>addr.
     serve_on h (with_workers runtime_config_new 4) tcp_state_new
       (tcp_serve_with_state spawn (h_current h) (h_target h) (tcp_config_new addr)))"

definition udp_server_run ::
    "'ex host \<Rightarrow> (udp_task, 'ex, 'h) spawner \<Rightarrow> string list \<Rightarrow> ('ex, 'h UdpServerState) deployment option result" where
  "udp_server_run h spawn argv =
     and_then (udp_server_parse argv) (\<lambda>parsed.
     case parsed of
       None \<Rightarrow> Inr None
     | Some args \<Rightarrow>
         map_ok Some (serve_on h (with_workers runtime_config_new (ua_workers args)) udp_state_new
           (udp_serve_with_state spawn (h_current h) (h_target h) (h_runtime h) (udp_config_new (ua_addr args)))))"

definition udp_serve_socket_run ::
    "'ex host \<Rightarrow> (udp_task, 'ex, 'h) spawner \<Rightarrow> string list \<Rightarrow> ('ex, 'h UdpServerState) deployment option result" where
  "udp_serve_socket_run h spawn argv =
     and_then (udp_serve_socket_parse argv) (\<lambda>parsed.
     case parsed of
       None \<Rightarrow> Inr None
     | Some args \<Rightarrow>
         map_ok Some (serve_on h (with_workers runtime_config_new (ua_workers args)) udp_state_new
           (udp_serve_socket spawn (h_current h) (h_target h) (h_runtime h) (udp_config_new (ua_addr args)))))"

text \<open>Both builds of the file server start alike; they differ in the handler. The root is kept for it.\<close>

definition static_run ::
    "'ex host \<Rightarrow> (tcp_task, 'ex, 'h) spawner \<Rightarrow> (string \<Rightarrow> path io_result) \<Rightarrow> (path \<Rightarrow> string) \<Rightarrow> file_system \<Rightarrow>
     string io_result \<Rightarrow> string list \<Rightarrow> (path \<times> ('ex, 'h TcpServerState) deployment) option result" where
  "static_run h spawn canonicalize display fs current_dir argv =
     and_then (static_parse current_dir argv) (\<lambda>parsed.
     case parsed of
       None \<Rightarrow> Inr None
     | Some args \<Rightarrow>
         and_then (canonical_root canonicalize display fs (sa_root args)) (\<lambda>root.
         map_ok (\<lambda>d. Some (root, d)) (serve_on h runtime_config_new tcp_state_new
           (tcp_serve_with_state spawn (h_current h) (h_target h) (tcp_config_new (sa_addr args))))))"

section \<open>Command lines are read back\<close>

text \<open>The options of the UDP programs, their texts and their effects.\<close>

datatype udp_option = AddrOption SocketAddr | WorkersOption usize

fun option_text :: "udp_option \<Rightarrow> string list" where
  "option_text (AddrOption a) = [''--addr'', addr_text a]"
| "option_text (WorkersOption n) = [''--workers'', show_nat n]"

fun option_ok :: "udp_option \<Rightarrow> bool" where
  "option_ok (AddrOption (SocketAddrV4 a p)) \<longleftrightarrow> True"
| "option_ok (AddrOption (SocketAddrV6 a p flow scope)) \<longleftrightarrow> flow = 0"
| "option_ok (WorkersOption n) \<longleftrightarrow> 0 < n \<and> n < 2 ^ 64"

fun set_option_value :: "UdpArgs \<Rightarrow> udp_option \<Rightarrow> UdpArgs" where
  "set_option_value args (AddrOption a) = args\<lparr>ua_addr := a\<rparr>"
| "set_option_value args (WorkersOption n) = args\<lparr>ua_workers := n\<rparr>"

lemma parse_option_addr: "option_ok (AddrOption a) \<Longrightarrow> parse_socket_addr (addr_text a) = Inr a"
  by (intro parse_addr_text) auto

lemma udp_args_loop_options:
  "list_all option_ok opts \<Longrightarrow>
     udp_args_loop (concat (map option_text opts)) args = Inr (Some (foldl set_option_value args opts))"
proof (induction opts arbitrary: args)
  case (Cons opt opts)
  then show ?case by (cases opt) (simp_all add: parse_option_addr parse_usize_show_nat)
qed simp

lemma usize_digits_less: "usize_digits v s = Inr n \<Longrightarrow> v < 2 ^ 64 \<Longrightarrow> n < 2 ^ 64"
  by (induction v s rule: usize_digits.induct) (auto split: option.splits if_splits)

lemma parse_usize_less: "parse_usize s = Inr n \<Longrightarrow> n < 2 ^ 64"
  using usize_digits_less [of 0 _ n] by (auto simp: parse_usize_def split: if_splits)

lemma udp_args_loop_workers:
  "udp_args_loop argv args = Inr (Some args') \<Longrightarrow> ua_workers args \<in> {0<..<2 ^ 64} \<Longrightarrow> ua_workers args' \<in> {0<..<2 ^ 64}"
proof (induction argv args rule: udp_args_loop.induct)
  case (2 arg rest args)
  consider (addr) s more a where "arg = ''--addr''" "rest = s # more" "parse_socket_addr s = Inr a"
      "udp_args_loop more (args\<lparr>ua_addr := a\<rparr>) = Inr (Some args')"
    | (workers) s more n where "arg = ''--workers''" "rest = s # more" "parse_usize s = Inr n" "n \<noteq> 0"
      "udp_args_loop more (args\<lparr>ua_workers := n\<rparr>) = Inr (Some args')"
    using "2.prems"(1) by (auto split: if_splits list.splits sum.splits)
  then show ?case
  proof cases
    case addr
    with "2.prems"(2) show ?thesis by (intro "2.IH"(1)) auto
  next
    case workers
    then show ?thesis using parse_usize_less [OF workers(3)] by (intro "2.IH"(2)) auto
  qed
qed simp

lemma default_addrs:
  "default_addr ''127.0.0.1:7001'' = Inr (SocketAddrV4 LOCALHOST4 7001)"
  "default_addr ''127.0.0.1:7002'' = Inr (SocketAddrV4 LOCALHOST4 7002)"
  "default_addr ''127.0.0.1:8080'' = Inr (SocketAddrV4 LOCALHOST4 8080)"
  by (simp_all add: default_addr_def map_err_def parse_socket_addr_def read_socket_addr_v4_def read_ipv4_addr_def
      read_octet_def read_port_def read_separator_def p_then_def p_return_def read_number_def to_digit_def
      digits_value_def read_given_char_def LOCALHOST4_def)

section \<open>A started program\<close>

text \<open>A thread that was created sends back the handle of an executor that it has just made.\<close>

definition fresh_threads :: "(string \<Rightarrow> 't executor thread_result) \<Rightarrow> bool" where
  "fresh_threads st \<longleftrightarrow> (\<forall>name ex owner. st name = Inr (Some (ex, owner)) \<longrightarrow> ex = executor_new)"

lemma serve_on_Inr:
  assumes "serve_on h config server serve = Inr d"
  shows "\<exists>rt. start (h_cpus h) (h_spawn_thread h) config = Inr rt \<and>
     run_state serve \<lparr>d_world = h_world h, d_runtime = rt, d_server = server\<rparr> = (Inr (), d)"
  using assms by (auto simp: serve_on_def result_simps case_prod_unfold prod_eq_iff)

lemma start_fresh:
  assumes "start cpus st config = Inr rt" and "fresh_threads st"
  shows "all_open rt \<and> (\<forall>i < worker_count rt. ex_commands (exec_of rt i) = []) \<and> 0 < worker_count rt \<and>
     (\<forall>n. config_workers config = Fixed n \<longrightarrow> worker_count rt = n)"
proof -
  from start_all_or_report [where num_cpus = cpus and st = st and config = config] assms(1) have
    w: "0 < worker_count rt"
      "worker_count rt = (case config_workers config of DefaultWorkers \<Rightarrow> max cpus 1 | Fixed n \<Rightarrow> n)"
    and each: "\<forall>i < worker_count rt. \<exists>ex owner. st (worker_name i) = Inr (Some (ex, owner)) \<and>
        rt_workers rt ! i = \<lparr>wh_executor = ex, wh_owner = owner, wh_shutdown = True, wh_join = True\<rparr>"
    by simp_all
  have "exec_of rt i = executor_new" if "i < worker_count rt" for i
    using each assms(2) that by (fastforce simp: fresh_threads_def)
  then have "all_open rt" "\<forall>i < worker_count rt. ex_commands (exec_of rt i) = []"
    by (simp_all add: all_open_def executor_new_def worker_count_def)
  with w show ?thesis by simp
qed

text \<open>What a worker is given when the tasks are queued on a fresh runtime.\<close>

lemma queued_on_fresh:
  assumes "queued_on rt rt' hs ts" and "\<forall>i < worker_count rt. ex_commands (exec_of rt i) = []" and "i < worker_count rt"
  shows "\<exists>ids. length ids = length (for_worker_id i ts) \<and>
     ex_commands (exec_of rt' i) = map2 Spawn ids (for_worker_id i ts)"
  using assms for_worker_id_length [of hs ts i]
  by (intro exI [of _ "for_worker_id i hs"]) (auto simp: queued_on_def worker_count_def)

lemma udp_tasks_for_worker:
  assumes "i < n" and "length fds = (if t = Windows then 1 else n)"
  shows "for_worker_id i (udp_tasks_of t rt config n fds) \<noteq> []"
  using assms by (auto simp: udp_tasks_of_def for_worker_id_enumerate for_worker_id_each)

text \<open>A host on which everything succeeds; its address 0.0.0.0:53 is that of the calm system above.\<close>

definition calm_host :: "'t executor host" where
  "calm_host =
     \<lparr>h_cpus = 8, h_spawn_thread = (\<lambda>name. Inr (Some (executor_new, length name))), h_current = 0,
      h_target = Linux, h_runtime = Tokio, h_world = calm_world\<rparr>"

abbreviation two_worker_options :: "udp_option list" where
  "two_worker_options \<equiv> [WorkersOption 2, AddrOption (SocketAddrV4 0 53)]"

lemma two_worker_text:
  "concat (map option_text two_worker_options) = [''--workers'', ''2'', ''--addr'', ''0.0.0.0:53'']"
  by (simp add: ipv4_text_def be_byte_def show_nat.simps char_of_def bit_0)

lemma calm_fresh: "fresh_threads (h_spawn_thread calm_host)"
  by (simp add: fresh_threads_def calm_host_def)

lemma calm_udp_server:
  assumes "udp_server_parse argv = Inr (Some \<lparr>ua_addr = SocketAddrV4 0 53, ua_workers = 2\<rparr>)"
  shows "\<exists>d. udp_server_run calm_host tokio_spawn argv = Inr (Some d)"
proof -
  let ?c = "udp_config_new (SocketAddrV4 0 53)"
  obtain rt :: "udp_task executor ServerRuntime" where
    rt: "start 8 (h_spawn_thread calm_host) (with_workers runtime_config_new 2) = Inr rt"
    by (simp add: start_def config_simps calm_host_def start_worker_def and_then_def ok_or_def map_err_def map_ok_def
        numeral_2_eq_2)
  have f: "all_open rt" "worker_count rt = 2"
    using start_fresh [OF rt calm_fresh] by (simp_all add: config_simps)
  let ?d = "\<lparr>d_world = calm_world, d_runtime = rt, d_server = udp_state_new :: nat UdpServerState\<rparr>"
  from calm_bind_udp obtain fds w where b: "run_state (bind_udp_workers Linux ?c 2) calm_world = (Inr fds, w)" "length fds = 2"
    by blast
  let ?ts = "udp_tasks_of Linux Tokio ?c 2 fds"
  have "\<forall>(i, task) \<in> set ?ts. i < length (rt_workers (d_runtime (?d\<lparr>d_world := w\<rparr>)))"
    using b(2) f(2) by (auto simp: udp_tasks_of_def in_set_enumerate_eq worker_count_def)
  from udp_submit_tasks [OF this, of 0] f(1) obtain d where
    "run_state (submit_all tokio_spawn 0 udp_register_task ?ts) (?d\<lparr>d_world := w\<rparr>) = (Inr (), d)"
    by (auto simp: udp_state_new_def)
  with udp_serve_native(1) [of Linux ?d ?c fds w tokio_spawn 0 Tokio] b f(2)
  have "run_state (udp_serve_with_state tokio_spawn 0 Linux Tokio ?c) ?d = (Inr (), d)"
    by (simp add: config_simps)
  with rt assms show ?thesis
    by (simp add: udp_server_run_def serve_on_def and_then_def map_err_def map_ok_def calm_host_def)
qed

section \<open>Properties\<close>

text \<open>C40. The command lines of the UDP programs mean what they say: options with any addresses and worker counts,
  in any order and number, are all read back, a later one overriding an earlier one and the
  defaults standing in for the rest. And no arguments whatsoever are accepted with a worker count
  of zero or one that does not fit its type.\<close>

theorem udp_command_line:
  assumes "list_all option_ok opts"
  shows "udp_server_parse (concat (map option_text opts)) =
           Inr (Some (foldl set_option_value \<lparr>ua_addr = SocketAddrV4 LOCALHOST4 7001, ua_workers = 4\<rparr> opts)) \<and>
         udp_serve_socket_parse (concat (map option_text opts)) =
           Inr (Some (foldl set_option_value \<lparr>ua_addr = SocketAddrV4 LOCALHOST4 7002, ua_workers = 4\<rparr> opts)) \<and>
         (\<forall>argv args. udp_server_parse argv = Inr (Some args) \<or> udp_serve_socket_parse argv = Inr (Some args) \<longrightarrow>
            0 < ua_workers args \<and> ua_workers args < 2 ^ 64)"
proof -
  have "0 < ua_workers args \<and> ua_workers args < 2 ^ 64"
    if "udp_args_loop argv \<lparr>ua_addr = a, ua_workers = 4\<rparr> = Inr (Some args)" for argv a args
    using udp_args_loop_workers [OF that] by simp
  with udp_args_loop_options [OF assms] show ?thesis
    by (auto simp: udp_server_parse_def udp_serve_socket_parse_def default_addrs and_then_def)
qed

theorem udp_command_line_witness:
  "udp_server_parse [''--workers'', ''2'', ''--addr'', ''0.0.0.0:53''] =
     Inr (Some \<lparr>ua_addr = SocketAddrV4 0 53, ua_workers = 2\<rparr>)"
  using udp_command_line [of two_worker_options] unfolding two_worker_text by simp



end
