(* ===== verification/Spec2Isabelle.thy ===== *)
theory Spec2Isabelle
  imports Quic_Server Example_Programs
begin

text \<open>
  A model of the crate sfo-reuseport (\<open>src/src\<close>) and of the programs that come with it
  (\<open>src/examples\<close>), with the theorems that make it correct.

  \<^bold>\<open>The program.\<close> A server runtime owns a fixed number of worker threads, each with an executor of
  its own. TCP, UDP and QUIC servers bind sockets and submit tasks to the workers. Where the kernel
  balances load (\<open>SO_REUSEPORT\<close>), every worker has a socket; elsewhere one task receives
  everything and passes it to the worker that a hash of the addresses selects. QUIC needs more:
  all packets of a connection must reach the worker that issued its connection id, whatever
  address they come from. The id starts with the index of its worker. On Linux a BPF program reads
  the index in the kernel; before the sockets are used, a probe to every worker checks that it
  does. If that fails the server routes in user space by the same index. The work of each worker
  is bounded by permits. Closing a server cancels the tasks it started.

  \<^bold>\<open>Theories and sources.\<close> Each theory below imports the ones whose operations it calls.

    \<^item> \<open>Reuseport_Prelude\<close>: machine integers, \<open>Result\<close> as a sum type with the question-mark operator,
      slices, byte orders, decimal printing; the collections of rewrite rules.
    \<^item> \<open>Net_Addr\<close>: the part of \<open>std::net\<close> that is used. \<open>Errors\<close>: \<open>core/error.rs\<close>.
      \<open>Config\<close>: \<open>core/config.rs\<close>.
    \<^item> \<open>Schedule\<close>: \<open>core/schedule.rs\<close>, the flow hash. \<open>Cid\<close>: \<open>core/cid.rs\<close>, connection ids.
      \<open>Quic_Route\<close>: \<open>quic_worker_index\<close> and its helpers in \<open>core/quic.rs\<close>.
    \<^item> \<open>Linux_Bpf\<close>: the two programs of \<open>platform/linux.rs\<close> as the instructions that the source
      encodes, with interpreters for both instruction sets.
    \<^item> \<open>Os_World\<close>: the operating system as a record of answers and the log of calls.
      \<open>Platform\<close>: \<open>platform/mod.rs\<close> and the socket options of \<open>linux.rs\<close>, \<open>bsd.rs\<close>, \<open>windows.rs\<close> and
      \<open>unix.rs\<close>. \<open>Quic_Reuseport\<close>: binding, attaching and probing in \<open>linux.rs\<close>. \<open>Orig_Dst\<close>: receiving
      with the original destination.
    \<^item> \<open>Concurrency\<close>: \<open>core/concurrency.rs\<close>, with one step per atomic access.
    \<^item> \<open>Tokio_Executor\<close>: \<open>runtime/tokio.rs\<close>. \<open>Executor_Spec\<close>: the contract of an executor and
      \<open>runtime/async_std.rs\<close>. \<open>Server_Runtime\<close>: \<open>core/server_runtime.rs\<close>.
    \<^item> \<open>Serve_Loop\<close>: the effects that all server loops share, as a trace. \<open>Deploy\<close>: submission,
      registration and cancellation of a server's tasks.
    \<^item> \<open>Tcp_Server\<close>: \<open>core/tcp.rs\<close>. \<open>Udp_Socket\<close>, \<open>Udp_State\<close>, \<open>Udp_Loops\<close> and \<open>Udp_Server\<close>:
      \<open>core/udp.rs\<close> and the socket functions of the runtimes. \<open>Quic_Loops\<close> and \<open>Quic_Server\<close>: the rest
      of \<open>core/quic.rs\<close>.
    \<^item> \<open>Static_Files\<close>: the request handling of \<open>examples/hyper_static.rs\<close>. \<open>Echo_Handlers\<close>: the handlers of
      \<open>examples/tcp_echo.rs\<close>, \<open>udp_server.rs\<close> and \<open>udp_serve_socket.rs\<close>. \<open>Example_Programs\<close>: the command
      lines of the examples and how each starts its runtime and its server. \<open>Addr_Text\<close>: the parsers of
      the standard library for socket addresses and numbers, on which the command lines rely.
    \<^item> This theory: the property that spans the connection ids, the kernel programs, the binding and
      the loops.

  \<^bold>\<open>State and operations.\<close> A struct is a record with the fields of the source, an enum a datatype, and
  an operation has the name of its function, with the name of the type in front where two types
  have a method of the same name (\<open>tcp_close\<close>, \<open>udp_close\<close>, \<open>quic_close\<close>). The body of an endless
  loop is a function named after the loop (\<open>tcp_listener_turn\<close> for \<open>tcp_listener_loop_with_state\<close>);
  \<open>loop_run\<close> repeats it. Code that calls the operating system is a state transformer on \<open>world\<close>; code
  that sets a server up, one on \<open>deployment\<close>: the world, the runtime with its executors, and the
  server's own state. Errors are \<open>Inl\<close>. The runtime and the platform that conditional compilation
  selects are arguments (\<open>rt\<close>, \<open>t\<close>, \<open>arch\<close>). An example program is a function from what it finds on
  its machine (\<open>host\<close>) and its arguments to the deployment it leaves behind when it goes to wait,
  to an error, or to the exit after its usage text.

  \<^bold>\<open>What is shown.\<close>

    \<^item> Routing: the hash is FNV-1a of an encoding of the addresses; both BPF programs and the user space
      router agree on every packet; a generated id leads back to its worker; and so a connection stays
      with its worker however the server was set up.
    \<^item> Binding: each socket goes through the documented calls in order; required transparency is
      never silently dropped; sockets handed out for the kernel selector have a program attached and
      have received their probes; binding ends, and fails only for the stated reasons.
    \<^item> Permits: under every interleaving the counter is the number of permits and stays within the
      limit, and a waiting listener is not forgotten. Every task of every server hands each permit
      on or drops it.
    \<^item> Executors: a cancelled task does not run again, the map of handles is exact, shutdown is final;
      and how late a cancellation on async-std is without effect.
    \<^item> Loops: each routing loop refines its routing function. What it delivers is, in order and
      without duplicates, what arrived, at the worker the function names, less what was refused.
    \<^item> Servers: what a successful \<open>serve\<close> queues on which worker, what \<open>close\<close> cancels, wakes and
      leaves alone, and what remains when \<open>serve\<close> fails half-way.
    \<^item> Files: a request never leads outside the root directory, every plain file can be reached, the two
      builds answer alike, and request reading is bounded.
    \<^item> Programs: addresses, numbers and command lines are read back from their texts; a UDP server program
      that runs has the workers and the address it was told; the echo handlers send back what they
      read, and end when the peer does.

  \<^bold>\<open>Interfaces.\<close> Where a component relies on a contract that more than one operation meets, the
  contract is a locale, interpreted on the operations of the model: \<open>service_config\<close> (both
  configurations), \<open>packet_router\<close> (hash and connection id), \<open>kernel_selector\<close> (both programs),
  \<open>permit_counter\<close>, \<open>socket_binder\<close> (TCP and UDP), \<open>task_spawner\<close> (both runtimes), \<open>serving_loop\<close> (all nine
  loops), \<open>task_registry\<close> (the registries of the servers) and \<open>echo_loop\<close> (both TCP echo handlers).

  \<^bold>\<open>Parameters.\<close> What is not in the sources is an argument, and a lemma that needs something of it says
  so: the answers of the operating system (\<open>os\<close>) and of other threads, peers and channels (\<open>env\<close>), as
  arbitrary functions of everything that happened before; the random source (\<open>fill\<close>);
  \<open>AtomicWaker\<close> (\<open>waker_ops\<close>, of which it is assumed that it wakes the task registered last); the
  scheduling of tokio (a step relation that allows every order); where the kernel puts the context
  and the packet of an eBPF run, whose data is the QUIC payload (\<open>ebpf_machine_ok\<close>: addresses just
  behind the packet do not wrap); the file system (\<open>file_system\<close>, constant during one request);
  a TCP stream (\<open>tcp_stream\<close>, of which it is assumed that a read fits the buffer); the creation of
  threads (\<open>fresh_threads\<close>: a new thread has an empty queue).

  \<^bold>\<open>Bounds.\<close> \<open>loop_run k\<close> runs at most \<open>k\<close> turns; the theorems hold for every \<open>k\<close>, so they cover every
  finite stretch of a run, and where a loop must end they say after how many turns. The probe loops
  of \<open>Quic_Reuseport\<close> may run forever and are partial functions with the value \<open>None\<close> for that;
  \<open>quic_bind_terminates\<close> shows that they return when the clock advances and the sockets run dry. The BPF
  interpreters have a step for each instruction, which suffices as both programs only jump forward.
  Executor runs have fewer than \<open>2 ^ 64\<close> submissions, the range of the id counter. Worker counts are
  below \<open>2 ^ 31\<close> where a program holds one as an immediate operand. The echo loops of TCP have turns
  like \<open>loop_run\<close>: on a stream whose peer has closed after \<open>n\<close> events, \<open>n + 4098\<close> turns suffice on tokio
  (a buffer of 4096 bytes may leave byte by byte) and \<open>n + 1\<close> on async-std.

  \<^bold>\<open>Not modelled.\<close> Re-exports and feature gates (\<open>lib.rs\<close>, \<open>core/mod.rs\<close>). The user's handler, its
  state and the state factory: only that it is started, on which worker, with what and under which
  permit. \<open>serve\<close> is \<open>serve_with_state\<close> with unit state and has no definition of its own. The inside
  of channels: a send succeeds or fails and a receive gives an item or the end, as the environment
  decides, which covers every capacity. \<open>block_on\<close> and \<open>spawn\<close> of the tokio runtime and the parking
  loop on async-std, which forward to those libraries. The memory layout of C structures, except
  where \<open>Orig_Dst\<close> reads their bytes. What the examples print, and the connection handling
  of hyper. The test modules. What the sources hold beyond this are imports, type aliases and
  functions that only pass a call on.
\<close>

section \<open>Properties across components\<close>

text \<open>The task that routes QUIC packets in user space, by what it hands over.\<close>

lemma routed_task_delivers:
  assumes "run_udp_task k (QuicRoutedTask socket n [0..<n] limits) e = Some (over, tr)"
    and "(w, meta, payload) \<in> set (delivered tr)"
  shows "\<exists>i<n. w = Some i \<and> quic_worker_index payload n = Some i"
  using assms quic_routed_delivered [of k socket n limits e]
  by (auto simp: run_udp_task_def outcome_def Let_def split: prod.splits)



end
